theory Spec2Isabelle
  imports Complex_Main "HOL-Library.Char_ord" "HOL-Library.List_Lexorder"
    "HOL-Library.Product_Lexorder" "HOL-Library.Multiset"
begin

section \<open>The benchmark script \<^verbatim>\<open>dict_of_dicts_init.py\<close>\<close>

text \<open>
  The script is Python 2 (\<^verbatim>\<open>xrange\<close>, \<^verbatim>\<open>exec\<close> of compiled text inside \<^verbatim>\<open>main\<close>).
  Its objects are dictionaries of dictionaries that are copied shallowly, so the inner
  dictionaries live in an explicit store and the outer ones map keys to addresses.
  Readings of \<^verbatim>\<open>time.time()\<close> come from the environment: the model takes them as a
  function \<open>clock\<close> from the number of the call to the instant of the call, which
  \<^verbatim>\<open>time.time()\<close> gives as a float. The script computes with IEEE doubles: the model
  rounds the exact result of every operation of the script to a double, with \<open>fl\<close>.
\<close>

subsection \<open>Python values: \<^verbatim>\<open>str(i)\<close>, \<^verbatim>\<open>round\<close>, \<^verbatim>\<open>format\<close>\<close>

definition nl :: string where
  "nl = [CHR 0x0A]"

definition digit_char :: "nat \<Rightarrow> char" where
  "digit_char n = ''0123456789'' ! (n mod 10)"

text \<open>\<^verbatim>\<open>str(i)\<close> for a non-negative integer: its decimal digits.\<close>

function str_nat :: "nat \<Rightarrow> string" where
  "str_nat n = (if n < 10 then [digit_char n] else str_nat (n div 10) @ [digit_char n])"
  by pat_completeness auto
termination
  by (relation "measure id") auto

declare str_nat.simps [simp del]

definition str_int :: "int \<Rightarrow> string" where
  "str_int i = (if i < 0 then CHR ''-'' # str_nat (nat (- i)) else str_nat (nat i))"

text \<open>
  \<^verbatim>\<open>int(round(x))\<close> of Python 2: \<^verbatim>\<open>round\<close> takes a half away from zero and gives an
  integral float, which \<^verbatim>\<open>int\<close> converts.
\<close>

definition py_round :: "rat \<Rightarrow> int" where
  "py_round x = (if 0 \<le> x then \<lfloor>x + 1 / 2\<rfloor> else - \<lfloor>- x + 1 / 2\<rfloor>)"

text \<open>The format field \<^verbatim>\<open>{:6d}\<close>: the decimal integer, padded on the left to 6 characters.\<close>

definition format_6d :: "int \<Rightarrow> string" where
  "format_6d i = replicate (6 - length (str_int i)) CHR '' '' @ str_int i"

text \<open>
  The format field \<^verbatim>\<open>{:.6f}\<close>: the value rounded to 6 decimals, a half going to the even
  neighbour, written with its sign, its integer digits, a point and 6 fraction digits.
\<close>

definition round_half_even :: "rat \<Rightarrow> int" where
  "round_half_even x =
     (let f = \<lfloor>x\<rfloor>; r = x - of_int f
      in if r < 1 / 2 then f else if 1 / 2 < r then f + 1 else if even f then f else f + 1)"

definition format_6f :: "rat \<Rightarrow> string" where
  "format_6f x =
     (let n = nat (round_half_even (\<bar>x\<bar> * 1000000));
          frac = str_nat (n mod 1000000)
      in (if x < 0 then ''-'' else '''') @ str_nat (n div 1000000) @ ''.'' @
         replicate (6 - length frac) CHR ''0'' @ frac)"

text \<open>
  The floats of the script are IEEE 754 binary64 numbers, and each of its arithmetic
  operations on them gives the exact result rounded to the nearest such number, a tie
  going to the one with an even significand. A float is modelled by the rational it
  denotes, and the rounding by \<open>fl\<close>: the numbers it yields are the integer multiples
  \<open>m * 2 ^ e\<close> with \<open>\<bar>m\<bar> \<le> 2 ^ 53\<close> and \<open>- 1074 \<le> e\<close>, where \<open>e\<close> is 52 below the
  binary exponent of the argument (\<open>- 1074\<close> for subnormal numbers). Above the largest
  finite float, about \<open>1.8 * 10 ^ 308\<close>, the machine gives an infinity; \<open>fl\<close> goes on as if
  the exponent were unbounded. The readings of a clock in seconds, their differences and
  the sums of a million of them stay far below that bound.
\<close>

text \<open>The number of binary digits of a natural number.\<close>

function bit_length :: "nat \<Rightarrow> nat" where
  "bit_length n = (if n = 0 then 0 else Suc (bit_length (n div 2)))"
  by pat_completeness auto
termination
  by (relation "measure id") auto

declare bit_length.simps [simp del]

text \<open>The binary exponent of a positive rational \<open>x\<close>: the \<open>l\<close> with \<open>2 ^ l \<le> x < 2 ^ (l + 1)\<close>.\<close>

definition floor_log2 :: "rat \<Rightarrow> int" where
  "floor_log2 x = (if 1 \<le> x then int (bit_length (nat \<lfloor>x\<rfloor>)) - 1
                   else - int (bit_length (nat (\<lceil>1 / x\<rceil> - 1))))"

definition fl :: "rat \<Rightarrow> rat" where
  "fl x = (if x = 0 then 0
           else (let e = max (floor_log2 \<bar>x\<bar> - 52) (- 1074)
                 in of_int (round_half_even (x / 2 powi e)) * 2 powi e))"

text \<open>
  The speedup column: \<^verbatim>\<open>int(round(100 * (base_seconds - seconds) / base_seconds))\<close>. Both
  variables hold floats; the subtraction, the multiplication and the division each round
  their result to a float, in this order, and \<^verbatim>\<open>round\<close> and \<^verbatim>\<open>int\<close> are exact on the float
  they get. The division by zero that Python raises is a case of \<open>print_rows\<close> below,
  which calls this function with a baseline that is not zero.
\<close>

definition speedup :: "rat \<Rightarrow> rat \<Rightarrow> int" where
  "speedup base_seconds seconds =
     py_round (fl (fl (100 * fl (base_seconds - seconds)) / base_seconds))"

text \<open>The row \<^verbatim>\<open>'{:6d}%  {:.6f}  {}'.format(..., seconds, name)\<close>.\<close>

definition format_row :: "rat \<Rightarrow> rat \<Rightarrow> string \<Rightarrow> string" where
  "format_row base_seconds seconds name =
     format_6d (speedup base_seconds seconds) @ ''%  '' @ format_6f seconds @ ''  '' @ name"

subsection \<open>The interpreter state\<close>

datatype py_error = KeyError | NameError | TypeError | ZeroDivisionError | Unsupported

datatype dict_kind = PlainDict | DefaultDict

type_synonym addr = nat
type_synonym inner = "string \<rightharpoonup> string"
type_synonym outer = "string \<rightharpoonup> addr"

text \<open>
  \<open>heap\<close> holds the inner dictionaries, \<open>next_addr\<close> is the first address not yet
  handed out. \<open>var_d1\<close> is the global \<^verbatim>\<open>d1\<close>, \<open>var_d\<close> and \<open>var_exists\<close> are the
  variables \<^verbatim>\<open>d\<close> and \<^verbatim>\<open>exists\<close> that the executed text binds (\<open>None\<close>: not bound yet),
  \<open>d_kind\<close> tells whether \<^verbatim>\<open>d\<close> is a \<^verbatim>\<open>defaultdict(dict)\<close>. \<open>ticks\<close> counts the calls of
  \<^verbatim>\<open>time.time()\<close> and \<open>out\<close> is the text written to standard output.
\<close>

record state =
  heap :: "addr \<Rightarrow> inner"
  next_addr :: addr
  var_d1 :: outer
  var_d :: "outer option"
  d_kind :: dict_kind
  var_exists :: "bool option"
  ticks :: nat
  out :: string

text \<open>A raised exception carries the state it was raised in.\<close>

type_synonym 'a result = "(py_error \<times> state) + 'a"

definition k1 :: string where "k1 = ''k1''"
definition k2 :: string where "k2 = ''k2''"
definition v :: string where "v = ''v''"

text \<open>A dictionary display (\<^verbatim>\<open>{}\<close>, \<^verbatim>\<open>{k2: v}\<close>) or \<^verbatim>\<open>dict()\<close> makes a new object.\<close>

definition alloc :: "inner \<Rightarrow> state \<Rightarrow> addr \<times> state" where
  "alloc m s =
     (next_addr s, s\<lparr>heap := (heap s)(next_addr s := m), next_addr := Suc (next_addr s)\<rparr>)"

text \<open>\<^verbatim>\<open>x[k] = w\<close> on the inner dictionary at address \<open>a\<close>.\<close>

definition inner_setitem :: "addr \<Rightarrow> string \<Rightarrow> string \<Rightarrow> state \<Rightarrow> state" where
  "inner_setitem a k w s = s\<lparr>heap := (heap s)(a := (heap s a)(k \<mapsto> w))\<rparr>"

text \<open>
  \<^verbatim>\<open>d[k]\<close> as an expression: a missing key raises \<^verbatim>\<open>KeyError\<close> on a plain dictionary;
  a \<^verbatim>\<open>defaultdict(dict)\<close> stores a new empty dictionary under the key and gives it.
\<close>

definition d_getitem :: "string \<Rightarrow> state \<Rightarrow> (addr \<times> state) result" where
  "d_getitem k s =
     (case var_d s of
        None \<Rightarrow> Inl (NameError, s)
      | Some m \<Rightarrow>
          (case m k of
             Some a \<Rightarrow> Inr (a, s)
           | None \<Rightarrow>
               (case d_kind s of
                  PlainDict \<Rightarrow> Inl (KeyError, s)
                | DefaultDict \<Rightarrow>
                    (let (a, s') = alloc Map.empty s
                     in Inr (a, s'\<lparr>var_d := Some (m(k \<mapsto> a))\<rparr>)))))"

text \<open>\<^verbatim>\<open>d[k] = x\<close> where \<open>x\<close> is the object at address \<open>a\<close>.\<close>

definition d_setitem :: "string \<Rightarrow> addr \<Rightarrow> state \<Rightarrow> state result" where
  "d_setitem k a s =
     (case var_d s of
        None \<Rightarrow> Inl (NameError, s)
      | Some m \<Rightarrow> Inr (s\<lparr>var_d := Some (m(k \<mapsto> a))\<rparr>))"

text \<open>\<^verbatim>\<open>del d[k]\<close>: a missing key raises \<^verbatim>\<open>KeyError\<close>, also on a \<^verbatim>\<open>defaultdict\<close>.\<close>

definition d_delitem :: "string \<Rightarrow> state \<Rightarrow> state result" where
  "d_delitem k s =
     (case var_d s of
        None \<Rightarrow> Inl (NameError, s)
      | Some m \<Rightarrow>
          (case m k of
             None \<Rightarrow> Inl (KeyError, s)
           | Some a \<Rightarrow> Inr (s\<lparr>var_d := Some (m(k := None))\<rparr>)))"

text \<open>\<^verbatim>\<open>d[k][k'] = w\<close>.\<close>

definition d_store_nested :: "string \<Rightarrow> string \<Rightarrow> string \<Rightarrow> state \<Rightarrow> state result" where
  "d_store_nested k k' w s =
     (case d_getitem k s of
        Inl e \<Rightarrow> Inl e
      | Inr (a, s') \<Rightarrow> Inr (inner_setitem a k' w s'))"

text \<open>\<^verbatim>\<open>d[k] = {k': w}\<close>: the display is evaluated first, then stored.\<close>

definition d_set_fresh :: "string \<Rightarrow> inner \<Rightarrow> state \<Rightarrow> state result" where
  "d_set_fresh k m s =
     (let (a, s') = alloc m s in d_setitem k a s')"

subsection \<open>The executed text\<close>

text \<open>
  The script keeps its set-up and measured statements as source text and runs them with
  \<^verbatim>\<open>exec\<close> in the scope of \<^verbatim>\<open>main\<close>. Each text of the script is given here, with its
  meaning as a function on the state.
\<close>

definition src_pass :: string where
  "src_pass = ''pass''"

definition src_copy :: string where
  "src_copy = ''d = d1.copy()''"

definition src_defaultdict :: string where
  "src_defaultdict =
     nl @ ''from collections import defaultdict'' @ nl @ ''d = defaultdict(dict, d1)'' @ nl"

definition src_del :: string where
  "src_del = ''if not exists: del d[k1]''"

definition src_m_setdefault :: string where
  "src_m_setdefault = ''d.setdefault(k1, {})[k2] = v''"

definition src_m_defaultdict :: string where
  "src_m_defaultdict = ''d[k1][k2] = v''"

definition src_m_not_in :: string where
  "src_m_not_in =
     nl @ ''if k1 not in d:'' @ nl @ ''    d[k1] = {}'' @ nl @ ''d[k1][k2] = v'' @ nl"

definition src_m_in_else :: string where
  "src_m_in_else =
     nl @ ''if k1 in d:'' @ nl @ ''    d[k1][k2] = v'' @ nl @ ''else:'' @ nl @
     ''    d[k1] = {k2: v}'' @ nl"

definition src_m_get :: string where
  "src_m_get =
     nl @ ''vs = d.get(k1)'' @ nl @ ''if vs is None:'' @ nl @ ''    d[k1] = {k2: v}'' @ nl @
     ''else:'' @ nl @ ''    vs[k2] = v'' @ nl"

definition src_m_try :: string where
  "src_m_try =
     nl @ ''try:'' @ nl @ ''    d[k1][k2] = v'' @ nl @ ''except KeyError:'' @ nl @
     ''    d[k1] = {k2: v}'' @ nl @ nl"

text \<open>\<^verbatim>\<open>d = d1.copy()\<close>: a new outer dictionary holding the same inner objects.\<close>

definition exec_copy :: "state \<Rightarrow> state result" where
  "exec_copy s = Inr (s\<lparr>var_d := Some (var_d1 s), d_kind := PlainDict\<rparr>)"

text \<open>
  \<^verbatim>\<open>d = defaultdict(dict, d1)\<close>: likewise, with \<^verbatim>\<open>dict\<close> as the default factory. The name
  \<^verbatim>\<open>defaultdict\<close> that the import binds is not kept in the state.
\<close>

definition exec_defaultdict :: "state \<Rightarrow> state result" where
  "exec_defaultdict s = Inr (s\<lparr>var_d := Some (var_d1 s), d_kind := DefaultDict\<rparr>)"

text \<open>\<^verbatim>\<open>if not exists: del d[k1]\<close>.\<close>

definition exec_del :: "state \<Rightarrow> state result" where
  "exec_del s =
     (case var_exists s of
        None \<Rightarrow> Inl (NameError, s)
      | Some e \<Rightarrow> if \<not> e then d_delitem k1 s else Inr s)"

text \<open>
  \<^verbatim>\<open>d.setdefault(k1, {})[k2] = v\<close>: the argument \<^verbatim>\<open>{}\<close> is built before the call, whether
  the key is there or not.
\<close>

definition exec_m_setdefault :: "state \<Rightarrow> state result" where
  "exec_m_setdefault s =
     (case var_d s of
        None \<Rightarrow> Inl (NameError, s)
      | Some m \<Rightarrow>
          (let (a, s1) = alloc Map.empty s
           in case m k1 of
                Some b \<Rightarrow> Inr (inner_setitem b k2 v s1)
              | None \<Rightarrow> Inr (inner_setitem a k2 v (s1\<lparr>var_d := Some (m(k1 \<mapsto> a))\<rparr>))))"

definition exec_m_defaultdict :: "state \<Rightarrow> state result" where
  "exec_m_defaultdict s = d_store_nested k1 k2 v s"

definition exec_m_not_in :: "state \<Rightarrow> state result" where
  "exec_m_not_in s =
     (case var_d s of
        None \<Rightarrow> Inl (NameError, s)
      | Some m \<Rightarrow>
          (case (if m k1 = None then d_set_fresh k1 Map.empty s else Inr s) of
             Inl e \<Rightarrow> Inl e
           | Inr s1 \<Rightarrow> d_store_nested k1 k2 v s1))"

definition exec_m_in_else :: "state \<Rightarrow> state result" where
  "exec_m_in_else s =
     (case var_d s of
        None \<Rightarrow> Inl (NameError, s)
      | Some m \<Rightarrow>
          if m k1 \<noteq> None then d_store_nested k1 k2 v s else d_set_fresh k1 [k2 \<mapsto> v] s)"

text \<open>
  \<^verbatim>\<open>d.get(k1)\<close> gives \<^verbatim>\<open>None\<close> for a missing key, on a \<^verbatim>\<open>defaultdict\<close> too. The variable
  \<^verbatim>\<open>vs\<close> that the text binds is read by no other text and is not kept in the state.
\<close>

definition exec_m_get :: "state \<Rightarrow> state result" where
  "exec_m_get s =
     (case var_d s of
        None \<Rightarrow> Inl (NameError, s)
      | Some m \<Rightarrow>
          (case m k1 of
             None \<Rightarrow> d_set_fresh k1 [k2 \<mapsto> v] s
           | Some vs \<Rightarrow> Inr (inner_setitem vs k2 v s)))"

definition exec_m_try :: "state \<Rightarrow> state result" where
  "exec_m_try s =
     (case d_store_nested k1 k2 v s of
        Inl (e, s') \<Rightarrow> if e = KeyError then d_set_fresh k1 [k2 \<mapsto> v] s' else Inl (e, s')
      | Inr s' \<Rightarrow> Inr s')"

text \<open>
  \<^verbatim>\<open>exec\<close> of a text. The empty text and \<^verbatim>\<open>pass\<close> do nothing; a text that the script does
  not contain has no meaning here and gives \<open>Unsupported\<close>.
\<close>

definition exec_src :: "string \<Rightarrow> state \<Rightarrow> state result" where
  "exec_src src s =
     (if src = [] \<or> src = src_pass then Inr s
      else if src = ''exists = False'' then Inr (s\<lparr>var_exists := Some False\<rparr>)
      else if src = ''exists = True'' then Inr (s\<lparr>var_exists := Some True\<rparr>)
      else if src = src_copy then exec_copy s
      else if src = src_defaultdict then exec_defaultdict s
      else if src = src_del then exec_del s
      else if src = src_m_setdefault then exec_m_setdefault s
      else if src = src_m_defaultdict then exec_m_defaultdict s
      else if src = src_m_not_in then exec_m_not_in s
      else if src = src_m_in_else then exec_m_in_else s
      else if src = src_m_get then exec_m_get s
      else if src = src_m_try then exec_m_try s
      else Inl (Unsupported, s))"

subsection \<open>The configuration\<close>

definition envs :: "string list" where
  "envs = [''exists = False'', ''exists = True'']"

text \<open>
  A test is a dictionary with the keys \<^verbatim>\<open>name\<close> and \<^verbatim>\<open>measure\<close>, and with \<^verbatim>\<open>init_once\<close>,
  \<^verbatim>\<open>init_each\<close> and \<^verbatim>\<open>repeat\<close> when it gives them (\<open>None\<close>: the key is missing, which is
  what \<^verbatim>\<open>test.get\<close> returns then).
\<close>

record test =
  t_name :: string
  t_init_once :: "string option"
  t_init_each :: "string option"
  t_measure :: string
  t_repeat :: "int option"

definition defaults_init_once :: string where
  "defaults_init_once = src_pass"

definition defaults_init_each :: string where
  "defaults_init_each = src_pass"

definition defaults_repeat :: int where
  "defaults_repeat = 10 ^ 6"

definition tests :: "test list" where
  "tests =
     [\<lparr>t_name = ''setdefault'', t_init_once = Some src_copy, t_init_each = Some src_del,
        t_measure = src_m_setdefault, t_repeat = None\<rparr>,
      \<lparr>t_name = ''defaultdict'', t_init_once = Some src_defaultdict, t_init_each = Some src_del,
        t_measure = src_m_defaultdict, t_repeat = None\<rparr>,
      \<lparr>t_name = ''not in'', t_init_once = Some src_copy, t_init_each = Some src_del,
        t_measure = src_m_not_in, t_repeat = None\<rparr>,
      \<lparr>t_name = ''in else'', t_init_once = Some src_copy, t_init_each = Some src_del,
        t_measure = src_m_in_else, t_repeat = None\<rparr>,
      \<lparr>t_name = ''get'', t_init_once = Some src_copy, t_init_each = Some src_del,
        t_measure = src_m_get, t_repeat = None\<rparr>,
      \<lparr>t_name = ''try'', t_init_once = Some src_copy, t_init_each = Some src_del,
        t_measure = src_m_try, t_repeat = None\<rparr>]"

text \<open>
  \<^verbatim>\<open>d1 = {'k' + str(i): {} for i in xrange(10**6)}\<close>: every round makes a new empty
  dictionary and stores it under the key.
\<close>

definition empty_state :: state where
  "empty_state =
     \<lparr>heap = (\<lambda>_. Map.empty), next_addr = 0, var_d1 = Map.empty, var_d = None,
      d_kind = PlainDict, var_exists = None, ticks = 0, out = []\<rparr>"

definition d1_step :: "nat \<Rightarrow> state \<Rightarrow> state" where
  "d1_step i s =
     (let (a, s') = alloc Map.empty s
      in s'\<lparr>var_d1 := (var_d1 s')(''k'' @ str_nat i \<mapsto> a)\<rparr>)"

definition build_d1 :: "nat \<Rightarrow> state \<Rightarrow> state" where
  "build_d1 n s = fold d1_step [0..<n] s"

definition initial :: state where
  "initial = build_d1 (10 ^ 6) empty_state"

subsection \<open>\<^verbatim>\<open>main\<close>\<close>

text \<open>\<^verbatim>\<open>x or y\<close> where \<open>x\<close> is \<^verbatim>\<open>None\<close>, a string or an integer.\<close>

definition or_str :: "string option \<Rightarrow> string \<Rightarrow> string" where
  "or_str x y = (case x of None \<Rightarrow> y | Some s \<Rightarrow> if s = [] then y else s)"

definition or_int :: "int option \<Rightarrow> int \<Rightarrow> int" where
  "or_int x y = (case x of None \<Rightarrow> y | Some i \<Rightarrow> if i = 0 then y else i)"

definition py_print :: "string \<Rightarrow> state \<Rightarrow> state" where
  "py_print x s = s\<lparr>out := out s @ x @ nl\<rparr>"

text \<open>\<^verbatim>\<open>time.time()\<close>: the instant of the call, as a float.\<close>

definition time_time :: "(nat \<Rightarrow> rat) \<Rightarrow> state \<Rightarrow> rat \<times> state" where
  "time_time clock s = (fl (clock (ticks s)), s\<lparr>ticks := Suc (ticks s)\<rparr>)"

text \<open>
  The loop \<^verbatim>\<open>for _ in xrange(repeat)\<close>, with the rounds left to run as its counter and
  \<^verbatim>\<open>seconds\<close> as its accumulator: \<^verbatim>\<open>seconds += time.time() - start\<close> rounds the difference
  and then the sum.
\<close>

fun run_iters ::
  "(nat \<Rightarrow> rat) \<Rightarrow> string \<Rightarrow> string \<Rightarrow> nat \<Rightarrow> rat \<Rightarrow> state \<Rightarrow> (rat \<times> state) result" where
  "run_iters clock init_each measured 0 seconds s = Inr (seconds, s)"
| "run_iters clock init_each measured (Suc n) seconds s =
     (case exec_src init_each s of
        Inl e \<Rightarrow> Inl e
      | Inr s1 \<Rightarrow>
          (let (start, s2) = time_time clock s1
           in case exec_src measured s2 of
                Inl e \<Rightarrow> Inl e
              | Inr s3 \<Rightarrow>
                  (let (stop, s4) = time_time clock s3
                   in run_iters clock init_each measured n
                        (fl (seconds + fl (stop - start))) s4)))"

text \<open>The body of \<^verbatim>\<open>for test in tests\<close> up to the end of the inner loop.\<close>

definition run_test :: "(nat \<Rightarrow> rat) \<Rightarrow> test \<Rightarrow> state \<Rightarrow> (rat \<times> state) result" where
  "run_test clock t s =
     (let init_once = or_str (t_init_once t) defaults_init_once;
          init_each = or_str (t_init_each t) defaults_init_each;
          measured = t_measure t;
          repeat = or_int (t_repeat t) defaults_repeat
      in case exec_src init_once s of
           Inl e \<Rightarrow> Inl e
         | Inr s1 \<Rightarrow> run_iters clock init_each measured (nat repeat) 0 s1)"

text \<open>
  The loop \<^verbatim>\<open>for test in tests\<close>, with \<^verbatim>\<open>results\<close> and \<^verbatim>\<open>base_seconds\<close> as accumulators.
\<close>

fun run_tests ::
  "(nat \<Rightarrow> rat) \<Rightarrow> test list \<Rightarrow> (rat \<times> string) list \<Rightarrow> rat option \<Rightarrow> state \<Rightarrow>
     ((rat \<times> string) list \<times> rat option \<times> state) result" where
  "run_tests clock [] results base_seconds s = Inr (results, base_seconds, s)"
| "run_tests clock (t # ts) results base_seconds s =
     (case run_test clock t s of
        Inl e \<Rightarrow> Inl e
      | Inr (seconds, s') \<Rightarrow>
          run_tests clock ts (results @ [(seconds, t_name t)])
            (case base_seconds of None \<Rightarrow> Some seconds | Some b \<Rightarrow> Some b) s')"

text \<open>
  The loop over \<^verbatim>\<open>sorted(results)\<close>. Without a baseline the subtraction raises
  \<^verbatim>\<open>TypeError\<close>, with a baseline of zero the division raises \<^verbatim>\<open>ZeroDivisionError\<close>.
\<close>

fun print_rows :: "rat option \<Rightarrow> (rat \<times> string) list \<Rightarrow> state \<Rightarrow> state result" where
  "print_rows base_seconds [] s = Inr s"
| "print_rows base_seconds ((seconds, name) # rest) s =
     (case base_seconds of
        None \<Rightarrow> Inl (TypeError, s)
      | Some b \<Rightarrow>
          if b = 0 then Inl (ZeroDivisionError, s)
          else print_rows base_seconds rest (py_print (format_row b seconds name) s))"

definition header :: string where
  "header = ''speedup   seconds  option''"

definition print_table :: "(rat \<times> string) list \<Rightarrow> rat option \<Rightarrow> state \<Rightarrow> state result" where
  "print_table results base_seconds s =
     print_rows base_seconds (sort results) (py_print header s)"

text \<open>The start of the body of \<^verbatim>\<open>for env in envs\<close>: the label and \<^verbatim>\<open>exec(env)\<close>.\<close>

definition start_env :: "string \<Rightarrow> state \<Rightarrow> state result" where
  "start_env env s = exec_src env (py_print (nl @ env @ '':'') s)"

definition run_env :: "(nat \<Rightarrow> rat) \<Rightarrow> string \<Rightarrow> state \<Rightarrow> state result" where
  "run_env clock env s =
     (case start_env env s of
        Inl e \<Rightarrow> Inl e
      | Inr s1 \<Rightarrow>
          (case run_tests clock tests [] None s1 of
             Inl e \<Rightarrow> Inl e
           | Inr (results, base_seconds, s2) \<Rightarrow> print_table results base_seconds s2))"

fun run_envs :: "(nat \<Rightarrow> rat) \<Rightarrow> string list \<Rightarrow> state \<Rightarrow> state result" where
  "run_envs clock [] s = Inr s"
| "run_envs clock (env # rest) s =
     (case run_env clock env s of
        Inl e \<Rightarrow> Inl e
      | Inr s' \<Rightarrow> run_envs clock rest s')"

text \<open>
  \<^verbatim>\<open>main()\<close>, run on the state the module's top level leaves. \<^verbatim>\<open>gc.disable()\<close> changes
  nothing the model holds.
\<close>

definition main :: "(nat \<Rightarrow> rat) \<Rightarrow> state result" where
  "main clock = run_envs clock envs initial"

text \<open>The state a run ends in, normally or by an exception.\<close>

definition final_state :: "state result \<Rightarrow> state" where
  "final_state r = (case r of Inl (e, s) \<Rightarrow> s | Inr s \<Rightarrow> s)"

section \<open>Notions used in the proofs\<close>

text \<open>
  The state after a new dictionary \<^verbatim>\<open>{k2: v}\<close> has been stored under \<^verbatim>\<open>k1\<close> in
  the outer dictionary \<open>m\<close>.
\<close>

definition ins_fresh :: "outer \<Rightarrow> state \<Rightarrow> state" where
  "ins_fresh m s =
     s\<lparr>heap := (heap s)(next_addr s := [k2 \<mapsto> v]), next_addr := Suc (next_addr s),
       var_d := Some (m(k1 \<mapsto> next_addr s))\<rparr>"

text \<open>
  The six measured texts.
\<close>

definition measured_srcs :: "string set" where
  "measured_srcs =
     {src_m_setdefault, src_m_defaultdict, src_m_not_in, src_m_in_else, src_m_get, src_m_try}"

text \<open>
  The state after a measured text has run with \<^verbatim>\<open>k1\<close> present, holding the object at
  address \<open>a\<close>: \<^verbatim>\<open>setdefault\<close> has built its default first.
\<close>

definition store_present :: "string \<Rightarrow> addr \<Rightarrow> state \<Rightarrow> state" where
  "store_present me a s =
     inner_setitem a k2 v (if me = src_m_setdefault then snd (alloc Map.empty s) else s)"

text \<open>
  What a run leaves of an earlier state \<open>s\<close>, \<open>b\<close> being the address \<^verbatim>\<open>d1\<close> holds under
  \<^verbatim>\<open>k1\<close>: \<^verbatim>\<open>d1\<close> itself, every object that existed other than \<open>b\<close>, and \<open>b\<close> up to
  the entry \<^verbatim>\<open>k2 -> v\<close>.
\<close>

definition frame :: "addr \<Rightarrow> state \<Rightarrow> state \<Rightarrow> bool" where
  "frame b s s' \<longleftrightarrow>
     var_d1 s' = var_d1 s \<and> next_addr s \<le> next_addr s' \<and>
     (\<forall>a. a < next_addr s \<longrightarrow> a \<noteq> b \<longrightarrow> heap s' a = heap s a) \<and>
     (heap s' b = heap s b \<or> heap s' b = (heap s b)(k2 \<mapsto> v))"

text \<open>
  The invariant of the inner loop at the head of a round, \<open>s0\<close> being the state after
  \<^verbatim>\<open>init_once\<close> and \<open>e\<close> the value of \<^verbatim>\<open>exists\<close>.
\<close>

definition loop_inv :: "addr \<Rightarrow> bool \<Rightarrow> state \<Rightarrow> state \<Rightarrow> bool" where
  "loop_inv b e s0 s \<longleftrightarrow>
     frame b s0 s \<and> out s = out s0 \<and> var_exists s = Some e \<and> d_kind s = d_kind s0 \<and>
     ticks s0 \<le> ticks s \<and>
     (\<exists>m a. var_d s = Some m \<and> m k1 = Some a \<and> a < next_addr s \<and>
        (\<forall>k. k \<noteq> k1 \<longrightarrow> m k = var_d1 s0 k) \<and>
        (if e then a = b \<and> (ticks s0 < ticks s \<longrightarrow> heap s b = (heap s0 b)(k2 \<mapsto> v))
         else heap s b = heap s0 b \<and>
           (ticks s0 < ticks s \<longrightarrow> next_addr s0 \<le> a \<and> heap s a = [k2 \<mapsto> v])))"

text \<open>
  A test built like the six of the script: it copies \<^verbatim>\<open>d1\<close> once, deletes before each
  round and measures one of the six texts.
\<close>

definition benchmark_test :: "test \<Rightarrow> bool" where
  "benchmark_test t \<longleftrightarrow>
     t_init_each t = Some src_del \<and> t_measure t \<in> measured_srcs \<and>
     (t_init_once t = Some src_copy \<and> t_measure t \<noteq> src_m_defaultdict \<or>
      t_init_once t = Some src_defaultdict)"

text \<open>
  The number of rounds of a test.
\<close>

definition rounds :: "test \<Rightarrow> nat" where
  "rounds t = nat (or_int (t_repeat t) defaults_repeat)"

text \<open>
  The accumulator \<^verbatim>\<open>seconds\<close> after \<open>n\<close> rounds that start at clock reading number \<open>t0\<close>:
  every round reads the clock twice and adds the difference of the two readings, and both
  the difference and the sum are rounded. \<open>test_seconds\<close> is what a test accumulates from 0.
\<close>

fun acc_seconds :: "(nat \<Rightarrow> rat) \<Rightarrow> nat \<Rightarrow> nat \<Rightarrow> rat \<Rightarrow> rat" where
  "acc_seconds clock 0 t0 seconds = seconds"
| "acc_seconds clock (Suc n) t0 seconds =
     acc_seconds clock n (t0 + 2) (fl (seconds + fl (fl (clock (Suc t0)) - fl (clock t0))))"

definition test_seconds :: "(nat \<Rightarrow> rat) \<Rightarrow> nat \<Rightarrow> nat \<Rightarrow> rat" where
  "test_seconds clock n t0 = acc_seconds clock n t0 0"

text \<open>
  The state after the \<^verbatim>\<open>init_once\<close> of a test.
\<close>

definition after_init_once :: "test \<Rightarrow> state \<Rightarrow> state" where
  "after_init_once t s =
     s\<lparr>var_d := Some (var_d1 s),
       d_kind := (if t_init_once t = Some src_copy then PlainDict else DefaultDict)\<rparr>"

text \<open>
  The result entries of a list of tests run from clock reading number \<open>t0\<close> on.
\<close>

fun expected_results :: "(nat \<Rightarrow> rat) \<Rightarrow> test list \<Rightarrow> nat \<Rightarrow> (rat \<times> string) list" where
  "expected_results clock [] t0 = []"
| "expected_results clock (t # ts) t0 =
     (test_seconds clock (rounds t) t0, t_name t) # expected_results clock ts (t0 + 2 * rounds t)"

text \<open>
  The baseline after a list of tests has added the entries \<open>rs\<close>.
\<close>

definition new_base :: "rat option \<Rightarrow> (rat \<times> string) list \<Rightarrow> rat option" where
  "new_base base rs =
     (case base of Some x \<Rightarrow> Some x | None \<Rightarrow> (case rs of [] \<Rightarrow> None | r # _ \<Rightarrow> Some (fst r)))"

text \<open>
  The text of the rows of a table.
\<close>

definition rows_text :: "rat \<Rightarrow> (rat \<times> string) list \<Rightarrow> string" where
  "rows_text b rows = concat (map (\<lambda>(seconds, name). format_row b seconds name @ nl) rows)"

text \<open>
  A clock that advances 16 seconds from one round to the next and lets the measured
  statement of test number \<open>j\<close> (counted over the whole run) take \<open>dur j\<close> seconds.
\<close>

definition paced_clock :: "(nat \<Rightarrow> rat) \<Rightarrow> nat \<Rightarrow> rat" where
  "paced_clock dur n = 16 * of_nat (n div 2) + (if odd n then dur (n div 2000000) else 0)"

text \<open>
  The value of a decimal string, to tell the keys of \<^verbatim>\<open>d1\<close> apart.
\<close>

definition digit_value :: "char \<Rightarrow> nat" where
  "digit_value c = of_char c - 48"

definition dec_value :: "string \<Rightarrow> nat" where
  "dec_value s = foldl (\<lambda>n c. 10 * n + digit_value c) 0 s"

section \<open>Properties of the executed text and of the run\<close>

subsection \<open>Rounding to a double\<close>

lemma round_half_even_of_int: "round_half_even (of_int i) = i"
  by (simp add: round_half_even_def)

lemma bit_length_0: "bit_length 0 = 0"
  by (subst bit_length.simps) simp

lemma bit_length_pos: "0 < n \<Longrightarrow> bit_length n = Suc (bit_length (n div 2))"
  by (subst bit_length.simps) simp

lemma bit_length_bounds:
  "0 < n \<Longrightarrow> 2 ^ (bit_length n - 1) \<le> n \<and> n < 2 ^ bit_length n"
proof (induction n rule: bit_length.induct)
  case (1 n)
  note bl = bit_length_pos [OF "1.prems"]
  show ?case
  proof (cases "n div 2 = 0")
    case True
    with 1 have n: "n = 1"
      by (simp add: div_eq_0_iff)
    from bl True have "bit_length n = 1"
      by (simp add: bit_length_0)
    then show ?thesis
      unfolding n by simp
  next
    case False
    with 1 have ih: "2 ^ (bit_length (n div 2) - 1) \<le> n div 2"
      "n div 2 < 2 ^ bit_length (n div 2)"
      by simp_all
    from False obtain k where k: "bit_length (n div 2) = Suc k"
      using bit_length_pos [of "n div 2"] by auto
    from ih k have "2 ^ k \<le> n div 2" "n div 2 < 2 ^ Suc k"
      by simp_all
    then have "2 * 2 ^ k \<le> n" "n < 2 * 2 ^ Suc k"
      by linarith+
    then show ?thesis
      by (simp add: bl k)
  qed
qed

lemma fl_0: "fl 0 = 0"
  by (simp add: fl_def)


lemma floor_log2_le:
  assumes "0 < x"
  shows "2 powi floor_log2 x \<le> x"
proof (cases "1 \<le> x")
  case True
  let ?n = "nat \<lfloor>x\<rfloor>"
  from True have n: "0 < ?n" by simp
  have "(2 :: rat) powi floor_log2 x = 2 ^ (bit_length ?n - 1)"
    using True bit_length_pos [OF n]
    by (simp add: floor_log2_def power_int_def)
  also have "\<dots> \<le> of_nat ?n"
    using bit_length_bounds [OF n] by (metis of_nat_le_iff of_nat_numeral of_nat_power)
  also have "\<dots> \<le> x"
    using True by (simp add: of_nat_nat)
  finally show ?thesis .
next
  case False
  let ?n = "nat (\<lceil>1 / x\<rceil> - 1)"
  from False assms have y: "1 < 1 / x" by simp
  then have c: "2 \<le> \<lceil>1 / x\<rceil>"
    by linarith
  then have n: "0 < ?n" by simp
  have "1 / x \<le> of_int \<lceil>1 / x\<rceil>"
    by linarith
  also have "\<dots> = of_nat ?n + 1"
  proof -
    have "0 \<le> \<lceil>1 / x\<rceil> - 1"
      using c by linarith
    then have "(of_nat ?n :: rat) = of_int (\<lceil>1 / x\<rceil> - 1)"
      by (rule of_nat_nat)
    then show ?thesis by simp
  qed
  also have "\<dots> \<le> 2 ^ bit_length ?n"
  proof -
    from bit_length_bounds [OF n] have "Suc ?n \<le> 2 ^ bit_length ?n"
      by linarith
    then have "(of_nat (Suc ?n) :: rat) \<le> of_nat (2 ^ bit_length ?n)"
      by (simp only: of_nat_le_iff)
    then show ?thesis by simp
  qed
  finally have "1 / x \<le> 2 ^ bit_length ?n" .
  with assms have "1 / 2 ^ bit_length ?n \<le> x"
    by (simp add: field_simps)
  moreover have "(2 :: rat) powi floor_log2 x = 1 / 2 ^ bit_length ?n"
    using False by (simp add: floor_log2_def power_int_minus_divide)
  ultimately show ?thesis by simp
qed

lemma floor_log2_gt:
  assumes "0 < x"
  shows "x < 2 powi (floor_log2 x + 1)"
proof (cases "1 \<le> x")
  case True
  let ?n = "nat \<lfloor>x\<rfloor>"
  from True have n: "0 < ?n" by simp
  have "x < of_int \<lfloor>x\<rfloor> + 1"
    by linarith
  also have "\<dots> = of_nat (Suc ?n)"
    using True by (simp add: of_nat_nat)
  also have "\<dots> \<le> of_nat (2 ^ bit_length ?n)"
  proof -
    from bit_length_bounds [OF n] have "Suc ?n \<le> 2 ^ bit_length ?n"
      by linarith
    then show ?thesis
      by (simp only: of_nat_le_iff)
  qed
  also have "\<dots> = 2 powi (floor_log2 x + 1)"
    using True by (simp add: floor_log2_def)
  finally show ?thesis .
next
  case False
  let ?n = "nat (\<lceil>1 / x\<rceil> - 1)"
  from False assms have y: "1 < 1 / x" by simp
  then have c: "2 \<le> \<lceil>1 / x\<rceil>"
    by linarith
  then have n: "0 < ?n" by simp
  have "(2 :: rat) ^ (bit_length ?n - 1) = of_nat (2 ^ (bit_length ?n - 1))"
    by simp
  also have "\<dots> \<le> of_nat ?n"
    using bit_length_bounds [OF n] by (simp only: of_nat_le_iff)
  also have "\<dots> = of_int \<lceil>1 / x\<rceil> - 1"
  proof -
    have "0 \<le> \<lceil>1 / x\<rceil> - 1"
      using c by linarith
    then have "(of_nat ?n :: rat) = of_int (\<lceil>1 / x\<rceil> - 1)"
      by (rule of_nat_nat)
    then show ?thesis by simp
  qed
  also have "\<dots> < 1 / x"
    by linarith
  finally have "(2 :: rat) ^ (bit_length ?n - 1) < 1 / x" .
  with assms have "x < 1 / 2 ^ (bit_length ?n - 1)"
    by (simp add: field_simps)
  moreover have "(2 :: rat) powi (floor_log2 x + 1) = 1 / 2 ^ (bit_length ?n - 1)"
  proof -
    from bit_length_pos [OF n] obtain k where k: "bit_length ?n = Suc k" by auto
    have "floor_log2 x + 1 = - int k"
      using False k by (simp add: floor_log2_def)
    then show ?thesis
      by (simp add: k power_int_minus_divide)
  qed
  ultimately show ?thesis by simp
qed


lemma pow2_less_imp: "(2 :: rat) powi a < 2 powi b \<Longrightarrow> a < b"
proof (rule ccontr)
  assume lt: "(2 :: rat) powi a < 2 powi b" and "\<not> a < b"
  then have "b \<le> a" by simp
  then have "(2 :: rat) powi b \<le> 2 powi a"
    by (rule power_int_increasing) simp
  with lt show False by simp
qed

lemma floor_log2_eqI:
  assumes "2 powi l \<le> x" and "x < 2 powi (l + 1)"
  shows "floor_log2 x = l"
proof -
  have pos: "0 < x"
    using assms(1) by (rule less_le_trans [rotated]) simp
  have "2 powi l < (2 :: rat) powi (floor_log2 x + 1)"
    using assms(1) floor_log2_gt [OF pos] by simp
  then have "l < floor_log2 x + 1"
    by (rule pow2_less_imp)
  moreover have "(2 :: rat) powi floor_log2 x < 2 powi (l + 1)"
    using assms(2) floor_log2_le [OF pos] by simp
  then have "floor_log2 x < l + 1"
    by (rule pow2_less_imp)
  ultimately show ?thesis by simp
qed

lemma fl_repr:
  assumes m: "\<bar>m\<bar> < 2 ^ 53" and g: "- 1074 \<le> g"
  shows "fl (of_int m * 2 powi g) = of_int m * 2 powi g"
proof (cases "m = 0")
  case True
  then show ?thesis by (simp add: fl_0)
next
  case False
  let ?x = "of_int m * 2 powi g :: rat"
  let ?e = "max (floor_log2 \<bar>?x\<bar> - 52) (- 1074)"
  have ax: "\<bar>?x\<bar> = of_int \<bar>m\<bar> * 2 powi g"
    by (simp add: abs_mult)
  have pos: "0 < \<bar>?x\<bar>"
    using False by simp
  have "of_int \<bar>m\<bar> < (2 :: rat) ^ 53"
    using m by (metis of_int_less_iff of_int_numeral of_int_power)
  then have "\<bar>?x\<bar> < 2 ^ 53 * 2 powi g"
    unfolding ax by (simp add: mult_strict_right_mono)
  also have "\<dots> = 2 powi (53 + g)"
    by (simp add: power_int_add)
  finally have "(2 :: rat) powi floor_log2 \<bar>?x\<bar> < 2 powi (53 + g)"
    using floor_log2_le [OF pos] by simp
  then have "floor_log2 \<bar>?x\<bar> < 53 + g"
    by (rule pow2_less_imp)
  with g have e: "?e \<le> g"
    by simp
  have "?x / 2 powi ?e = of_int m * 2 powi (g - ?e)"
    by (simp add: power_int_diff)
  also have "\<dots> = of_int m * 2 ^ nat (g - ?e)"
    using e by (simp add: power_int_nonneg_exp)
  also have "\<dots> = of_int (m * 2 ^ nat (g - ?e))"
    by simp
  finally have "round_half_even (?x / 2 powi ?e) = m * 2 ^ nat (g - ?e)"
    by (simp only: round_half_even_of_int)
  then have "of_int (round_half_even (?x / 2 powi ?e)) * 2 powi ?e =
      (of_int m :: rat) * (2 powi (g - ?e) * 2 powi ?e)"
    using e by (simp add: power_int_nonneg_exp)
  also have "\<dots> = ?x"
    by (simp flip: power_int_add)
  finally show ?thesis
    using False by (simp add: fl_def Let_def)
qed

lemma fl_of_int: "\<bar>m\<bar> < 2 ^ 53 \<Longrightarrow> fl (of_int m) = of_int m"
  using fl_repr [of m 0] by simp

lemma fl_64th: "\<bar>m\<bar> < 2 ^ 53 \<Longrightarrow> fl (of_int m / 64) = of_int m / 64"
  using fl_repr [of m "- 6"] by (simp add: power_int_minus_divide)

lemma fl_of_nat: "n < 2 ^ 53 \<Longrightarrow> fl (of_nat n) = of_nat n"
  using fl_of_int [of "int n"] by (simp flip: of_nat_less_numeral_power_cancel_iff)

lemma fl_nat_64th: "n < 2 ^ 53 \<Longrightarrow> fl (of_nat n / 64) = of_nat n / 64"
  using fl_64th [of "int n"] by (simp flip: of_nat_less_numeral_power_cancel_iff)

lemma fl_numeral: "(numeral n :: int) < 2 ^ 53 \<Longrightarrow> fl (numeral n) = numeral n"
  using fl_of_int [of "numeral n"] by simp

lemma fl_neg_numeral: "(numeral n :: int) < 2 ^ 53 \<Longrightarrow> fl (- numeral n) = - numeral n"
  using fl_of_int [of "- numeral n"] by simp

lemma fl_half: "\<bar>m\<bar> < 2 ^ 53 \<Longrightarrow> fl (of_int m / 2) = of_int m / 2"
  using fl_repr [of m "- 1"] by (simp add: power_int_minus_divide)

lemma round_half_even_near:
  assumes "\<bar>x - of_int k\<bar> < 1 / 2"
  shows "round_half_even x = k"
proof (cases "of_int k \<le> x")
  case True
  with assms have "\<lfloor>x\<rfloor> = k"
    by (simp add: floor_eq_iff)
  with assms True show ?thesis
    by (simp add: round_half_even_def Let_def)
next
  case False
  with assms have f: "\<lfloor>x\<rfloor> = k - 1"
    by (simp add: floor_eq_iff)
  have "1 / 2 < x - of_int (k - 1)"
    using assms False by simp
  then show ?thesis
    unfolding round_half_even_def Let_def f by simp
qed

lemma fl_near:
  assumes "2 powi l \<le> \<bar>x\<bar>" and "\<bar>x\<bar> < 2 powi (l + 1)"
    and "\<bar>x / 2 powi max (l - 52) (- 1074) - of_int k\<bar> < 1 / 2"
  shows "fl x = of_int k * 2 powi max (l - 52) (- 1074)"
proof -
  have "floor_log2 \<bar>x\<bar> = l"
    using assms(1,2) by (rule floor_log2_eqI)
  moreover have "(0 :: rat) < 2 powi l"
    by simp
  then have "0 < \<bar>x\<bar>"
    using assms(1) by (rule less_le_trans)
  then have "x \<noteq> 0"
    by simp
  moreover have "round_half_even (x / 2 powi max (l - 52) (- 1074)) = k"
    using assms(3) by (rule round_half_even_near)
  ultimately show ?thesis
    by (simp add: fl_def Let_def)
qed

lemma round_half_even_tie:
  "round_half_even (of_int k + 1 / 2) = (if even k then k else k + 1)"
proof -
  have "\<lfloor>of_int k + 1 / 2 :: rat\<rfloor> = k"
    by (simp add: floor_eq_iff)
  then show ?thesis
    unfolding round_half_even_def Let_def by simp
qed

lemma fl_tie:
  assumes "2 powi l \<le> \<bar>x\<bar>" and "\<bar>x\<bar> < 2 powi (l + 1)"
    and "x / 2 powi max (l - 52) (- 1074) = of_int k + 1 / 2"
  shows "fl x = of_int (if even k then k else k + 1) * 2 powi max (l - 52) (- 1074)"
proof -
  have "floor_log2 \<bar>x\<bar> = l"
    using assms(1,2) by (rule floor_log2_eqI)
  moreover have "(0 :: rat) < 2 powi l"
    by simp
  then have "0 < \<bar>x\<bar>"
    using assms(1) by (rule less_le_trans)
  then have "x \<noteq> 0"
    by simp
  moreover have "round_half_even (x / 2 powi max (l - 52) (- 1074)) =
      (if even k then k else k + 1)"
    unfolding assms(3) by (rule round_half_even_tie)
  ultimately show ?thesis
    by (simp add: fl_def Let_def)
qed

text \<open>
  \<open>fl x\<close> is a double, and no double is nearer to \<open>x\<close>: the rounding is to the nearest, and
  by \<open>round_half_even\<close> on the significand a tie goes to the even one.
\<close>

lemma round_half_even_error: "\<bar>of_int (round_half_even y) - y\<bar> \<le> 1 / 2"
proof -
  have "of_int \<lfloor>y\<rfloor> \<le> y" "y < of_int \<lfloor>y\<rfloor> + 1"
    by linarith+
  then show ?thesis
    unfolding round_half_even_def Let_def by auto
qed

lemma round_half_even_nearest:
  "\<bar>of_int (round_half_even y) - y\<bar> \<le> \<bar>of_int k - y\<bar>"
proof (cases "k = round_half_even y")
  case True
  then show ?thesis by simp
next
  case False
  then have "1 \<le> \<bar>k - round_half_even y\<bar>"
    by simp
  then have "(1 :: rat) \<le> of_int \<bar>k - round_half_even y\<bar>"
    by (metis of_int_1 of_int_le_iff)
  then have "1 \<le> \<bar>(of_int k :: rat) - of_int (round_half_even y)\<bar>"
    by simp
  with round_half_even_error [of y] show ?thesis
    by linarith
qed

lemma fl_grid:
  assumes "x \<noteq> 0"
  shows "\<bar>fl x - x\<bar> \<le>
    \<bar>of_int k * 2 powi max (floor_log2 \<bar>x\<bar> - 52) (- 1074) - x\<bar>"
proof -
  define P :: rat where "P = 2 powi max (floor_log2 \<bar>x\<bar> - 52) (- 1074)"
  define y where "y = x / P"
  have P: "0 < P"
    by (simp add: P_def)
  then have x: "x = y * P"
    by (simp add: y_def)
  have fx: "fl x = of_int (round_half_even y) * P"
    using assms by (simp add: fl_def Let_def P_def y_def)
  have "\<bar>fl x - x\<bar> = \<bar>of_int (round_half_even y) - y\<bar> * P"
    unfolding fx using P by (subst x) (simp add: abs_mult flip: left_diff_distrib)
  also have "\<dots> \<le> \<bar>of_int k - y\<bar> * P"
    using P round_half_even_nearest [of y k] by (simp add: mult_right_mono)
  also have "\<dots> = \<bar>of_int k * P - x\<bar>"
    using P by (subst x) (simp add: abs_mult flip: left_diff_distrib)
  finally show ?thesis
    by (simp only: P_def)
qed


lemma fl_nearest:
  assumes m: "\<bar>m\<bar> < 2 ^ 53" and g: "- 1074 \<le> g"
  shows "\<bar>fl x - x\<bar> \<le> \<bar>of_int m * 2 powi g - x\<bar>"
proof (cases "x = 0")
  case True
  then show ?thesis by (simp add: fl_0)
next
  case False
  define l where "l = floor_log2 \<bar>x\<bar>"
  define e where "e = max (l - 52) (- 1074)"
  define d :: rat where "d = of_int m * 2 powi g"
  have pos: "0 < \<bar>x\<bar>"
    using False by simp
  have grid: "\<bar>fl x - x\<bar> \<le> \<bar>of_int k * 2 powi e - x\<bar>" for k
    using fl_grid [OF False, of k] by (simp only: e_def l_def)
  show ?thesis
  proof (cases "e \<le> g")
    case True
    have "d = of_int m * 2 powi (g - e) * 2 powi e"
      by (simp add: d_def mult.assoc flip: power_int_add)
    also have "\<dots> = of_int (m * 2 ^ nat (g - e)) * 2 powi e"
      using True by (simp add: power_int_nonneg_exp)
    finally have "d = of_int (m * 2 ^ nat (g - e)) * 2 powi e" .
    with grid [of "m * 2 ^ nat (g - e)"] show ?thesis
      by (simp only: d_def)
  next
    case False
    with g have e: "e = l - 52" and ge: "g + 53 \<le> l"
      by (simp_all add: e_def max_def split: if_splits)
    have "of_int \<bar>m\<bar> < (2 :: rat) ^ 53"
      using m by (metis of_int_less_iff of_int_numeral of_int_power)
    then have "\<bar>d\<bar> < 2 ^ 53 * 2 powi g"
      by (simp add: d_def abs_mult mult_strict_right_mono)
    also have "\<dots> = 2 powi (g + 53)"
      by (simp add: power_int_add)
    also have "\<dots> \<le> 2 powi l"
      using ge by (intro power_int_increasing) simp_all
    finally have dl: "\<bar>d\<bar> < 2 powi l" .
    have lx: "2 powi l \<le> \<bar>x\<bar>"
      unfolding l_def by (rule floor_log2_le [OF pos])
    have p: "(2 :: rat) powi l = of_int (2 ^ 52) * 2 powi e"
      by (simp add: e power_int_diff)
    show ?thesis
    proof (cases "0 < x")
      case True
      from grid [of "2 ^ 52"] have "\<bar>fl x - x\<bar> \<le> \<bar>2 powi l - x\<bar>"
        by (simp only: p)
      also have "\<dots> \<le> \<bar>d - x\<bar>"
        using True dl lx by linarith
      finally show ?thesis
        by (simp only: d_def)
    next
      case False
      have "- ((2 :: rat) powi l) = of_int (- (2 ^ 52)) * 2 powi e"
        by (simp add: e power_int_diff)
      with grid [of "- (2 ^ 52)"] have "\<bar>fl x - x\<bar> \<le> \<bar>- (2 powi l) - x\<bar>"
        by (simp only:)
      also have "\<dots> \<le> \<bar>d - x\<bar>"
        using False dl lx by linarith
      finally show ?thesis
        by (simp only: d_def)
    qed
  qed
qed

lemma fl_double: "\<exists>m e. fl x = of_int m * 2 powi e \<and> \<bar>m\<bar> \<le> 2 ^ 53 \<and> - 1074 \<le> e"
proof (cases "x = 0")
  case True
  then show ?thesis
    by (intro exI [of _ 0] exI [of _ "- 1074"]) (simp add: fl_0)
next
  case False
  define l where "l = floor_log2 \<bar>x\<bar>"
  define e where "e = max (l - 52) (- 1074)"
  define y where "y = x / 2 powi e"
  have pos: "0 < \<bar>x\<bar>"
    using False by simp
  have "\<bar>x\<bar> < 2 powi (l + 1)"
    unfolding l_def by (rule floor_log2_gt [OF pos])
  also have "\<dots> \<le> 2 powi (e + 53)"
    by (intro power_int_increasing) (simp_all add: e_def)
  also have "\<dots> = 2 ^ 53 * 2 powi e"
    by (simp add: power_int_add)
  finally have "\<bar>y\<bar> < 2 ^ 53"
    by (simp add: y_def abs_divide pos_divide_less_eq)
  with round_half_even_error [of y] have "\<bar>of_int (round_half_even y) :: rat\<bar> < 2 ^ 53 + 1"
    by linarith
  then have "of_int \<bar>round_half_even y\<bar> < (of_int (2 ^ 53 + 1) :: rat)"
    by simp
  then have "\<bar>round_half_even y\<bar> < 2 ^ 53 + 1"
    by (simp only: of_int_less_iff)
  then have "\<bar>round_half_even y\<bar> \<le> 2 ^ 53"
    by simp
  moreover have "fl x = of_int (round_half_even y) * 2 powi e"
    using False by (simp add: fl_def Let_def y_def e_def l_def)
  moreover have "- 1074 \<le> e"
    by (simp add: e_def)
  ultimately show ?thesis
    by blast
qed

subsection \<open>Running the executed text\<close>

lemmas src_defs = src_pass_def src_copy_def src_defaultdict_def src_del_def src_m_setdefault_def
  src_m_defaultdict_def src_m_not_in_def src_m_in_else_def src_m_get_def src_m_try_def nl_def

lemma exec_src_pass: "exec_src src_pass s = Inr s"
  by (simp add: exec_src_def)

lemma exec_src_env_False: "exec_src ''exists = False'' s = Inr (s\<lparr>var_exists := Some False\<rparr>)"
  by (simp add: exec_src_def src_defs)

lemma exec_src_env_True: "exec_src ''exists = True'' s = Inr (s\<lparr>var_exists := Some True\<rparr>)"
  by (simp add: exec_src_def src_defs)

lemma exec_src_copy: "exec_src src_copy s = exec_copy s"
  by (simp add: exec_src_def src_defs)

lemma exec_src_defaultdict: "exec_src src_defaultdict s = exec_defaultdict s"
  by (simp add: exec_src_def src_defs)

lemma exec_src_del: "exec_src src_del s = exec_del s"
  by (simp add: exec_src_def src_defs)

lemma exec_src_m_setdefault: "exec_src src_m_setdefault s = exec_m_setdefault s"
  by (simp add: exec_src_def src_defs)

lemma exec_src_m_defaultdict: "exec_src src_m_defaultdict s = exec_m_defaultdict s"
  by (simp add: exec_src_def src_defs)

lemma exec_src_m_not_in: "exec_src src_m_not_in s = exec_m_not_in s"
  by (simp add: exec_src_def src_defs)

lemma exec_src_m_in_else: "exec_src src_m_in_else s = exec_m_in_else s"
  by (simp add: exec_src_def src_defs)

lemma exec_src_m_get: "exec_src src_m_get s = exec_m_get s"
  by (simp add: exec_src_def src_defs)

lemma exec_src_m_try: "exec_src src_m_try s = exec_m_try s"
  by (simp add: exec_src_def src_defs)

lemmas dict_defs = alloc_def inner_setitem_def d_getitem_def d_setitem_def d_delitem_def
  d_store_nested_def d_set_fresh_def

lemma absent_setdefault:
  "var_d s = Some m \<Longrightarrow> m k1 = None \<Longrightarrow> exec_m_setdefault s = Inr (ins_fresh m s)"
  by (simp add: exec_m_setdefault_def ins_fresh_def dict_defs)

lemma absent_defaultdict:
  "var_d s = Some m \<Longrightarrow> m k1 = None \<Longrightarrow> d_kind s = DefaultDict \<Longrightarrow>
   exec_m_defaultdict s = Inr (ins_fresh m s)"
  by (simp add: exec_m_defaultdict_def ins_fresh_def dict_defs)

lemma absent_not_in:
  "var_d s = Some m \<Longrightarrow> m k1 = None \<Longrightarrow> exec_m_not_in s = Inr (ins_fresh m s)"
  by (simp add: exec_m_not_in_def ins_fresh_def dict_defs)

lemma absent_in_else:
  "var_d s = Some m \<Longrightarrow> m k1 = None \<Longrightarrow> exec_m_in_else s = Inr (ins_fresh m s)"
  by (simp add: exec_m_in_else_def ins_fresh_def dict_defs)

lemma absent_get:
  "var_d s = Some m \<Longrightarrow> m k1 = None \<Longrightarrow> exec_m_get s = Inr (ins_fresh m s)"
  by (simp add: exec_m_get_def ins_fresh_def dict_defs)

lemma absent_try:
  "var_d s = Some m \<Longrightarrow> m k1 = None \<Longrightarrow> exec_m_try s = Inr (ins_fresh m s)"
  by (cases "d_kind s") (simp_all add: exec_m_try_def ins_fresh_def dict_defs)

lemma present_setdefault:
  "var_d s = Some m \<Longrightarrow> m k1 = Some a \<Longrightarrow>
   exec_m_setdefault s = Inr (inner_setitem a k2 v (snd (alloc Map.empty s)))"
  by (simp add: exec_m_setdefault_def dict_defs)

lemma present_defaultdict:
  "var_d s = Some m \<Longrightarrow> m k1 = Some a \<Longrightarrow> exec_m_defaultdict s = Inr (inner_setitem a k2 v s)"
  by (simp add: exec_m_defaultdict_def d_store_nested_def d_getitem_def)

lemma present_not_in:
  "var_d s = Some m \<Longrightarrow> m k1 = Some a \<Longrightarrow> exec_m_not_in s = Inr (inner_setitem a k2 v s)"
  by (simp add: exec_m_not_in_def d_store_nested_def d_getitem_def)

lemma present_in_else:
  "var_d s = Some m \<Longrightarrow> m k1 = Some a \<Longrightarrow> exec_m_in_else s = Inr (inner_setitem a k2 v s)"
  by (simp add: exec_m_in_else_def d_store_nested_def d_getitem_def)

lemma present_get:
  "var_d s = Some m \<Longrightarrow> m k1 = Some a \<Longrightarrow> exec_m_get s = Inr (inner_setitem a k2 v s)"
  by (simp add: exec_m_get_def)

lemma present_try:
  "var_d s = Some m \<Longrightarrow> m k1 = Some a \<Longrightarrow> exec_m_try s = Inr (inner_setitem a k2 v s)"
  by (simp add: exec_m_try_def d_store_nested_def d_getitem_def)

lemma measured_absent:
  assumes "me \<in> measured_srcs" and "var_d s = Some m" and "m k1 = None"
    and "me = src_m_defaultdict \<longrightarrow> d_kind s = DefaultDict"
  shows "exec_src me s = Inr (ins_fresh m s)"
  using assms unfolding measured_srcs_def
  by (auto simp: exec_src_m_setdefault exec_src_m_defaultdict exec_src_m_not_in
      exec_src_m_in_else exec_src_m_get exec_src_m_try absent_setdefault absent_defaultdict
      absent_not_in absent_in_else absent_get absent_try)

lemma src_m_setdefault_neq:
  "src_m_defaultdict \<noteq> src_m_setdefault" "src_m_not_in \<noteq> src_m_setdefault"
  "src_m_in_else \<noteq> src_m_setdefault" "src_m_get \<noteq> src_m_setdefault"
  "src_m_try \<noteq> src_m_setdefault"
  by (simp_all add: src_defs)

lemma measured_present:
  assumes "me \<in> measured_srcs" and "var_d s = Some m" and "m k1 = Some a"
  shows "exec_src me s = Inr (store_present me a s)"
  using assms unfolding measured_srcs_def store_present_def
  by (auto simp: exec_src_m_setdefault exec_src_m_defaultdict exec_src_m_not_in
      exec_src_m_in_else exec_src_m_get exec_src_m_try present_setdefault present_defaultdict
      present_not_in present_in_else present_get present_try src_m_setdefault_neq)

lemma run_iters_inv:
  assumes step: "\<And>s. I s \<Longrightarrow>
      \<exists>s1 s3. exec_src ie s = Inr s1 \<and> ticks s1 = ticks s \<and>
        exec_src me (s1\<lparr>ticks := Suc (ticks s1)\<rparr>) = Inr s3 \<and> ticks s3 = Suc (ticks s) \<and>
        I (s3\<lparr>ticks := Suc (ticks s3)\<rparr>)"
    and I0: "I s"
  shows "\<exists>s'. run_iters clock ie me n seconds s =
           Inr (acc_seconds clock n (ticks s) seconds, s') \<and>
         I s' \<and> ticks s' = ticks s + 2 * n"
  using I0
proof (induction n arbitrary: s seconds)
  case 0
  then show ?case by simp
next
  case (Suc n)
  from step [OF Suc.prems] obtain s1 s3 where
    e1: "exec_src ie s = Inr s1" and t1: "ticks s1 = ticks s" and
    e3: "exec_src me (s1\<lparr>ticks := Suc (ticks s1)\<rparr>) = Inr s3" and t3: "ticks s3 = Suc (ticks s)" and
    I4: "I (s3\<lparr>ticks := Suc (ticks s3)\<rparr>)"
    by blast
  let ?s4 = "s3\<lparr>ticks := Suc (ticks s3)\<rparr>"
  let ?sec = "fl (seconds + fl (fl (clock (ticks s3)) - fl (clock (ticks s1))))"
  from Suc.IH [OF I4, of ?sec] obtain s' where
    r: "run_iters clock ie me n ?sec ?s4 = Inr (acc_seconds clock n (ticks ?s4) ?sec, s')"
    and I': "I s'" and t': "ticks s' = ticks ?s4 + 2 * n"
    by blast
  have run: "run_iters clock ie me (Suc n) seconds s = run_iters clock ie me n ?sec ?s4"
    by (simp add: e1 e3 time_time_def)
  have acc: "acc_seconds clock (Suc n) (ticks s) seconds = acc_seconds clock n (ticks ?s4) ?sec"
    by (simp add: t1 t3)
  have "run_iters clock ie me (Suc n) seconds s =
      Inr (acc_seconds clock (Suc n) (ticks s) seconds, s')"
    by (simp only: run r acc)
  moreover have "ticks s' = ticks s + 2 * Suc n"
    using t' t3 by simp
  ultimately show ?case
    using I' by blast
qed

subsection \<open>The loop invariant of a test\<close>

lemma frame_refl: "frame b s s"
  by (simp add: frame_def)

lemma frame_trans: "frame b s s' \<Longrightarrow> frame b s' s'' \<Longrightarrow> frame b s s''"
  unfolding frame_def by (elim conjE disjE) auto

lemma loop_inv_step_absent:
  assumes me: "me \<in> measured_srcs" and kind: "me = src_m_defaultdict \<longrightarrow> d_kind s0 = DefaultDict"
    and b: "b < next_addr s0" and inv: "loop_inv b False s0 s"
  shows "\<exists>s1 s3. exec_src src_del s = Inr s1 \<and> ticks s1 = ticks s \<and>
        exec_src me (s1\<lparr>ticks := Suc (ticks s1)\<rparr>) = Inr s3 \<and> ticks s3 = Suc (ticks s) \<and>
        loop_inv b False s0 (s3\<lparr>ticks := Suc (ticks s3)\<rparr>)"
proof -
  from inv obtain m a where
    fr: "frame b s0 s" and o: "out s = out s0" and ex: "var_exists s = Some False" and
    dk: "d_kind s = d_kind s0" and tk: "ticks s0 \<le> ticks s" and
    d: "var_d s = Some m" and mk: "m k1 = Some a" and a: "a < next_addr s" and
    others: "\<forall>k. k \<noteq> k1 \<longrightarrow> m k = var_d1 s0 k" and hb: "heap s b = heap s0 b"
    unfolding loop_inv_def by auto
  let ?s1 = "s\<lparr>var_d := Some (m(k1 := None))\<rparr>"
  let ?s2 = "?s1\<lparr>ticks := Suc (ticks ?s1)\<rparr>"
  let ?s3 = "ins_fresh (m(k1 := None)) ?s2"
  have e1: "exec_src src_del s = Inr ?s1"
    by (simp add: exec_src_del exec_del_def d_delitem_def ex d mk)
  have e3: "exec_src me ?s2 = Inr ?s3"
    using me kind by (intro measured_absent) (simp_all add: dk)
  have t3: "ticks ?s3 = Suc (ticks s)"
    by (simp add: ins_fresh_def)
  have nb: "next_addr s0 \<le> next_addr s"
    using fr by (simp add: frame_def)
  have "loop_inv b False s0 (?s3\<lparr>ticks := Suc (ticks ?s3)\<rparr>)"
    using fr o ex dk tk others hb b nb
    by (auto simp: loop_inv_def frame_def ins_fresh_def)
  with e1 e3 t3 show ?thesis
    by (intro exI [of _ ?s1] exI [of _ ?s3]) simp
qed

lemma loop_inv_step_present:
  assumes me: "me \<in> measured_srcs"
    and b: "b < next_addr s0" and inv: "loop_inv b True s0 s"
  shows "\<exists>s1 s3. exec_src src_del s = Inr s1 \<and> ticks s1 = ticks s \<and>
        exec_src me (s1\<lparr>ticks := Suc (ticks s1)\<rparr>) = Inr s3 \<and> ticks s3 = Suc (ticks s) \<and>
        loop_inv b True s0 (s3\<lparr>ticks := Suc (ticks s3)\<rparr>)"
proof -
  from inv obtain m where
    fr: "frame b s0 s" and o: "out s = out s0" and ex: "var_exists s = Some True" and
    dk: "d_kind s = d_kind s0" and tk: "ticks s0 \<le> ticks s" and
    d: "var_d s = Some m" and mk: "m k1 = Some b" and
    others: "\<forall>k. k \<noteq> k1 \<longrightarrow> m k = var_d1 s0 k"
    unfolding loop_inv_def by auto
  let ?s2 = "s\<lparr>ticks := Suc (ticks s)\<rparr>"
  let ?s3 = "store_present me b ?s2"
  have e1: "exec_src src_del s = Inr s"
    by (simp add: exec_src_del exec_del_def ex)
  have e3: "exec_src me ?s2 = Inr ?s3"
    using me by (intro measured_present [where m = m]) (simp_all add: d mk)
  have t3: "ticks ?s3 = Suc (ticks s)"
    by (simp add: store_present_def inner_setitem_def alloc_def)
  have nb: "next_addr s0 \<le> next_addr s"
    using fr by (simp add: frame_def)
  have hb: "heap s b = heap s0 b \<or> heap s b = (heap s0 b)(k2 \<mapsto> v)"
    using fr by (simp add: frame_def)
  have "loop_inv b True s0 (?s3\<lparr>ticks := Suc (ticks ?s3)\<rparr>)"
    using fr o ex dk tk others hb b nb d mk
    by (auto simp: loop_inv_def frame_def store_present_def inner_setitem_def alloc_def)
  with e1 e3 t3 show ?thesis
    by (intro exI [of _ s] exI [of _ ?s3]) simp
qed

subsection \<open>The state the module's top level leaves\<close>

lemma build_d1_Suc: "build_d1 (Suc n) s = d1_step n (build_d1 n s)"
  by (simp add: build_d1_def)

lemma build_d1_0: "build_d1 0 s = s"
  by (simp add: build_d1_def)

lemma build_d1_next_addr: "next_addr (build_d1 n s) = next_addr s + n"
  by (induction n) (simp_all add: build_d1_0 build_d1_Suc d1_step_def alloc_def)

lemma build_d1_heap: "heap (build_d1 n empty_state) = (\<lambda>_. Map.empty)"
  by (induction n) (auto simp: build_d1_0 build_d1_Suc d1_step_def alloc_def empty_state_def)

lemma build_d1_others:
  "var_d (build_d1 n s) = var_d s \<and> d_kind (build_d1 n s) = d_kind s \<and>
   var_exists (build_d1 n s) = var_exists s \<and> ticks (build_d1 n s) = ticks s \<and>
   out (build_d1 n s) = out s"
  by (induction n) (simp_all add: build_d1_0 build_d1_Suc d1_step_def alloc_def)

lemma build_d1_key:
  "var_d1 (build_d1 n empty_state) k = Some a \<Longrightarrow> a < n \<and> k = ''k'' @ str_nat a"
proof (induction n)
  case 0
  then show ?case by (simp add: build_d1_0 empty_state_def)
next
  case (Suc n)
  have na: "next_addr (build_d1 n empty_state) = n"
    by (simp add: build_d1_next_addr empty_state_def)
  show ?case
  proof (cases "k = ''k'' @ str_nat n")
    case True
    with Suc.prems na show ?thesis
      by (simp add: build_d1_Suc d1_step_def alloc_def)
  next
    case False
    with Suc.prems have "var_d1 (build_d1 n empty_state) k = Some a"
      by (simp add: build_d1_Suc d1_step_def alloc_def)
    with Suc.IH show ?thesis by auto
  qed
qed

lemma build_d1_dom:
  "i < n \<Longrightarrow> var_d1 (build_d1 n empty_state) (''k'' @ str_nat i) \<noteq> None"
  by (induction n) (auto simp: build_d1_0 build_d1_Suc d1_step_def alloc_def less_Suc_eq)

lemma k1_key: "k1 = ''k'' @ str_nat 1"
  by (simp add: k1_def str_nat.simps digit_char_def)

lemma initial_k1: "\<exists>b. var_d1 initial k1 = Some b \<and> b < next_addr initial"
proof -
  have "var_d1 initial k1 \<noteq> None"
    unfolding initial_def k1_key by (rule build_d1_dom) simp
  then obtain b where b: "var_d1 initial k1 = Some b" by auto
  then have "b < 10 ^ 6"
    unfolding initial_def using build_d1_key by blast
  then show ?thesis
    using b by (simp add: initial_def build_d1_next_addr empty_state_def)
qed

lemma initial_fields:
  "var_d initial = None" "var_exists initial = None" "ticks initial = 0" "out initial = []"
  "next_addr initial = 10 ^ 6" "heap initial = (\<lambda>_. Map.empty)"
  by (simp_all add: initial_def build_d1_others build_d1_next_addr build_d1_heap)
    (simp_all add: empty_state_def)

subsection \<open>One test\<close>

lemma tests_benchmark: "t \<in> set tests \<Longrightarrow> benchmark_test t"
  by (auto simp: tests_def benchmark_test_def measured_srcs_def) (simp_all add: src_defs)

lemma tests_rounds: "t \<in> set tests \<Longrightarrow> rounds t = 10 ^ 6"
  by (auto simp: tests_def rounds_def or_int_def defaults_repeat_def)

lemma src_defaultdict_neq_copy: "src_defaultdict \<noteq> src_copy"
  by (simp add: src_defs)

lemma exec_init_once:
  assumes "benchmark_test t"
  shows "exec_src (or_str (t_init_once t) defaults_init_once) s = Inr (after_init_once t s)"
proof -
  have ne: "src_copy \<noteq> []" "src_defaultdict \<noteq> []" "src_defaultdict \<noteq> src_copy"
    by (simp_all add: src_defs)
  from assms have "t_init_once t = Some src_copy \<or> t_init_once t = Some src_defaultdict"
    by (auto simp: benchmark_test_def)
  then show ?thesis
    by (auto simp: or_str_def ne exec_src_copy exec_src_defaultdict exec_copy_def
        exec_defaultdict_def after_init_once_def)
qed

lemma init_each_del:
  assumes "benchmark_test t"
  shows "or_str (t_init_each t) defaults_init_each = src_del"
proof -
  have "src_del \<noteq> []" by (simp add: src_defs)
  with assms show ?thesis by (simp add: benchmark_test_def or_str_def)
qed

lemma loop_inv_start:
  assumes "var_exists s = Some e" and "var_d1 s k1 = Some b" and "b < next_addr s"
  shows "loop_inv b e (after_init_once t s) (after_init_once t s)"
  using assms by (auto simp: loop_inv_def frame_refl after_init_once_def)

lemma run_iters_loop_inv:
  assumes bt: "benchmark_test t" and ex: "var_exists s = Some e"
    and b: "var_d1 s k1 = Some b" and bn: "b < next_addr s"
  shows "\<exists>s'. run_iters clock src_del (t_measure t) n seconds (after_init_once t s) =
           Inr (acc_seconds clock n (ticks s) seconds, s') \<and>
         loop_inv b e (after_init_once t s) s' \<and> ticks s' = ticks s + 2 * n"
proof -
  let ?s0 = "after_init_once t s"
  have me: "t_measure t \<in> measured_srcs"
    using bt by (simp add: benchmark_test_def)
  have kind: "t_measure t = src_m_defaultdict \<longrightarrow> d_kind ?s0 = DefaultDict"
    using bt by (auto simp: benchmark_test_def after_init_once_def src_defaultdict_neq_copy)
  have bn0: "b < next_addr ?s0"
    using bn by (simp add: after_init_once_def)
  have step: "\<exists>s1 s3. exec_src src_del x = Inr s1 \<and> ticks s1 = ticks x \<and>
        exec_src (t_measure t) (s1\<lparr>ticks := Suc (ticks s1)\<rparr>) = Inr s3 \<and>
        ticks s3 = Suc (ticks x) \<and> loop_inv b e ?s0 (s3\<lparr>ticks := Suc (ticks s3)\<rparr>)"
    if "loop_inv b e ?s0 x" for x
  proof (cases e)
    case True
    with that have "loop_inv b True ?s0 x" by simp
    from loop_inv_step_present [OF me bn0 this] show ?thesis
      using True by simp
  next
    case False
    with that have "loop_inv b False ?s0 x" by simp
    from loop_inv_step_absent [OF me kind bn0 this] show ?thesis
      using False by simp
  qed
  have t0: "ticks ?s0 = ticks s"
    by (simp add: after_init_once_def)
  from run_iters_inv [where I = "loop_inv b e ?s0", OF step loop_inv_start [OF ex b bn],
      of clock n seconds]
  show ?thesis
    by (simp add: t0)
qed

lemma run_test_spec:
  assumes bt: "benchmark_test t" and ex: "var_exists s = Some e"
    and b: "var_d1 s k1 = Some b" and bn: "b < next_addr s"
  shows "\<exists>s'. run_test clock t s = Inr (test_seconds clock (rounds t) (ticks s), s') \<and>
         loop_inv b e (after_init_once t s) s' \<and> ticks s' = ticks s + 2 * rounds t"
  using run_iters_loop_inv [OF bt ex b bn, of clock "rounds t" 0]
  by (simp add: run_test_def exec_init_once [OF bt] init_each_del [OF bt] rounds_def
      test_seconds_def)

subsection \<open>The tests of one condition\<close>

lemma new_base_Cons:
  "new_base (case base of None \<Rightarrow> Some x | Some y \<Rightarrow> Some y) rs = new_base base ((x, n) # rs)"
  by (simp add: new_base_def split: option.split)

lemma loop_inv_frame:
  assumes "loop_inv b e (after_init_once t s) s'"
  shows "frame b s s' \<and> out s' = out s \<and> var_exists s' = Some e"
  using assms by (simp add: loop_inv_def frame_def after_init_once_def)

lemma loop_inv_heap_b:
  assumes "loop_inv b e (after_init_once t s) s'"
  shows "(e \<and> ticks s < ticks s' \<longrightarrow> heap s' b = (heap s b)(k2 \<mapsto> v)) \<and>
    (\<not> e \<longrightarrow> heap s' b = heap s b)"
  using assms by (auto simp: loop_inv_def after_init_once_def)

lemma frame_heap_b:
  assumes "frame b s s'"
  shows "heap s' b = heap s b \<or> heap s' b = (heap s b)(k2 \<mapsto> v)"
  using assms by (simp add: frame_def)

lemma run_tests_spec:
  assumes "\<forall>t\<in>set ts. benchmark_test t" and "var_exists s = Some e"
    and "var_d1 s k1 = Some b" and "b < next_addr s"
  shows "\<exists>s'. run_tests clock ts results base s =
           Inr (results @ expected_results clock ts (ticks s),
                new_base base (expected_results clock ts (ticks s)), s') \<and>
         frame b s s' \<and> out s' = out s \<and> var_exists s' = Some e \<and>
         ticks s' = ticks s + 2 * sum_list (map rounds ts) \<and>
         (e \<and> (\<exists>t\<in>set ts. 0 < rounds t) \<longrightarrow> heap s' b = (heap s b)(k2 \<mapsto> v)) \<and>
         (\<not> e \<longrightarrow> heap s' b = heap s b)"
  using assms
proof (induction ts arbitrary: results base s)
  case Nil
  then show ?case
    by (simp add: new_base_def frame_refl split: option.split)
next
  case (Cons t ts)
  from Cons.prems have bt: "benchmark_test t" by simp
  from run_test_spec [OF bt Cons.prems(2,3,4), of clock] obtain s1 where
    r1: "run_test clock t s = Inr (test_seconds clock (rounds t) (ticks s), s1)" and
    li: "loop_inv b e (after_init_once t s) s1" and t1: "ticks s1 = ticks s + 2 * rounds t"
    by blast
  from loop_inv_frame [OF li] have f1: "frame b s s1" and o1: "out s1 = out s" and
    e1: "var_exists s1 = Some e"
    by simp_all
  have b1: "var_d1 s1 k1 = Some b" "b < next_addr s1"
    using f1 Cons.prems(3,4) by (simp_all add: frame_def)
  let ?sec = "test_seconds clock (rounds t) (ticks s)"
  let ?base = "case base of None \<Rightarrow> Some ?sec | Some x \<Rightarrow> Some x"
  from Cons.prems have "\<forall>t\<in>set ts. benchmark_test t" by simp
  from Cons.IH [OF this e1 b1, of "results @ [(?sec, t_name t)]" ?base] obtain s' where
    r: "run_tests clock ts (results @ [(?sec, t_name t)]) ?base s1 =
          Inr ((results @ [(?sec, t_name t)]) @ expected_results clock ts (ticks s1),
               new_base ?base (expected_results clock ts (ticks s1)), s')" and
    f: "frame b s1 s'" and o: "out s' = out s1" and e: "var_exists s' = Some e" and
    t: "ticks s' = ticks s1 + 2 * sum_list (map rounds ts)" and
    hT: "e \<and> (\<exists>t\<in>set ts. 0 < rounds t) \<longrightarrow> heap s' b = (heap s1 b)(k2 \<mapsto> v)" and
    hF: "\<not> e \<longrightarrow> heap s' b = heap s1 b"
    by blast
  from loop_inv_heap_b [OF li] t1 have
    h1T: "e \<and> 0 < rounds t \<longrightarrow> heap s1 b = (heap s b)(k2 \<mapsto> v)" and
    h1F: "\<not> e \<longrightarrow> heap s1 b = heap s b"
    by auto
  have "heap s' b = (heap s b)(k2 \<mapsto> v)" if "e" and "\<exists>t\<in>set (t # ts). 0 < rounds t"
  proof (cases "0 < rounds t")
    case True
    with h1T that have "heap s1 b = (heap s b)(k2 \<mapsto> v)" by simp
    with frame_heap_b [OF f] show ?thesis by auto
  next
    case False
    with that hT have "heap s' b = (heap s1 b)(k2 \<mapsto> v)" by auto
    with frame_heap_b [OF f1] show ?thesis by auto
  qed
  moreover have "heap s' b = heap s b" if "\<not> e"
    using that hF h1F by simp
  moreover
  have "run_tests clock (t # ts) results base s =
      Inr (results @ expected_results clock (t # ts) (ticks s),
           new_base base (expected_results clock (t # ts) (ticks s)), s')"
    using r by (simp add: r1 new_base_Cons t1)
  moreover have "frame b s s'"
    using f1 f by (rule frame_trans)
  moreover have "ticks s' = ticks s + 2 * sum_list (map rounds (t # ts))"
    using t t1 by simp
  moreover have "out s' = out s"
    using o o1 by simp
  ultimately show ?case
    using e by (intro exI [of _ s']) simp
qed

lemma print_rows_ok:
  "b \<noteq> 0 \<Longrightarrow> print_rows (Some b) rows s = Inr (s\<lparr>out := out s @ rows_text b rows\<rparr>)"
  by (induction rows arbitrary: s) (auto simp: rows_text_def py_print_def)

lemma print_rows_zero:
  "rows \<noteq> [] \<Longrightarrow> print_rows (Some 0) rows s = Inl (ZeroDivisionError, s)"
  by (cases rows) auto

lemma start_env_spec:
  assumes "env \<in> set envs"
  shows "start_env env s =
    Inr (s\<lparr>out := out s @ nl @ env @ CHR '':'' # nl,
          var_exists := Some (env = ''exists = True'')\<rparr>)"
  using assms
  by (auto simp: envs_def start_env_def exec_src_env_False exec_src_env_True py_print_def)

lemma expected_tests:
  "expected_results clock tests t0 =
     [(test_seconds clock 1000000 t0, ''setdefault''),
      (test_seconds clock 1000000 (t0 + 2000000), ''defaultdict''),
      (test_seconds clock 1000000 (t0 + 4000000), ''not in''),
      (test_seconds clock 1000000 (t0 + 6000000), ''in else''),
      (test_seconds clock 1000000 (t0 + 8000000), ''get''),
      (test_seconds clock 1000000 (t0 + 10000000), ''try'')]"
  by (simp add: tests_def rounds_def or_int_def defaults_repeat_def add.commute)

lemma run_env_spec:
  assumes env: "env \<in> set envs" and b: "var_d1 s k1 = Some b" and bn: "b < next_addr s"
  shows "\<exists>s2. frame b s s2 \<and> ticks s2 = ticks s + 12000000 \<and>
      out s2 = out s @ nl @ env @ '':'' @ nl @ header @ nl \<and>
      var_exists s2 = Some (env = ''exists = True'') \<and>
      heap s2 b = (if env = ''exists = True'' then (heap s b)(k2 \<mapsto> v) else heap s b) \<and>
      run_env clock env s =
        (if test_seconds clock 1000000 (ticks s) = 0 then Inl (ZeroDivisionError, s2)
         else Inr (s2\<lparr>out := out s2 @ rows_text (test_seconds clock 1000000 (ticks s))
                     (sort (expected_results clock tests (ticks s)))\<rparr>))"
proof -
  let ?e = "env = ''exists = True''"
  let ?s1 = "s\<lparr>out := out s @ nl @ env @ CHR '':'' # nl, var_exists := Some ?e\<rparr>"
  let ?rs = "expected_results clock tests (ticks s)"
  let ?base = "test_seconds clock 1000000 (ticks s)"
  have bt: "\<forall>t\<in>set tests. benchmark_test t"
    by (simp add: tests_benchmark)
  have "var_exists ?s1 = Some ?e" "var_d1 ?s1 k1 = Some b" "b < next_addr ?s1"
    using b bn by simp_all
  from run_tests_spec [OF bt this, of clock "[]" None] have
    "\<exists>s'. run_tests clock tests [] None ?s1 = Inr (?rs, new_base None ?rs, s') \<and>
       frame b ?s1 s' \<and> out s' = out ?s1 \<and> var_exists s' = Some ?e \<and>
       ticks s' = ticks ?s1 + 2 * sum_list (map rounds tests) \<and>
       (?e \<and> (\<exists>t\<in>set tests. 0 < rounds t) \<longrightarrow> heap s' b = (heap ?s1 b)(k2 \<mapsto> v)) \<and>
       (\<not> ?e \<longrightarrow> heap s' b = heap ?s1 b)"
    by simp
  then obtain s' where
    r: "run_tests clock tests [] None ?s1 = Inr (?rs, new_base None ?rs, s')" and
    f: "frame b ?s1 s'" and o: "out s' = out ?s1" and e: "var_exists s' = Some ?e" and
    t: "ticks s' = ticks ?s1 + 2 * sum_list (map rounds tests)" and
    hT: "?e \<and> (\<exists>t\<in>set tests. 0 < rounds t) \<longrightarrow> heap s' b = (heap ?s1 b)(k2 \<mapsto> v)" and
    hF: "\<not> ?e \<longrightarrow> heap s' b = heap ?s1 b"
    by blast
  have "\<exists>t\<in>set tests. 0 < rounds t"
    by (simp add: tests_def rounds_def or_int_def defaults_repeat_def)
  with hT hF have hb: "heap s' b = (if ?e then (heap s b)(k2 \<mapsto> v) else heap s b)"
    by simp
  have nb: "new_base None ?rs = Some ?base"
    by (simp add: expected_tests new_base_def)
  have "length ?rs = 6"
    by (simp add: expected_tests)
  then have "length (sort ?rs) = 6"
    by (simp only: length_sort)
  then have ne: "sort ?rs \<noteq> []"
    by (metis length_0_conv zero_neq_numeral)
  have tk: "2 * sum_list (map rounds tests) = 12000000"
    by (simp add: tests_def rounds_def or_int_def defaults_repeat_def)
  let ?s2 = "py_print header s'"
  have run: "run_env clock env s = print_rows (Some ?base) (sort ?rs) ?s2"
    by (simp add: run_env_def start_env_spec [OF env] r nb print_table_def)
  have "frame b s ?s2"
    using f by (simp add: frame_def py_print_def)
  moreover have "ticks ?s2 = ticks s + 12000000"
    using t tk by (simp add: py_print_def)
  moreover have "out ?s2 = out s @ nl @ env @ '':'' @ nl @ header @ nl"
    using o by (simp add: py_print_def)
  moreover have "var_exists ?s2 = Some ?e"
    using e by (simp add: py_print_def)
  moreover have "heap ?s2 b = (if ?e then (heap s b)(k2 \<mapsto> v) else heap s b)"
    using hb by (simp add: py_print_def)
  moreover have "run_env clock env s =
        (if ?base = 0 then Inl (ZeroDivisionError, ?s2)
         else Inr (?s2\<lparr>out := out ?s2 @ rows_text ?base (sort ?rs)\<rparr>))"
    unfolding run by (simp add: print_rows_ok print_rows_zero [OF ne])
  ultimately show ?thesis
    by blast
qed

subsection \<open>The whole run\<close>

lemma main_spec:
  assumes b: "var_d1 initial k1 = Some b"
  shows "\<exists>s2 s4.
     frame b initial s2 \<and> heap s2 b = heap initial b \<and>
     out s2 = nl @ ''exists = False'' @ '':'' @ nl @ header @ nl \<and>
     frame b initial s4 \<and> heap s4 b = (heap initial b)(k2 \<mapsto> v) \<and>
     out s4 = out s2 @ rows_text (test_seconds clock 1000000 0)
                (sort (expected_results clock tests 0)) @
              nl @ ''exists = True'' @ '':'' @ nl @ header @ nl \<and>
     main clock =
       (if test_seconds clock 1000000 0 = 0 then Inl (ZeroDivisionError, s2)
        else if test_seconds clock 1000000 12000000 = 0 then Inl (ZeroDivisionError, s4)
        else Inr (s4\<lparr>out := out s4 @ rows_text (test_seconds clock 1000000 12000000)
                      (sort (expected_results clock tests 12000000))\<rparr>)) \<and>
     run_env clock ''exists = False'' initial =
       (if test_seconds clock 1000000 0 = 0 then Inl (ZeroDivisionError, s2)
        else Inr (s2\<lparr>out := out s2 @ rows_text (test_seconds clock 1000000 0)
                      (sort (expected_results clock tests 0))\<rparr>))"
proof -
  let ?B0 = "test_seconds clock 1000000 0"
  let ?R0 = "rows_text ?B0 (sort (expected_results clock tests 0))"
  from initial_k1 b have bn: "b < next_addr initial" by auto
  have e0: "''exists = False'' \<in> set envs" and e1: "''exists = True'' \<in> set envs"
    by (simp_all add: envs_def)
  from run_env_spec [OF e0 b bn, of clock] obtain s2 where
    f2: "frame b initial s2" and t2: "ticks s2 = 12000000" and
    o2: "out s2 = nl @ ''exists = False'' @ '':'' @ nl @ header @ nl" and
    h2: "heap s2 b = heap initial b" and
    r2: "run_env clock ''exists = False'' initial =
        (if ?B0 = 0 then Inl (ZeroDivisionError, s2) else Inr (s2\<lparr>out := out s2 @ ?R0\<rparr>))"
    by (auto simp: initial_fields)
  let ?s3 = "s2\<lparr>out := out s2 @ ?R0\<rparr>"
  have f3: "frame b initial ?s3"
    using f2 by (simp add: frame_def)
  have b3: "var_d1 ?s3 k1 = Some b" "b < next_addr ?s3"
    using f2 b bn by (simp_all add: frame_def)
  from run_env_spec [OF e1 b3, of clock] obtain s4 where
    f4: "frame b ?s3 s4" and
    o4: "out s4 = out ?s3 @ nl @ ''exists = True'' @ '':'' @ nl @ header @ nl" and
    h4: "heap s4 b = (heap ?s3 b)(k2 \<mapsto> v)" and
    r4: "run_env clock ''exists = True'' ?s3 =
        (if test_seconds clock 1000000 12000000 = 0 then Inl (ZeroDivisionError, s4)
         else Inr (s4\<lparr>out := out s4 @ rows_text (test_seconds clock 1000000 12000000)
                      (sort (expected_results clock tests 12000000))\<rparr>))"
    by (auto simp: t2)
  have "frame b initial s4"
    using f3 f4 by (rule frame_trans)
  moreover have "heap s4 b = (heap initial b)(k2 \<mapsto> v)"
    using h4 h2 by simp
  moreover have "out s4 = out s2 @ ?R0 @ nl @ ''exists = True'' @ '':'' @ nl @ header @ nl"
    using o4 by simp
  moreover have "main clock =
       (if ?B0 = 0 then Inl (ZeroDivisionError, s2)
        else if test_seconds clock 1000000 12000000 = 0 then Inl (ZeroDivisionError, s4)
        else Inr (s4\<lparr>out := out s4 @ rows_text (test_seconds clock 1000000 12000000)
                      (sort (expected_results clock tests 12000000))\<rparr>))"
    by (simp add: main_def envs_def r2 r4)
  ultimately show ?thesis
    using f2 h2 o2 r2 by blast
qed

lemma acc_seconds_paced:
  assumes dur: "dur j = of_nat k / 64" and k: "k \<le> 1024" and j: "j < 12"
  shows "i + n \<le> 1000000 \<Longrightarrow>
    acc_seconds (paced_clock dur) n (2000000 * j + 2 * i) (of_nat (i * k) / 64) =
      of_nat ((i + n) * k) / 64"
proof (induction n arbitrary: i)
  case 0
  then show ?case by simp
next
  case (Suc n)
  let ?c = "paced_clock dur"
  let ?t = "2000000 * j + 2 * i"
  let ?m = "1000000 * j + i"
  from Suc.prems have i: "i < 1000000"
    by simp
  have m: "?m < 12000000"
    using i j by simp
  have "?t div 2 = ?m"
    by simp
  then have e0: "?c ?t = of_nat (16 * ?m)"
    by (simp add: paced_clock_def)
  have "16 * ?m < 2 ^ 53"
    using m by simp
  then have c0: "fl (?c ?t) = of_nat (16 * ?m)"
    unfolding e0 by (rule fl_of_nat)
  have "Suc ?t div 2 = ?m" "Suc ?t div 2000000 = j"
    using i by simp_all
  then have e1: "?c (Suc ?t) = of_nat (1024 * ?m + k) / 64"
    by (simp add: paced_clock_def dur)
  have "1024 * ?m + k < 2 ^ 53"
    using m k by simp
  then have c1: "fl (?c (Suc ?t)) = of_nat (1024 * ?m + k) / 64"
    unfolding e1 by (rule fl_nat_64th)
  have e2: "fl (?c (Suc ?t)) - fl (?c ?t) = of_nat k / 64"
    unfolding c0 c1 by (simp add: add_divide_distrib)
  have "k < 2 ^ 53"
    using k by simp
  then have d: "fl (fl (?c (Suc ?t)) - fl (?c ?t)) = of_nat k / 64"
    unfolding e2 by (rule fl_nat_64th)
  have e3: "(of_nat (i * k) / 64 :: rat) + of_nat k / 64 = of_nat (Suc i * k) / 64"
    by (simp add: field_simps)
  have "Suc i * k \<le> 1000000 * 1024"
    using i k by (intro mult_mono) simp_all
  then have "Suc i * k < 2 ^ 53"
    by simp
  then have a: "fl (of_nat (i * k) / 64 + of_nat k / 64) = of_nat (Suc i * k) / 64"
    unfolding e3 by (rule fl_nat_64th)
  have "acc_seconds ?c (Suc n) ?t (of_nat (i * k) / 64) =
      acc_seconds ?c n (2000000 * j + 2 * Suc i) (of_nat (Suc i * k) / 64)"
    by (simp only: acc_seconds.simps d a) simp
  also have "\<dots> = of_nat ((Suc i + n) * k) / 64"
    using Suc.prems by (intro Suc.IH) simp
  finally show ?case
    by simp
qed

text \<open>
  The durations a paced clock is used with are multiples of \<open>1 / 64\<close> below 16 seconds, so
  that every reading, difference and sum of the run is a double.
\<close>

lemma paced_clock_seconds:
  assumes dur: "\<And>j. \<exists>k\<le>1024. dur j = of_nat k / 64" and j: "j < 12"
  shows "test_seconds (paced_clock dur) 1000000 (2000000 * j) = 1000000 * dur j"
proof -
  from dur [of j] obtain k where k: "k \<le> 1024" and d: "dur j = of_nat k / 64"
    by blast
  from acc_seconds_paced [of dur j k 0 1000000, OF d k j] d show ?thesis
    by (simp add: test_seconds_def)
qed

lemma paced_clock_results:
  assumes dur: "\<And>j. \<exists>k\<le>1024. dur j = of_nat k / 64" and i: "i < 2"
  shows "expected_results (paced_clock dur) tests (12000000 * i) =
     [(1000000 * dur (6 * i), ''setdefault''), (1000000 * dur (6 * i + 1), ''defaultdict''),
      (1000000 * dur (6 * i + 2), ''not in''), (1000000 * dur (6 * i + 3), ''in else''),
      (1000000 * dur (6 * i + 4), ''get''), (1000000 * dur (6 * i + 5), ''try'')]"
proof -
  note s = paced_clock_seconds [of dur, OF dur]
  have "12000000 * i = 2000000 * (6 * i)" "12000000 * i + 2000000 = 2000000 * (6 * i + 1)"
    "12000000 * i + 4000000 = 2000000 * (6 * i + 2)"
    "12000000 * i + 6000000 = 2000000 * (6 * i + 3)"
    "12000000 * i + 8000000 = 2000000 * (6 * i + 4)"
    "12000000 * i + 10000000 = 2000000 * (6 * i + 5)"
    by simp_all
  moreover have "6 * i < 12" "6 * i + 1 < 12" "6 * i + 2 < 12" "6 * i + 3 < 12"
    "6 * i + 4 < 12" "6 * i + 5 < 12"
    using i by simp_all
  ultimately show ?thesis
    unfolding expected_tests by (simp only: s)
qed

lemma sorted_fst_sort: "sorted (map fst (sort (rs :: (rat \<times> string) list)))"
proof -
  have "sorted (sort rs)" by simp
  then have "sorted_wrt (\<lambda>x y. fst x \<le> fst y) (sort rs)"
    by (rule sorted_wrt_mono_rel [rotated]) (auto simp: less_eq_prod_def)
  then show ?thesis
    by (simp add: sorted_wrt_map)
qed

lemma print_table_ok:
  "b \<noteq> 0 \<Longrightarrow> print_table results (Some b) s =
     Inr (s\<lparr>out := out s @ header @ nl @ rows_text b (sort results)\<rparr>)"
  by (simp add: print_table_def print_rows_ok py_print_def)

lemma loop_inv_del:
  assumes "loop_inv b False s0 s"
  shows "\<exists>m a. var_d s = Some m \<and> m k1 = Some a \<and> var_exists s = Some False \<and>
    exec_src src_del s = Inr (s\<lparr>var_d := Some (m(k1 := None))\<rparr>)"
  using assms
  by (auto simp: loop_inv_def exec_src_del exec_del_def d_delitem_def)

lemma start_env_False:
  "start_env ''exists = False'' s =
     Inr (s\<lparr>out := out s @ nl @ ''exists = False'' @ '':'' @ nl, var_exists := Some False\<rparr>)"
  by (simp add: start_env_def exec_src_env_False py_print_def)

lemma start_env_True:
  "start_env ''exists = True'' s =
     Inr (s\<lparr>out := out s @ nl @ ''exists = True'' @ '':'' @ nl, var_exists := Some True\<rparr>)"
  by (simp add: start_env_def exec_src_env_True py_print_def)

lemma tests_prefix_spec:
  assumes "var_exists s = Some e" and "var_d1 s k1 = Some b" and "b < next_addr s"
  shows "\<exists>rs base s'. run_tests clock (take j tests) [] None s = Inr (rs, base, s') \<and>
    var_exists s' = Some e \<and> var_d1 s' k1 = Some b \<and> b < next_addr s' \<and> frame b s s' \<and>
    out s' = out s"
proof -
  have "\<forall>t\<in>set (take j tests). benchmark_test t"
    using tests_benchmark by (meson in_set_takeD)
  from run_tests_spec [OF this assms, of clock "[]" None] obtain s' where
    r: "run_tests clock (take j tests) [] None s =
      Inr ([] @ expected_results clock (take j tests) (ticks s),
           new_base None (expected_results clock (take j tests) (ticks s)), s')" and
    f: "frame b s s'" and e: "var_exists s' = Some e" and o: "out s' = out s"
    by blast
  from f assms have "var_d1 s' k1 = Some b" "b < next_addr s'"
    by (simp_all add: frame_def)
  with r f e o show ?thesis by blast
qed

subsection \<open>Keys of the fixture\<close>

lemma digit_value_less: "d < 10 \<Longrightarrow> digit_value (''0123456789'' ! d) = d"
proof -
  assume "d < 10"
  then consider "d = 0" | "d = 1" | "d = 2" | "d = 3" | "d = 4" | "d = 5" | "d = 6" | "d = 7"
    | "d = 8" | "d = 9"
    by atomize_elim arith
  then show ?thesis
    by cases (simp_all add: digit_value_def)
qed

lemma digit_value_char: "digit_value (digit_char n) = n mod 10"
  unfolding digit_char_def by (rule digit_value_less) simp

lemma dec_value_str_nat: "dec_value (str_nat n) = n"
proof (induction n rule: str_nat.induct)
  case (1 n)
  show ?case
  proof (cases "n < 10")
    case True
    then show ?thesis
      by (subst str_nat.simps) (simp add: dec_value_def digit_value_char)
  next
    case False
    with 1 have "dec_value (str_nat (n div 10)) = n div 10" by simp
    with False show ?thesis
      by (subst str_nat.simps) (simp add: dec_value_def digit_value_char)
  qed
qed

lemma str_nat_inj: "str_nat m = str_nat n \<Longrightarrow> m = n"
  by (metis dec_value_str_nat)

lemma initial_k1_addr: "var_d1 initial k1 = Some 1"
proof -
  from initial_k1 obtain b where b: "var_d1 initial k1 = Some b" by blast
  then have "k1 = ''k'' @ str_nat b"
    unfolding initial_def using build_d1_key by blast
  then have "b = 1"
    unfolding k1_key using str_nat_inj by simp
  with b show ?thesis by simp
qed

lemma initial_key_iff:
  "var_d1 initial k = Some a \<longleftrightarrow> a < 1000000 \<and> k = ''k'' @ str_nat a"
proof
  assume "var_d1 initial k = Some a"
  then show "a < 1000000 \<and> k = ''k'' @ str_nat a"
    unfolding initial_def using build_d1_key by fastforce
next
  assume a: "a < 1000000 \<and> k = ''k'' @ str_nat a"
  then have "var_d1 initial k \<noteq> None"
    unfolding initial_def using build_d1_dom [of a "10 ^ 6"] by simp
  then obtain a' where a': "var_d1 initial k = Some a'" by auto
  then have "k = ''k'' @ str_nat a'"
    unfolding initial_def using build_d1_key by blast
  with a have "a' = a"
    using str_nat_inj by simp
  with a' show "var_d1 initial k = Some a" by simp
qed

lemma final_state_main:
  "\<exists>sF. final_state (main clock) = sF \<and> frame 1 initial sF \<and>
     heap sF 1 =
       (case run_env clock ''exists = False'' initial of
          Inl _ \<Rightarrow> Map.empty
        | Inr _ \<Rightarrow> [k2 \<mapsto> v])"
proof -
  from main_spec [OF initial_k1_addr, of clock] obtain s2 s4 where
    f2: "frame 1 initial s2" and h2: "heap s2 1 = heap initial 1" and
    f4: "frame 1 initial s4" and h4: "heap s4 1 = (heap initial 1)(k2 \<mapsto> v)" and
    m: "main clock =
       (if test_seconds clock 1000000 0 = 0 then Inl (ZeroDivisionError, s2)
        else if test_seconds clock 1000000 12000000 = 0 then Inl (ZeroDivisionError, s4)
        else Inr (s4\<lparr>out := out s4 @ rows_text (test_seconds clock 1000000 12000000)
                      (sort (expected_results clock tests 12000000))\<rparr>))" and
    r: "run_env clock ''exists = False'' initial =
       (if test_seconds clock 1000000 0 = 0 then Inl (ZeroDivisionError, s2)
        else Inr (s2\<lparr>out := out s2 @ rows_text (test_seconds clock 1000000 0)
                      (sort (expected_results clock tests 0))\<rparr>))"
    by blast
  have h0: "heap initial 1 = Map.empty"
    by (simp add: initial_fields)
  show ?thesis
  proof (cases "test_seconds clock 1000000 0 = 0")
    case True
    with m r f2 h2 h0 show ?thesis
      by (simp add: final_state_def)
  next
    case False
    with m r f4 h4 h0 show ?thesis
      by (auto simp: final_state_def frame_def)
  qed
qed

lemma paced_clock_base0:
  assumes "\<And>j. \<exists>k\<le>1024. dur j = of_nat k / 64"
  shows "test_seconds (paced_clock dur) 1000000 0 = 1000000 * dur 0"
  using paced_clock_seconds [of dur 0, OF assms] by simp

lemma paced_clock_base1:
  assumes "\<And>j. \<exists>k\<le>1024. dur j = of_nat k / 64"
  shows "test_seconds (paced_clock dur) 1000000 12000000 = 1000000 * dur 6"
  using paced_clock_seconds [of dur 6, OF assms] by simp

lemma dur_const: "\<exists>k\<le>1024. (1 / 64 :: rat) = of_nat k / 64"
  by (rule exI [of _ 1]) simp

lemma dur_slow_first:
  "\<exists>k\<le>1024. (if j mod 6 = 0 then 1 / 32 else 1 / 64 :: rat) = of_nat k / 64"
proof (cases "j mod 6 = 0")
  case True
  then show ?thesis by (intro exI [of _ 2]) simp
next
  case False
  then show ?thesis by (intro exI [of _ 1]) simp
qed

lemma dur_fast_first:
  "\<exists>k\<le>1024. (if j mod 6 = 0 then 1 / 64 else 1001 / 64 :: rat) = of_nat k / 64"
proof (cases "j mod 6 = 0")
  case True
  then show ?thesis by (intro exI [of _ 1]) simp
next
  case False
  then show ?thesis by (intro exI [of _ 1001]) simp
qed

lemma run_env_False_cases:
  "\<exists>s. run_env clock ''exists = False'' initial =
     (if test_seconds clock 1000000 0 = 0 then Inl (ZeroDivisionError, s) else Inr s)"
proof -
  from main_spec [OF initial_k1_addr, of clock] obtain s2 where
    "run_env clock ''exists = False'' initial =
       (if test_seconds clock 1000000 0 = 0 then Inl (ZeroDivisionError, s2)
        else Inr (s2\<lparr>out := out s2 @ rows_text (test_seconds clock 1000000 0)
                      (sort (expected_results clock tests 0))\<rparr>))"
    by blast
  then show ?thesis
    by (cases "test_seconds clock 1000000 0 = 0") auto
qed

lemma acc_seconds_still: "acc_seconds (\<lambda>n. 0) n t0 0 = 0"
  by (induction n arbitrary: t0) (simp_all add: fl_0)

lemma test_seconds_still: "test_seconds (\<lambda>n. 0) n t0 = 0"
  by (simp add: test_seconds_def acc_seconds_still)

lemma tests_nth_2:
  "tests ! 2 = \<lparr>t_name = ''not in'', t_init_once = Some src_copy, t_init_each = Some src_del,
        t_measure = src_m_not_in, t_repeat = None\<rparr>"
  by (simp add: tests_def)

lemma src_m_not_in_neq: "src_m_not_in \<noteq> src_m_defaultdict"
  by (simp add: src_defs)

lemma tests_nth_0:
  "tests ! 0 = \<lparr>t_name = ''setdefault'', t_init_once = Some src_copy, t_init_each = Some src_del,
        t_measure = src_m_setdefault, t_repeat = None\<rparr>"
  by (simp add: tests_def)

lemma run_env_False_state:
  assumes "run_env clock ''exists = False'' initial = Inr s1"
  shows "frame 1 initial s1 \<and> var_d1 s1 k1 = Some 1 \<and> 1 < next_addr s1"
proof -
  from main_spec [OF initial_k1_addr, of clock] obtain s2 where
    f2: "frame 1 initial s2" and
    r: "run_env clock ''exists = False'' initial =
       (if test_seconds clock 1000000 0 = 0 then Inl (ZeroDivisionError, s2)
        else Inr (s2\<lparr>out := out s2 @ rows_text (test_seconds clock 1000000 0)
                      (sort (expected_results clock tests 0))\<rparr>))"
    by blast
  from r assms have "s1 = s2\<lparr>out := out s2 @ rows_text (test_seconds clock 1000000 0)
                      (sort (expected_results clock tests 0))\<rparr>"
    by (simp split: if_splits)
  with f2 have "frame 1 initial s1"
    by (simp add: frame_def)
  then show ?thesis
    using initial_k1_addr by (simp add: frame_def initial_fields)
qed

lemma loop_inv_present:
  assumes "loop_inv b True s0 s"
  shows "\<exists>m. var_d s = Some m \<and> m k1 = Some b \<and> var_exists s = Some True \<and>
    exec_src src_del s = Inr s"
  using assms by (auto simp: loop_inv_def exec_src_del exec_del_def)

lemma reached_env_state:
  assumes "i < length envs" and "run_envs clock (take i envs) initial = Inr s"
  shows "var_d1 s k1 = Some 1 \<and> 1 < next_addr s \<and> ticks s = 12000000 * i"
proof -
  from assms(1) have "i = 0 \<or> i = 1"
    by (auto simp: envs_def)
  then show ?thesis
  proof
    assume "i = 0"
    with assms(2) show ?thesis
      by (simp add: initial_k1_addr initial_fields)
  next
    assume i: "i = 1"
    with assms(2) have run: "run_env clock ''exists = False'' initial = Inr s"
      by (simp add: envs_def split: sum.splits)
    from run_env_spec [of "''exists = False''" initial 1 clock] obtain s2 where
      t: "ticks s2 = ticks initial + 12000000" and
      r: "run_env clock ''exists = False'' initial =
        (if test_seconds clock 1000000 (ticks initial) = 0 then Inl (ZeroDivisionError, s2)
         else Inr (s2\<lparr>out := out s2 @ rows_text (test_seconds clock 1000000 (ticks initial))
                     (sort (expected_results clock tests (ticks initial)))\<rparr>))"
      by (auto simp: envs_def initial_k1_addr initial_fields)
    from r run t have "ticks s = 12000000"
      by (auto simp: initial_fields split: if_splits)
    with run_env_False_state [OF run] i show ?thesis
      by simp
  qed
qed

lemma env_results:
  assumes env: "env \<in> set envs" and b: "var_d1 s k1 = Some 1" and bn: "1 < next_addr s"
  shows "\<exists>s1 s2.
      start_env env s = Inr s1 \<and>
      run_tests clock tests [] None s1 =
        Inr (expected_results clock tests (ticks s), Some (test_seconds clock 1000000 (ticks s)),
             s2) \<and>
      run_env clock env s =
        print_table (expected_results clock tests (ticks s))
          (Some (test_seconds clock 1000000 (ticks s))) s2"
proof -
  let ?s1 = "s\<lparr>out := out s @ nl @ env @ CHR '':'' # nl,
    var_exists := Some (env = ''exists = True'')\<rparr>"
  let ?rs = "expected_results clock tests (ticks s)"
  have bt: "\<forall>t\<in>set tests. benchmark_test t"
    by (simp add: tests_benchmark)
  have "var_exists ?s1 = Some (env = ''exists = True'')" "var_d1 ?s1 k1 = Some 1"
    "1 < next_addr ?s1"
    using b bn by simp_all
  from run_tests_spec [OF bt this, of clock "[]" None] have
    "\<exists>s'. run_tests clock tests [] None ?s1 = Inr (?rs, new_base None ?rs, s')"
    by auto
  then obtain s2 where
    r: "run_tests clock tests [] None ?s1 = Inr (?rs, new_base None ?rs, s2)"
    by blast
  have nb: "new_base None ?rs = Some (test_seconds clock 1000000 (ticks s))"
    by (simp add: expected_tests new_base_def)
  have "run_env clock env s = print_table ?rs (Some (test_seconds clock 1000000 (ticks s))) s2"
    by (simp add: run_env_def start_env_spec [OF env] r nb)
  with r nb start_env_spec [OF env, of s] show ?thesis
    by auto
qed

lemma expected_tests_names: "map snd (expected_results clock tests t0) = map t_name tests"
  by (simp add: expected_tests) (simp add: tests_def)

lemma expected_tests_hd:
  "hd (expected_results clock tests t0) = (test_seconds clock 1000000 t0, ''setdefault'')"
  by (simp add: expected_tests)

subsection \<open>The output under a paced clock\<close>

lemma main_paced:
  assumes dur: "\<And>j. \<exists>k\<le>1024. dur j = of_nat k / 64"
    and "dur 0 \<noteq> 0" and "dur 6 \<noteq> 0"
  shows "\<exists>s. main (paced_clock dur) = Inr s \<and>
    out s = nl @ ''exists = False:'' @ nl @ header @ nl @
      rows_text (1000000 * dur 0)
        (sort [(1000000 * dur 0, ''setdefault''), (1000000 * dur 1, ''defaultdict''),
               (1000000 * dur 2, ''not in''), (1000000 * dur 3, ''in else''),
               (1000000 * dur 4, ''get''), (1000000 * dur 5, ''try'')]) @
      nl @ ''exists = True:'' @ nl @ header @ nl @
      rows_text (1000000 * dur 6)
        (sort [(1000000 * dur 6, ''setdefault''), (1000000 * dur 7, ''defaultdict''),
               (1000000 * dur 8, ''not in''), (1000000 * dur 9, ''in else''),
               (1000000 * dur 10, ''get''), (1000000 * dur 11, ''try'')])"
proof -
  let ?c = "paced_clock dur"
  have r0: "expected_results ?c tests 0 =
      [(1000000 * dur 0, ''setdefault''), (1000000 * dur 1, ''defaultdict''),
       (1000000 * dur 2, ''not in''), (1000000 * dur 3, ''in else''),
       (1000000 * dur 4, ''get''), (1000000 * dur 5, ''try'')]"
    using paced_clock_seconds [of dur 0, OF dur] paced_clock_seconds [of dur 1, OF dur]
      paced_clock_seconds [of dur 2, OF dur] paced_clock_seconds [of dur 3, OF dur]
      paced_clock_seconds [of dur 4, OF dur] paced_clock_seconds [of dur 5, OF dur]
    by (simp add: expected_tests)
  have r1: "expected_results ?c tests 12000000 =
      [(1000000 * dur 6, ''setdefault''), (1000000 * dur 7, ''defaultdict''),
       (1000000 * dur 8, ''not in''), (1000000 * dur 9, ''in else''),
       (1000000 * dur 10, ''get''), (1000000 * dur 11, ''try'')]"
    using paced_clock_seconds [of dur 6, OF dur] paced_clock_seconds [of dur 7, OF dur]
      paced_clock_seconds [of dur 8, OF dur] paced_clock_seconds [of dur 9, OF dur]
      paced_clock_seconds [of dur 10, OF dur] paced_clock_seconds [of dur 11, OF dur]
    by (simp add: expected_tests)
  from main_spec [OF initial_k1_addr, of ?c] obtain s2 s4 where
    o2: "out s2 = nl @ ''exists = False'' @ '':'' @ nl @ header @ nl" and
    o4: "out s4 = out s2 @ rows_text (test_seconds ?c 1000000 0)
                (sort (expected_results ?c tests 0)) @
              nl @ ''exists = True'' @ '':'' @ nl @ header @ nl" and
    m: "main ?c =
       (if test_seconds ?c 1000000 0 = 0 then Inl (ZeroDivisionError, s2)
        else if test_seconds ?c 1000000 12000000 = 0 then Inl (ZeroDivisionError, s4)
        else Inr (s4\<lparr>out := out s4 @ rows_text (test_seconds ?c 1000000 12000000)
                      (sort (expected_results ?c tests 12000000))\<rparr>))"
    by blast
  from m assms have "main ?c = Inr (s4\<lparr>out := out s4 @ rows_text (1000000 * dur 6)
                      (sort (expected_results ?c tests 12000000))\<rparr>)"
    by (simp add: paced_clock_base0 [OF dur] paced_clock_base1 [OF dur])
  moreover have "out (s4\<lparr>out := out s4 @ rows_text (1000000 * dur 6)
                      (sort (expected_results ?c tests 12000000))\<rparr>) =
      nl @ ''exists = False:'' @ nl @ header @ nl @
      rows_text (1000000 * dur 0) (sort (expected_results ?c tests 0)) @
      nl @ ''exists = True:'' @ nl @ header @ nl @
      rows_text (1000000 * dur 6) (sort (expected_results ?c tests 12000000))"
    by (simp add: o4 o2 paced_clock_base0 [OF dur])
  ultimately show ?thesis
    unfolding r0 r1 by blast
qed

subsection \<open>Evaluating the formats\<close>

lemma replicate_numeral: "replicate (numeral k) x = x # replicate (pred_numeral k) x"
  by (simp add: numeral_eq_Suc)

lemma str_nat_0: "str_nat 0 = ''0''"
  by (simp add: str_nat.simps digit_char_def)

lemma format_6f_of_nat: "format_6f (of_nat n) = str_nat n @ ''.000000''"
proof -
  have "\<bar>of_nat n :: rat\<bar> * 1000000 = of_int (int n * 1000000)"
    by simp
  then have "round_half_even (\<bar>of_nat n\<bar> * 1000000) = int n * 1000000"
    by (simp only: round_half_even_of_int)
  moreover have "nat (int n * 1000000) = n * 1000000"
    by (simp add: nat_mult_distrib)
  ultimately show ?thesis
    by (simp add: format_6f_def str_nat_0 replicate_numeral)
qed

subsection \<open>The baseline\<close>

lemma speedup_self: "speedup b b = 0"
  by (simp add: speedup_def fl_0 py_round_def floor_eq_iff)

lemma format_6d_50: "format_6d 50 = ''    50''"
  by (simp add: format_6d_def str_int_def str_nat.simps digit_char_def replicate_numeral)

lemma format_6d_0: "format_6d 0 = ''     0''"
  by (simp add: format_6d_def str_int_def str_nat.simps digit_char_def replicate_numeral)

lemma sorted_rows_slow_baseline:
  "sort [(31250 :: rat, ''setdefault''), (15625, ''defaultdict''), (15625, ''not in''),
         (15625, ''in else''), (15625, ''get''), (15625, ''try'')] =
   [(15625, ''defaultdict''), (15625, ''get''), (15625, ''in else''), (15625, ''not in''),
    (15625, ''try''), (31250, ''setdefault'')]"
  by code_simp

lemma rows_slow_baseline:
  "rows_text 31250
     (sort [(31250, ''setdefault''), (15625, ''defaultdict''), (15625, ''not in''),
            (15625, ''in else''), (15625, ''get''), (15625, ''try'')]) =
   ''    50%  15625.000000  defaultdict'' @ nl @
   ''    50%  15625.000000  get'' @ nl @
   ''    50%  15625.000000  in else'' @ nl @
   ''    50%  15625.000000  not in'' @ nl @
   ''    50%  15625.000000  try'' @ nl @
   ''     0%  31250.000000  setdefault'' @ nl"
proof -
  have s: "speedup 31250 15625 = 50"
    by (simp add: speedup_def fl_numeral py_round_def floor_eq_iff)
  have f: "format_6f 15625 = ''15625.000000''" "format_6f 31250 = ''31250.000000''"
    using format_6f_of_nat [of 15625] format_6f_of_nat [of 31250]
    by (simp_all add: str_nat.simps digit_char_def)
  show ?thesis
    by (simp only: sorted_rows_slow_baseline)
      (simp add: rows_text_def format_row_def s speedup_self f format_6d_50 format_6d_0)
qed

lemma hd_tests_name: "t_name (hd tests) = ''setdefault''"
  by (simp add: tests_def)

lemma baseline_in_sorted:
  "(test_seconds clock 1000000 t0, ''setdefault'') \<in> set (sort (expected_results clock tests t0))"
  by (simp add: expected_tests del: sort_key_simps)

lemma expected_tests_sorted_ne: "sort (expected_results clock tests t0) \<noteq> []"
proof -
  have "length (sort (expected_results clock tests t0)) = 6"
    by (simp add: expected_tests del: sort_key_simps)
  then show ?thesis
    by (metis length_0_conv zero_neq_numeral)
qed

subsection \<open>The speedup field\<close>

lemma str_nat_nonempty: "str_nat n \<noteq> []"
  by (subst str_nat.simps) simp

lemma str_nat_length: "length (str_nat n) \<le> Suc k \<longleftrightarrow> n < 10 ^ Suc k"
proof (induction n arbitrary: k rule: str_nat.induct)
  case (1 n)
  show ?case
  proof (cases "n < 10")
    case True
    have "(10 :: nat) \<le> 10 ^ Suc k"
      by simp
    with True have "n < 10 ^ Suc k"
      by linarith
    with True show ?thesis
      by (subst str_nat.simps) simp
  next
    case False
    then have len: "length (str_nat n) = Suc (length (str_nat (n div 10)))"
      by (subst str_nat.simps) simp
    show ?thesis
    proof (cases k)
      case 0
      have "0 < length (str_nat (n div 10))"
        using str_nat_nonempty by simp
      with False 0 len show ?thesis
        by simp
    next
      case (Suc k')
      from 1 [OF False, of k'] have "length (str_nat (n div 10)) \<le> Suc k' \<longleftrightarrow>
          n div 10 < 10 ^ Suc k'" .
      moreover have "n div 10 < 10 ^ Suc k' \<longleftrightarrow> n < 10 ^ Suc (Suc k')"
        by (simp add: div_less_iff_less_mult mult.commute)
      ultimately show ?thesis
        using len Suc by simp
    qed
  qed
qed

lemma str_int_length: "length (str_int p) \<le> 6 \<longleftrightarrow> - 99999 \<le> p \<and> p \<le> 999999"
proof (cases "p < 0")
  case True
  have "length (str_nat (nat (- p))) \<le> Suc 4 \<longleftrightarrow> nat (- p) < 10 ^ Suc 4"
    by (rule str_nat_length)
  with True show ?thesis
    by (auto simp: str_int_def)
next
  case False
  have "length (str_nat (nat p)) \<le> Suc 5 \<longleftrightarrow> nat p < 10 ^ Suc 5"
    by (rule str_nat_length)
  with False show ?thesis
    by (auto simp: str_int_def)
qed

lemma format_6d_length: "length (format_6d p) = max 6 (length (str_int p))"
  by (simp add: format_6d_def)

lemma py_round_near: "\<bar>of_int (py_round x) - x\<bar> \<le> 1 / 2"
proof -
  have fb: "of_int \<lfloor>y\<rfloor> \<le> y \<and> y < of_int \<lfloor>y\<rfloor> + 1" for y :: rat
    by linarith
  show ?thesis
  proof (cases "0 \<le> x")
    case True
    then have e: "py_round x = \<lfloor>x + 1 / 2\<rfloor>"
      by (simp add: py_round_def)
    from fb [of "x + 1 / 2"] show ?thesis
      unfolding e by linarith
  next
    case False
    then have e: "py_round x = - \<lfloor>- x + 1 / 2\<rfloor>"
      by (simp add: py_round_def)
    have m: "of_int (- \<lfloor>- x + 1 / 2\<rfloor>) = - (of_int \<lfloor>- x + 1 / 2\<rfloor> :: rat)"
      by simp
    from fb [of "- x + 1 / 2"] show ?thesis
      unfolding e m by linarith
  qed
qed

lemma py_round_half:
  "0 \<le> n \<Longrightarrow> py_round (of_int n + 1 / 2) = n + 1 \<and> py_round (- (of_int n + 1 / 2)) = - (n + 1)"
  by (simp add: py_round_def floor_eq_iff)

text \<open>
  The rounding of the intermediate results shows in the percentage: with a baseline of 200
  seconds and an entry of \<open>1 + 2 ^ - 52\<close> seconds, the float next above 1, the difference
  rounds to 199 and the percentage is 100, where the exact quotient is below 99.5.
\<close>

lemma fl_just_below_199: "fl (200 - 4503599627370497 / 4503599627370496) = 199"
  using fl_near [of 7 "200 - 4503599627370497 / 4503599627370496" 7001690045677568]
  by simp

lemma speedup_of_rounded_difference: "speedup 200 (4503599627370497 / 4503599627370496) = 100"
proof -
  have h: "fl (199 / 2) = 199 / 2"
    using fl_half [of 199] by simp
  show ?thesis
    unfolding speedup_def fl_just_below_199
    by (simp add: fl_numeral h py_round_def floor_eq_iff)
qed

lemma format_6f_just_above_1: "format_6f (4503599627370497 / 4503599627370496) = ''1.000000''"
proof -
  have "round_half_even (\<bar>4503599627370497 / 4503599627370496\<bar> * 1000000) = 1000000"
    by (rule round_half_even_near) simp
  then show ?thesis
    unfolding format_6f_def Let_def
    by (simp add: str_nat.simps digit_char_def replicate_numeral)
qed


lemma format_6d_100: "format_6d 100 = ''   100''"
  by (simp add: format_6d_def str_int_def str_nat.simps digit_char_def replicate_numeral)

lemma format_6d_m100000: "format_6d (- 100000) = ''-100000''"
  by (simp add: format_6d_def str_int_def str_nat.simps digit_char_def replicate_numeral)

lemma sorted_rows_fast_baseline:
  "sort [(15625 :: rat, ''setdefault''), (15640625, ''defaultdict''), (15640625, ''not in''),
         (15640625, ''in else''), (15640625, ''get''), (15640625, ''try'')] =
   [(15625, ''setdefault''), (15640625, ''defaultdict''), (15640625, ''get''),
    (15640625, ''in else''), (15640625, ''not in''), (15640625, ''try'')]"
  by code_simp

lemma rows_fast_baseline:
  "rows_text 15625
     (sort [(15625, ''setdefault''), (15640625, ''defaultdict''), (15640625, ''not in''),
            (15640625, ''in else''), (15640625, ''get''), (15640625, ''try'')]) =
   ''     0%  15625.000000  setdefault'' @ nl @
   ''-100000%  15640625.000000  defaultdict'' @ nl @
   ''-100000%  15640625.000000  get'' @ nl @
   ''-100000%  15640625.000000  in else'' @ nl @
   ''-100000%  15640625.000000  not in'' @ nl @
   ''-100000%  15640625.000000  try'' @ nl"
proof -
  have s: "speedup 15625 15640625 = - 100000"
    by (simp add: speedup_def fl_numeral fl_neg_numeral py_round_def floor_eq_iff)
  have f: "format_6f 15625 = ''15625.000000''" "format_6f 15640625 = ''15640625.000000''"
    using format_6f_of_nat [of 15625] format_6f_of_nat [of 15640625]
    by (simp_all add: str_nat.simps digit_char_def)
  show ?thesis
    by (simp only: sorted_rows_fast_baseline)
      (simp add: rows_text_def format_row_def s speedup_self f format_6d_m100000 format_6d_0)
qed

subsection \<open>Standard output\<close>

lemma env_run:
  assumes env: "env \<in> set envs" and b: "var_d1 s k1 = Some 1" and bn: "1 < next_addr s"
  shows "\<exists>s1 s2.
      start_env env s = Inr s1 \<and>
      run_tests clock tests [] None s1 =
        Inr (expected_results clock tests (ticks s), Some (test_seconds clock 1000000 (ticks s)),
             s2) \<and>
      out s2 = out s @ nl @ env @ '':'' @ nl \<and>
      var_d1 s2 k1 = Some 1 \<and> 1 < next_addr s2 \<and> ticks s2 = ticks s + 12000000 \<and>
      run_env clock env s =
        print_table (expected_results clock tests (ticks s))
          (Some (test_seconds clock 1000000 (ticks s))) s2"
proof -
  let ?s1 = "s\<lparr>out := out s @ nl @ env @ CHR '':'' # nl,
    var_exists := Some (env = ''exists = True'')\<rparr>"
  let ?rs = "expected_results clock tests (ticks s)"
  have bt: "\<forall>t\<in>set tests. benchmark_test t"
    by (simp add: tests_benchmark)
  have "var_exists ?s1 = Some (env = ''exists = True'')" "var_d1 ?s1 k1 = Some 1"
    "1 < next_addr ?s1"
    using b bn by simp_all
  from run_tests_spec [OF bt this, of clock "[]" None] have
    "\<exists>s'. run_tests clock tests [] None ?s1 = Inr (?rs, new_base None ?rs, s') \<and>
       frame 1 ?s1 s' \<and> out s' = out ?s1 \<and>
       ticks s' = ticks ?s1 + 2 * sum_list (map rounds tests)"
    by auto
  then obtain s2 where
    r: "run_tests clock tests [] None ?s1 = Inr (?rs, new_base None ?rs, s2)" and
    f: "frame 1 ?s1 s2" and o: "out s2 = out ?s1" and
    t: "ticks s2 = ticks ?s1 + 2 * sum_list (map rounds tests)"
    by blast
  have nb: "new_base None ?rs = Some (test_seconds clock 1000000 (ticks s))"
    by (simp add: expected_tests new_base_def)
  have tk: "2 * sum_list (map rounds tests) = 12000000"
    by (simp add: tests_def rounds_def or_int_def defaults_repeat_def)
  have f1: "start_env env s = Inr ?s1"
    by (rule start_env_spec [OF env])
  have f2: "run_tests clock tests [] None ?s1 =
      Inr (?rs, Some (test_seconds clock 1000000 (ticks s)), s2)"
    using r nb by simp
  have f3: "out s2 = out s @ nl @ env @ '':'' @ nl"
    using o by simp
  have f4: "var_d1 s2 k1 = Some 1" and f5: "1 < next_addr s2"
    using f b bn by (simp_all add: frame_def)
  have f6: "ticks s2 = ticks s + 12000000"
    using t tk by simp
  have f7: "run_env clock env s =
      print_table ?rs (Some (test_seconds clock 1000000 (ticks s))) s2"
    by (simp add: run_env_def f1 f2)
  show ?thesis
    by (intro exI [of _ ?s1] exI [of _ s2] conjI) (rule f1 f2 f3 f4 f5 f6 f7)+
qed

lemma print_table_cases:
  assumes "length rs = 6"
  shows "print_table rs (Some b) s =
    (if b = 0 then Inl (ZeroDivisionError, py_print header s)
     else Inr (s\<lparr>out := out s @ header @ nl @
       concat (map (\<lambda>(seconds, name). format_row b seconds name @ nl) (sort rs))\<rparr>))"
proof -
  from assms have "length (sort rs) = 6"
    by (simp only: length_sort)
  then have "sort rs \<noteq> []"
    by (metis length_0_conv zero_neq_numeral)
  then show ?thesis
    using print_table_ok [of b rs s]
    by (simp add: print_table_def print_rows_zero rows_text_def)
qed

lemma expected_tests_length: "length (expected_results clock tests t0) = 6"
  by (simp add: expected_tests)

lemma length_tests: "length tests = 6"
  by (simp add: tests_def)

lemma sorted_rows_equal:
  "sort [(15625 :: rat, ''setdefault''), (15625, ''defaultdict''), (15625, ''not in''),
         (15625, ''in else''), (15625, ''get''), (15625, ''try'')] =
   [(15625, ''defaultdict''), (15625, ''get''), (15625, ''in else''), (15625, ''not in''),
    (15625, ''setdefault''), (15625, ''try'')]"
  by code_simp

lemma rows_equal:
  "rows_text 15625
     (sort [(15625, ''setdefault''), (15625, ''defaultdict''), (15625, ''not in''),
            (15625, ''in else''), (15625, ''get''), (15625, ''try'')]) =
   ''     0%  15625.000000  defaultdict'' @ nl @
   ''     0%  15625.000000  get'' @ nl @
   ''     0%  15625.000000  in else'' @ nl @
   ''     0%  15625.000000  not in'' @ nl @
   ''     0%  15625.000000  setdefault'' @ nl @
   ''     0%  15625.000000  try'' @ nl"
proof -
  have f: "format_6f 15625 = ''15625.000000''"
    using format_6f_of_nat [of 15625] by (simp add: str_nat.simps digit_char_def)
  show ?thesis
    by (simp only: sorted_rows_equal)
      (simp add: rows_text_def format_row_def speedup_self f format_6d_0)
qed

subsection \<open>The sample output of the docstring\<close>

text \<open>
  The docstring of the script shows the output of a run. The seconds of its first table,
  read as floats, are the entries below; the order, the percentages computed in floats
  and the formats of the model give the lines shown there.
\<close>

lemma format_6f_near:
  assumes "0 \<le> x" and "\<bar>x * 1000000 - of_nat n\<bar> < 1 / 2"
  shows "format_6f x =
     str_nat (n div 1000000) @ ''.'' @
     replicate (6 - length (str_nat (n mod 1000000))) CHR ''0'' @ str_nat (n mod 1000000)"
proof -
  have "\<bar>\<bar>x\<bar> * 1000000 - of_int (int n)\<bar> < 1 / 2"
    using assms by simp
  then have "round_half_even (\<bar>x\<bar> * 1000000) = int n"
    by (rule round_half_even_near)
  moreover have "\<not> x < 0"
    using assms(1) by simp
  ultimately show ?thesis
    unfolding format_6f_def Let_def by simp
qed

lemma docstring_doubles:
  "fl (918161 / 1000000) = 2067514768733061 / 2251799813685248"
  "fl (821429 / 1000000) = 3699387338311319 / 4503599627370496"
  "fl (825422 / 1000000) = 7434740423246819 / 9007199254740992"
  "fl (780859 / 1000000) = 1758338150714449 / 2251799813685248"
  "fl (890609 / 1000000) = 2005473180266405 / 2251799813685248"
  "fl (1683932 / 1000000) = 3791877763858627 / 2251799813685248"
  using fl_near [of "- 1" "918161 / 1000000" 8270059074932244]
    fl_near [of "- 1" "821429 / 1000000" 7398774676622638]
    fl_near [of "- 1" "825422 / 1000000" 7434740423246819]
    fl_near [of "- 1" "780859 / 1000000" 7033352602857796]
    fl_near [of "- 1" "890609 / 1000000" 8021892721065620]
    fl_near [of 0 "1683932 / 1000000" 7583755527717254]
  by simp_all

lemma docstring_speedup_defaultdict:
  "speedup (2067514768733061 / 2251799813685248)
     (3699387338311319 / 4503599627370496) = 11"
proof -
  have a1: "2067514768733061 / 2251799813685248 - 3699387338311319 / 4503599627370496 =
      (435642199154803 / 4503599627370496 :: rat)"
    by simp
  have f1: "fl (435642199154803 / 4503599627370496) = 435642199154803 / 4503599627370496"
    using fl_near [of "- 4" "435642199154803 / 4503599627370496" 6970275186476848] by simp
  have a2: "100 * (435642199154803 / 4503599627370496) =
      (10891054978870075 / 1125899906842624 :: rat)"
    by simp
  have f2: "fl (10891054978870075 / 1125899906842624) = 2722763744717519 / 281474976710656"
    using fl_tie [of 3 "10891054978870075 / 1125899906842624" 5445527489435037] by simp
  have a3: "2722763744717519 / 281474976710656 /
      (2067514768733061 / 2251799813685248) = (21782109957740152 / 2067514768733061 :: rat)"
    by simp
  have f3: "fl (21782109957740152 / 2067514768733061) = 5930906986285671 / 562949953421312"
    using fl_near [of 3 "21782109957740152 / 2067514768733061" 5930906986285671] by simp
  have r: "py_round (5930906986285671 / 562949953421312) = 11"
    by (simp add: py_round_def floor_eq_iff)
  show ?thesis
    unfolding speedup_def a1 f1 a2 f2 a3 f3 by (rule r)
qed

lemma docstring_speedup_not_in:
  "speedup (2067514768733061 / 2251799813685248)
     (7434740423246819 / 9007199254740992) = 10"
proof -
  have a1: "2067514768733061 / 2251799813685248 - 7434740423246819 / 9007199254740992 =
      (835318651685425 / 9007199254740992 :: rat)"
    by simp
  have f1: "fl (835318651685425 / 9007199254740992) = 835318651685425 / 9007199254740992"
    using fl_near [of "- 4" "835318651685425 / 9007199254740992" 6682549213483400] by simp
  have a2: "100 * (835318651685425 / 9007199254740992) =
      (20882966292135625 / 2251799813685248 :: rat)"
    by simp
  have f2: "fl (20882966292135625 / 2251799813685248) = 2610370786516953 / 281474976710656"
    using fl_near [of 3 "20882966292135625 / 2251799813685248" 5220741573033906] by simp
  have a3: "2610370786516953 / 281474976710656 /
      (2067514768733061 / 2251799813685248) = (6960988764045208 / 689171589577687 :: rat)"
    by simp
  have f3: "fl (6960988764045208 / 689171589577687) = 2843042545389047 / 281474976710656"
    using fl_near [of 3 "6960988764045208 / 689171589577687" 5686085090778094] by simp
  have r: "py_round (2843042545389047 / 281474976710656) = 10"
    by (simp add: py_round_def floor_eq_iff)
  show ?thesis
    unfolding speedup_def a1 f1 a2 f2 a3 f3 by (rule r)
qed

lemma docstring_speedup_in_else:
  "speedup (2067514768733061 / 2251799813685248)
     (1758338150714449 / 2251799813685248) = 15"
proof -
  have a1: "2067514768733061 / 2251799813685248 - 1758338150714449 / 2251799813685248 =
      (77294154504653 / 562949953421312 :: rat)"
    by simp
  have f1: "fl (77294154504653 / 562949953421312) = 77294154504653 / 562949953421312"
    using fl_near [of "- 3" "77294154504653 / 562949953421312" 4946825888297792] by simp
  have a2: "100 * (77294154504653 / 562949953421312) =
      (1932353862616325 / 140737488355328 :: rat)"
    by simp
  have f2: "fl (1932353862616325 / 140737488355328) = 1932353862616325 / 140737488355328"
    using fl_near [of 3 "1932353862616325 / 140737488355328" 7729415450465300] by simp
  have a3: "1932353862616325 / 140737488355328 /
      (2067514768733061 / 2251799813685248) = (30917661801861200 / 2067514768733061 :: rat)"
    by simp
  have f3: "fl (30917661801861200 / 2067514768733061) = 4209183057473199 / 281474976710656"
    using fl_near [of 3 "30917661801861200 / 2067514768733061" 8418366114946398] by simp
  have r: "py_round (4209183057473199 / 281474976710656) = 15"
    by (simp add: py_round_def floor_eq_iff)
  show ?thesis
    unfolding speedup_def a1 f1 a2 f2 a3 f3 by (rule r)
qed

lemma docstring_speedup_get:
  "speedup (2067514768733061 / 2251799813685248)
     (2005473180266405 / 2251799813685248) = 3"
proof -
  have a1: "2067514768733061 / 2251799813685248 - 2005473180266405 / 2251799813685248 =
      (1938799639583 / 70368744177664 :: rat)"
    by simp
  have f1: "fl (1938799639583 / 70368744177664) = 1938799639583 / 70368744177664"
    using fl_near [of "- 6" "1938799639583 / 70368744177664" 7941323323731968] by simp
  have a2: "100 * (1938799639583 / 70368744177664) =
      (48469990989575 / 17592186044416 :: rat)"
    by simp
  have f2: "fl (48469990989575 / 17592186044416) = 48469990989575 / 17592186044416"
    using fl_near [of 1 "48469990989575 / 17592186044416" 6204158846665600] by simp
  have a3: "48469990989575 / 17592186044416 /
      (2067514768733061 / 2251799813685248) = (6204158846665600 / 2067514768733061 :: rat)"
    by simp
  have f3: "fl (6204158846665600 / 2067514768733061) = 3378578945667263 / 1125899906842624"
    using fl_near [of 1 "6204158846665600 / 2067514768733061" 6757157891334526] by simp
  have r: "py_round (3378578945667263 / 1125899906842624) = 3"
    by (simp add: py_round_def floor_eq_iff)
  show ?thesis
    unfolding speedup_def a1 f1 a2 f2 a3 f3 by (rule r)
qed

lemma docstring_speedup_try:
  "speedup (2067514768733061 / 2251799813685248)
     (3791877763858627 / 2251799813685248) = - 83"
proof -
  have a1: "2067514768733061 / 2251799813685248 - 3791877763858627 / 2251799813685248 =
      (- (862181497562783 / 1125899906842624) :: rat)"
    by simp
  have f1: "fl (- (862181497562783 / 1125899906842624)) = - (862181497562783 / 1125899906842624)"
    using fl_near [of "- 1" "- (862181497562783 / 1125899906842624)" "- 6897451980502264"] by simp
  have a2: "100 * (- (862181497562783 / 1125899906842624)) =
      (- (21554537439069575 / 281474976710656) :: rat)"
    by simp
  have f2: "fl (- (21554537439069575 / 281474976710656)) = - (2694317179883697 / 35184372088832)"
    using fl_near [of 6 "- (21554537439069575 / 281474976710656)" "- 5388634359767394"] by simp
  have a3: "- (2694317179883697 / 35184372088832) /
      (2067514768733061 / 2251799813685248) = (- (57478766504185536 / 689171589577687) :: rat)"
    by simp
  have f3: "fl (- (57478766504185536 / 689171589577687)) = - (2934471383432423 / 35184372088832)"
    using fl_near [of 6 "- (57478766504185536 / 689171589577687)" "- 5868942766864846"] by simp
  have r: "py_round (- (2934471383432423 / 35184372088832)) = - 83"
    by (simp add: py_round_def floor_eq_iff)
  show ?thesis
    unfolding speedup_def a1 f1 a2 f2 a3 f3 by (rule r)
qed

lemma docstring_seconds:
  "format_6f (2067514768733061 / 2251799813685248) = ''0.918161''"
  "format_6f (3699387338311319 / 4503599627370496) = ''0.821429''"
  "format_6f (7434740423246819 / 9007199254740992) = ''0.825422''"
  "format_6f (1758338150714449 / 2251799813685248) = ''0.780859''"
  "format_6f (2005473180266405 / 2251799813685248) = ''0.890609''"
  "format_6f (3791877763858627 / 2251799813685248) = ''1.683932''"
  using format_6f_near [of "2067514768733061 / 2251799813685248" 918161]
    format_6f_near [of "3699387338311319 / 4503599627370496" 821429]
    format_6f_near [of "7434740423246819 / 9007199254740992" 825422]
    format_6f_near [of "1758338150714449 / 2251799813685248" 780859]
    format_6f_near [of "2005473180266405 / 2251799813685248" 890609]
    format_6f_near [of "3791877763858627 / 2251799813685248" 1683932]
  by (simp_all add: str_nat.simps digit_char_def)

lemma sorted_docstring_rows:
  "sort [(2067514768733061 / 2251799813685248 :: rat, ''setdefault''),
         (3699387338311319 / 4503599627370496, ''defaultdict''),
         (7434740423246819 / 9007199254740992, ''not in''),
         (1758338150714449 / 2251799813685248, ''in else''),
         (2005473180266405 / 2251799813685248, ''get''),
         (3791877763858627 / 2251799813685248, ''try'')] =
   [(1758338150714449 / 2251799813685248, ''in else''),
    (3699387338311319 / 4503599627370496, ''defaultdict''),
    (7434740423246819 / 9007199254740992, ''not in''),
    (2005473180266405 / 2251799813685248, ''get''),
    (2067514768733061 / 2251799813685248, ''setdefault''),
    (3791877763858627 / 2251799813685248, ''try'')]"
  by (simp add: less_eq_prod_def)

lemma docstring_first_table:
  "rows_text (fl (918161 / 1000000))
     (sort [(fl (918161 / 1000000), ''setdefault''),
            (fl (821429 / 1000000), ''defaultdict''),
            (fl (825422 / 1000000), ''not in''),
            (fl (780859 / 1000000), ''in else''),
            (fl (890609 / 1000000), ''get''),
            (fl (1683932 / 1000000), ''try'')]) =
   ''    15%  0.780859  in else'' @ nl @
   ''    11%  0.821429  defaultdict'' @ nl @
   ''    10%  0.825422  not in'' @ nl @
   ''     3%  0.890609  get'' @ nl @
   ''     0%  0.918161  setdefault'' @ nl @
   ''   -83%  1.683932  try'' @ nl"
proof -
  have d: "format_6d (- 83) = ''   -83''"
    "format_6d 3 = ''     3''"
    "format_6d 10 = ''    10''"
    "format_6d 11 = ''    11''"
    "format_6d 15 = ''    15''"
    by (simp_all add: format_6d_def str_int_def str_nat.simps digit_char_def replicate_numeral)
  show ?thesis
    by (simp only: docstring_doubles sorted_docstring_rows rows_text_def format_row_def list.map
        concat.simps split_conv speedup_self d docstring_seconds format_6d_0
        docstring_speedup_defaultdict
        docstring_speedup_not_in
        docstring_speedup_in_else
        docstring_speedup_get
        docstring_speedup_try) simp
qed

section \<open>The claims\<close>

text \<open>
  C1, as the script has it. The outer dictionary \<^verbatim>\<open>d1\<close> is the same at the end of a run as
  at its start, whatever the clock and however the run ends, and so is every inner
  dictionary that \<^verbatim>\<open>d1\<close> holds under a key other than \<^verbatim>\<open>'k1'\<close>. The inner dictionary under
  \<^verbatim>\<open>'k1'\<close> is shared with the working copies, which are shallow: it is empty at the end if
  the run stops in the first condition, and holds \<^verbatim>\<open>'k2' -> 'v'\<close> once the condition
  \<^verbatim>\<open>exists = True\<close> has run.
\<close>

theorem d1_outer_unchanged:
  "var_d1 (final_state (main clock)) = var_d1 initial \<and>
   (\<forall>k a. var_d1 initial k = Some a \<and> k \<noteq> k1 \<longrightarrow>
      heap (final_state (main clock)) a = heap initial a) \<and>
   var_d1 initial k1 = Some 1 \<and> heap initial 1 = Map.empty \<and>
   heap (final_state (main clock)) 1 =
     (case run_env clock ''exists = False'' initial of
        Inl _ \<Rightarrow> Map.empty
      | Inr _ \<Rightarrow> [k2 \<mapsto> v])"
proof -
  from final_state_main [of clock] have
    f: "frame 1 initial (final_state (main clock))" and
    h: "heap (final_state (main clock)) 1 =
     (case run_env clock ''exists = False'' initial of
        Inl _ \<Rightarrow> Map.empty
      | Inr _ \<Rightarrow> [k2 \<mapsto> v])"
    by simp_all
  have "heap (final_state (main clock)) a = heap initial a"
    if "var_d1 initial k = Some a \<and> k \<noteq> k1" for k a
  proof -
    from that have a: "a < 1000000" and k: "k = ''k'' @ str_nat a" and nk: "k \<noteq> k1"
      by (auto simp: initial_key_iff)
    from k nk have "a \<noteq> 1"
      using k1_key by auto
    with f a show ?thesis
      by (simp add: frame_def initial_fields)
  qed
  moreover have "var_d1 (final_state (main clock)) = var_d1 initial"
    using f by (simp add: frame_def)
  moreover have "heap initial 1 = Map.empty"
    by (simp add: initial_fields)
  ultimately show ?thesis
    using h initial_k1_addr by blast
qed

theorem d1_outer_unchanged_witness:
  "var_d1 (final_state (main (\<lambda>n. of_nat n))) = var_d1 initial \<and>
   heap (final_state (main (\<lambda>n. of_nat n))) 0 = heap initial 0 \<and>
   var_d1 initial ''k0'' = Some 0"
proof -
  have k0: "var_d1 initial ''k0'' = Some 0"
    by (simp add: initial_key_iff str_nat.simps digit_char_def)
  moreover have "''k0'' \<noteq> k1"
    by (simp add: k1_def)
  ultimately show ?thesis
    using d1_outer_unchanged [of "\<lambda>n. of_nat n"] by blast
qed

text \<open>
  C1 as stated fails: with a clock that lets every measured statement take 1/64 second,
  the inner dictionary that \<^verbatim>\<open>d1\<close> holds under \<^verbatim>\<open>'k1'\<close>, empty at the start, holds
  \<^verbatim>\<open>'k2' -> 'v'\<close> at the end of the run.
\<close>

theorem d1_inner_mutated:
  "var_d1 initial k1 = Some 1 \<and> heap initial 1 k2 = None \<and>
   heap (final_state (main (paced_clock (\<lambda>j. 1 / 64)))) 1 k2 = Some v"
proof -
  let ?c = "paced_clock (\<lambda>j. 1 / 64)"
  have "test_seconds ?c 1000000 0 \<noteq> 0"
    by (simp add: paced_clock_base0 [of "\<lambda>j. 1 / 64", OF dur_const])
  with run_env_False_cases [of ?c] obtain s where
    "run_env ?c ''exists = False'' initial = Inr s"
    by auto
  with final_state_main [of ?c] have "heap (final_state (main ?c)) 1 = [k2 \<mapsto> v]"
    by simp
  then show ?thesis
    by (simp add: initial_k1_addr initial_fields)
qed

text \<open>
  C2, as the script has it. In every condition the run reaches, the baseline is the seconds
  of \<^verbatim>\<open>setdefault\<close>, the first test declared. When it is not zero, the row of that
  entry is among the rows printed and its speedup is 0, whatever the other entries are;
  when it is zero, the division raises \<^verbatim>\<open>ZeroDivisionError\<close> after the header and no row
  is printed.
\<close>

theorem baseline_is_first_test:
  "i < length envs \<and> run_envs clock (take i envs) initial = Inr s \<longrightarrow>
   (\<exists>s1 results base s2.
      start_env (envs ! i) s = Inr s1 \<and>
      run_tests clock tests [] None s1 = Inr (results, Some base, s2) \<and>
      hd results = (base, ''setdefault'') \<and> t_name (hd tests) = ''setdefault'' \<and>
      run_env clock (envs ! i) s = print_table results (Some base) s2 \<and>
      (base, ''setdefault'') \<in> set (sort results) \<and>
      speedup base base = 0 \<and>
      format_row base base ''setdefault'' =
        ''     0%  '' @ format_6f base @ ''  setdefault'' \<and>
      (base = 0 \<longrightarrow>
         run_env clock (envs ! i) s = Inl (ZeroDivisionError, py_print header s2)))"
proof
  assume a: "i < length envs \<and> run_envs clock (take i envs) initial = Inr s"
  then have env: "envs ! i \<in> set envs" by simp
  from a reached_env_state [of i clock s] have pre: "var_d1 s k1 = Some 1" "1 < next_addr s"
    by simp_all
  let ?rs = "expected_results clock tests (ticks s)"
  let ?b = "test_seconds clock 1000000 (ticks s)"
  from env_results [OF env pre, of clock] obtain s1 s2 where
    f1: "start_env (envs ! i) s = Inr s1" and
    f2: "run_tests clock tests [] None s1 = Inr (?rs, Some ?b, s2)" and
    f4: "run_env clock (envs ! i) s = print_table ?rs (Some ?b) s2"
    by blast
  have f3: "hd ?rs = (?b, ''setdefault'')"
    by (rule expected_tests_hd)
  have f5: "(?b, ''setdefault'') \<in> set (sort ?rs)"
    by (rule baseline_in_sorted)
  have f6: "speedup ?b ?b = 0"
    by (rule speedup_self)
  have f7: "format_row ?b ?b ''setdefault'' = ''     0%  '' @ format_6f ?b @ ''  setdefault''"
    by (simp add: format_row_def speedup_self format_6d_0)
  have f8: "?b = 0 \<longrightarrow>
         run_env clock (envs ! i) s = Inl (ZeroDivisionError, py_print header s2)"
    by (simp add: f4 print_table_def print_rows_zero [OF expected_tests_sorted_ne])
  show "\<exists>s1 results base s2.
      start_env (envs ! i) s = Inr s1 \<and>
      run_tests clock tests [] None s1 = Inr (results, Some base, s2) \<and>
      hd results = (base, ''setdefault'') \<and> t_name (hd tests) = ''setdefault'' \<and>
      run_env clock (envs ! i) s = print_table results (Some base) s2 \<and>
      (base, ''setdefault'') \<in> set (sort results) \<and>
      speedup base base = 0 \<and>
      format_row base base ''setdefault'' =
        ''     0%  '' @ format_6f base @ ''  setdefault'' \<and>
      (base = 0 \<longrightarrow>
         run_env clock (envs ! i) s = Inl (ZeroDivisionError, py_print header s2))"
    by (intro exI [of _ s1] exI [of _ ?rs] exI [of _ ?b] exI [of _ s2] conjI)
      (rule f1 f2 f3 hd_tests_name f4 f5 f6 f7 f8)+
qed

theorem baseline_is_first_test_witness:
  "\<exists>s1 results base s2.
      start_env (envs ! 0) initial = Inr s1 \<and>
      run_tests (\<lambda>n. of_nat n) tests [] None s1 = Inr (results, Some base, s2) \<and>
      hd results = (base, ''setdefault'') \<and>
      run_env (\<lambda>n. of_nat n) (envs ! 0) initial = print_table results (Some base) s2 \<and>
      (base, ''setdefault'') \<in> set (sort results) \<and> speedup base base = 0"
proof -
  have len: "0 < length envs"
    by (simp add: envs_def)
  have run: "run_envs (\<lambda>n. of_nat n) (take 0 envs) initial = Inr initial"
    by simp
  from baseline_is_first_test [of 0 "\<lambda>n. of_nat n" initial, THEN mp, OF conjI [OF len run]]
  obtain s1 results base s2 where
    "start_env (envs ! 0) initial = Inr s1"
    "run_tests (\<lambda>n. of_nat n) tests [] None s1 = Inr (results, Some base, s2)"
    "hd results = (base, ''setdefault'')"
    "run_env (\<lambda>n. of_nat n) (envs ! 0) initial = print_table results (Some base) s2"
    "(base, ''setdefault'') \<in> set (sort results)" "speedup base base = 0"
    by (elim exE conjE)
  then show ?thesis
    by (intro exI [of _ s1] exI [of _ results] exI [of _ base] exI [of _ s2]) simp
qed

text \<open>
  C2 as stated fails: with a clock that lets \<^verbatim>\<open>setdefault\<close> take twice as long as every
  other test, five faster cases are printed above the baseline's row, and that row shows
  \<^verbatim>\<open>0%\<close>, not a negative number.
\<close>

theorem baseline_row_zero_below_faster:
  "out (final_state (main (paced_clock (\<lambda>j. if j mod 6 = 0 then 1 / 32 else 1 / 64)))) =
     nl @ ''exists = False:'' @ nl @
     ''speedup   seconds  option'' @ nl @
     ''    50%  15625.000000  defaultdict'' @ nl @
     ''    50%  15625.000000  get'' @ nl @
     ''    50%  15625.000000  in else'' @ nl @
     ''    50%  15625.000000  not in'' @ nl @
     ''    50%  15625.000000  try'' @ nl @
     ''     0%  31250.000000  setdefault'' @ nl @
     nl @ ''exists = True:'' @ nl @
     ''speedup   seconds  option'' @ nl @
     ''    50%  15625.000000  defaultdict'' @ nl @
     ''    50%  15625.000000  get'' @ nl @
     ''    50%  15625.000000  in else'' @ nl @
     ''    50%  15625.000000  not in'' @ nl @
     ''    50%  15625.000000  try'' @ nl @
     ''     0%  31250.000000  setdefault'' @ nl \<and>
   speedup 31250 31250 = 0 \<and> \<not> speedup 31250 31250 < 0"
proof -
  let ?dur = "\<lambda>j :: nat. if j mod 6 = 0 then 1 / 32 else 1 / 64 :: rat"
  let ?rows = "rows_text 31250
        (sort [(31250, ''setdefault''), (15625, ''defaultdict''), (15625, ''not in''),
               (15625, ''in else''), (15625, ''get''), (15625, ''try'')])"
  have "?dur 0 \<noteq> 0" "?dur 6 \<noteq> 0" by simp_all
  from main_paced [of ?dur, OF dur_slow_first this] obtain s where
    m: "main (paced_clock ?dur) = Inr s" and
    o: "out s = nl @ ''exists = False:'' @ nl @ header @ nl @
      rows_text (1000000 * ?dur 0)
        (sort [(1000000 * ?dur 0, ''setdefault''), (1000000 * ?dur 1, ''defaultdict''),
               (1000000 * ?dur 2, ''not in''), (1000000 * ?dur 3, ''in else''),
               (1000000 * ?dur 4, ''get''), (1000000 * ?dur 5, ''try'')]) @
      nl @ ''exists = True:'' @ nl @ header @ nl @
      rows_text (1000000 * ?dur 6)
        (sort [(1000000 * ?dur 6, ''setdefault''), (1000000 * ?dur 7, ''defaultdict''),
               (1000000 * ?dur 8, ''not in''), (1000000 * ?dur 9, ''in else''),
               (1000000 * ?dur 10, ''get''), (1000000 * ?dur 11, ''try'')])"
    by blast
  have d: "1000000 * ?dur 0 = 31250" "1000000 * ?dur 1 = 15625" "1000000 * ?dur 2 = 15625"
    "1000000 * ?dur 3 = 15625" "1000000 * ?dur 4 = 15625" "1000000 * ?dur 5 = 15625"
    "1000000 * ?dur 6 = 31250" "1000000 * ?dur 7 = 15625" "1000000 * ?dur 8 = 15625"
    "1000000 * ?dur 9 = 15625" "1000000 * ?dur 10 = 15625" "1000000 * ?dur 11 = 15625"
    by simp_all
  have "out s = nl @ ''exists = False:'' @ nl @ header @ nl @ ?rows @
      nl @ ''exists = True:'' @ nl @ header @ nl @ ?rows"
    using o by (simp only: d)
  then have "out (final_state (main (paced_clock ?dur))) =
      nl @ ''exists = False:'' @ nl @ header @ nl @ ?rows @
      nl @ ''exists = True:'' @ nl @ header @ nl @ ?rows"
    by (simp add: m final_state_def)
  then show ?thesis
    by (simp only: rows_slow_baseline) (simp add: header_def speedup_self)
qed

text \<open>
  C3, as the script has it. In every condition the run reaches, the loop over the tests starts from an empty
  \<^verbatim>\<open>results\<close> and no baseline, and returns one entry for each test, with the names in the
  order of declaration; the baseline is the seconds of the first entry; the table is
  printed from these entries and this baseline, and when the baseline is not zero each of
  its rows shows the speedup of its entry against this baseline.
\<close>

theorem one_entry_per_test:
  "i < length envs \<and> run_envs clock (take i envs) initial = Inr s \<longrightarrow>
   (\<exists>s1 results base s2.
      start_env (envs ! i) s = Inr s1 \<and>
      run_tests clock tests [] None s1 = Inr (results, Some base, s2) \<and>
      map snd results = map t_name tests \<and> length results = length tests \<and>
      base = fst (hd results) \<and>
      run_env clock (envs ! i) s = print_table results (Some base) s2 \<and>
      (base \<noteq> 0 \<longrightarrow>
         run_env clock (envs ! i) s =
           Inr (s2\<lparr>out := out s2 @ header @ nl @
                  concat (map (\<lambda>(seconds, name).
                    format_6d (speedup base seconds) @ ''%  '' @ format_6f seconds @ ''  '' @
                    name @ nl) (sort results))\<rparr>)))"
proof
  assume a: "i < length envs \<and> run_envs clock (take i envs) initial = Inr s"
  then have env: "envs ! i \<in> set envs" by simp
  from a reached_env_state [of i clock s] have pre: "var_d1 s k1 = Some 1" "1 < next_addr s"
    by simp_all
  let ?rs = "expected_results clock tests (ticks s)"
  let ?b = "test_seconds clock 1000000 (ticks s)"
  from env_results [OF env pre, of clock] obtain s1 s2 where
    f1: "start_env (envs ! i) s = Inr s1" and
    f2: "run_tests clock tests [] None s1 = Inr (?rs, Some ?b, s2)" and
    f6: "run_env clock (envs ! i) s = print_table ?rs (Some ?b) s2"
    by blast
  have f3: "map snd ?rs = map t_name tests"
    by (rule expected_tests_names)
  have f4: "length ?rs = length tests"
    using f3 by (metis length_map)
  have f5: "?b = fst (hd ?rs)"
    by (simp add: expected_tests_hd)
  have f7: "?b \<noteq> 0 \<longrightarrow>
         run_env clock (envs ! i) s =
           Inr (s2\<lparr>out := out s2 @ header @ nl @
                  concat (map (\<lambda>(seconds, name).
                    format_6d (speedup ?b seconds) @ ''%  '' @ format_6f seconds @ ''  '' @
                    name @ nl) (sort ?rs))\<rparr>)"
    by (simp add: f6 print_table_ok rows_text_def format_row_def)
  show "\<exists>s1 results base s2.
      start_env (envs ! i) s = Inr s1 \<and>
      run_tests clock tests [] None s1 = Inr (results, Some base, s2) \<and>
      map snd results = map t_name tests \<and> length results = length tests \<and>
      base = fst (hd results) \<and>
      run_env clock (envs ! i) s = print_table results (Some base) s2 \<and>
      (base \<noteq> 0 \<longrightarrow>
         run_env clock (envs ! i) s =
           Inr (s2\<lparr>out := out s2 @ header @ nl @
                  concat (map (\<lambda>(seconds, name).
                    format_6d (speedup base seconds) @ ''%  '' @ format_6f seconds @ ''  '' @
                    name @ nl) (sort results))\<rparr>))"
    by (intro exI [of _ s1] exI [of _ ?rs] exI [of _ ?b] exI [of _ s2] conjI)
      (rule f1 f2 f3 f4 f5 f6 f7)+
qed

theorem one_entry_per_test_witness:
  "\<exists>s s1 results base s2.
      run_envs (paced_clock (\<lambda>j. 1 / 64)) (take 1 envs) initial = Inr s \<and>
      start_env (envs ! 1) s = Inr s1 \<and>
      run_tests (paced_clock (\<lambda>j. 1 / 64)) tests [] None s1 = Inr (results, Some base, s2) \<and>
      map snd results = map t_name tests \<and> length results = length tests \<and>
      base = fst (hd results)"
proof -
  let ?c = "paced_clock (\<lambda>j. 1 / 64)"
  have "test_seconds ?c 1000000 0 \<noteq> 0"
    by (simp add: paced_clock_base0 [of "\<lambda>j. 1 / 64", OF dur_const])
  with run_env_False_cases [of ?c] obtain s where
    "run_env ?c ''exists = False'' initial = Inr s"
    by auto
  then have run: "run_envs ?c (take 1 envs) initial = Inr s"
    by (simp add: envs_def)
  have len: "1 < length envs"
    by (simp add: envs_def)
  from one_entry_per_test [of 1 ?c s, THEN mp, OF conjI [OF len run]]
  obtain s1 results base s2 where
    "start_env (envs ! 1) s = Inr s1"
    "run_tests ?c tests [] None s1 = Inr (results, Some base, s2)"
    "map snd results = map t_name tests" "length results = length tests"
    "base = fst (hd results)"
    by (elim exE conjE)
  with run show ?thesis
    by (intro exI [of _ s] exI [of _ s1] exI [of _ results] exI [of _ base] exI [of _ s2]) simp
qed

text \<open>
  C3 as stated fails for the second condition when the clock stands still. Every test of
  the first condition then accumulates 0 seconds, the baseline is 0, and the division of
  the first row raises \<^verbatim>\<open>ZeroDivisionError\<close> right after the first header: the run ends
  there, the condition \<^verbatim>\<open>exists = True\<close> is never started and no entry is produced for it.
\<close>

theorem still_clock_stops_after_first_header:
  "(\<exists>s. run_envs (\<lambda>n. 0) (take 1 envs) initial = Inl (ZeroDivisionError, s)) \<and>
   (\<exists>s. main (\<lambda>n. 0) = Inl (ZeroDivisionError, s) \<and>
        out s = nl @ ''exists = False:'' @ nl @ ''speedup   seconds  option'' @ nl)"
proof -
  from main_spec [OF initial_k1_addr, of "\<lambda>n. 0"] obtain s2 where
    o: "out s2 = nl @ ''exists = False'' @ '':'' @ nl @ header @ nl" and
    m: "main (\<lambda>n. 0) = Inl (ZeroDivisionError, s2)" and
    r: "run_env (\<lambda>n. 0) ''exists = False'' initial = Inl (ZeroDivisionError, s2)"
    unfolding test_seconds_still by auto
  from r have "run_envs (\<lambda>n. 0) (take 1 envs) initial = Inl (ZeroDivisionError, s2)"
    by (simp add: envs_def)
  moreover from o have "out s2 = nl @ ''exists = False:'' @ nl @ ''speedup   seconds  option'' @ nl"
    by (simp add: header_def)
  ultimately show ?thesis
    using m by blast
qed

text \<open>
  C4, as the script has it. When the baseline \<open>b\<close> is not zero, every row printed starts
  with \<^verbatim>\<open>int(round(100 * (b - seconds) / b))\<close> over that baseline, computed in floats: the
  difference, the product and the quotient are each rounded to a double before \<^verbatim>\<open>round\<close>
  is applied. The rounding of \<^verbatim>\<open>round\<close> is to a nearest integer, a half going away from
  zero. The number is written in decimal with its sign, padded with spaces on the left to
  6 characters: the field is 6 characters wide exactly when the number lies between
  -99999 and 999999, and as wide as the number otherwise.
\<close>

theorem speedup_field:
  "(b \<noteq> 0 \<longrightarrow>
      print_rows (Some b) rows s =
        Inr (s\<lparr>out := out s @
          concat (map (\<lambda>(seconds, name).
            format_6d (py_round (fl (fl (100 * fl (b - seconds)) / b))) @ ''%  '' @
            format_6f seconds @ ''  '' @ name @ nl) rows)\<rparr>)) \<and>
   \<bar>of_int (py_round x) - x\<bar> \<le> 1 / 2 \<and>
   (0 \<le> n \<longrightarrow>
      py_round (of_int n + 1 / 2) = n + 1 \<and> py_round (- (of_int n + 1 / 2)) = - (n + 1)) \<and>
   format_6d p = replicate (6 - length (str_int p)) CHR '' '' @ str_int p \<and>
   length (format_6d p) = max 6 (length (str_int p)) \<and>
   (length (format_6d p) = 6 \<longleftrightarrow> - 99999 \<le> p \<and> p \<le> 999999)"
proof -
  have "print_rows (Some b) rows s =
        Inr (s\<lparr>out := out s @
          concat (map (\<lambda>(seconds, name).
            format_6d (py_round (fl (fl (100 * fl (b - seconds)) / b))) @ ''%  '' @
            format_6f seconds @ ''  '' @ name @ nl) rows)\<rparr>)" if "b \<noteq> 0"
    using that by (simp add: print_rows_ok rows_text_def format_row_def speedup_def)
  moreover have "length (format_6d p) = 6 \<longleftrightarrow> - 99999 \<le> p \<and> p \<le> 999999"
    using str_int_length [of p] by (auto simp: format_6d_length)
  ultimately show ?thesis
    using py_round_near [of x] py_round_half [of n] format_6d_length [of p]
    by (simp add: format_6d_def)
qed

theorem speedup_field_witness:
  "print_rows (Some 200) [(4503599627370497 / 4503599627370496, ''try'')] empty_state =
     Inr (empty_state\<lparr>out := ''   100%  1.000000  try'' @ nl\<rparr>) \<and>
   py_round (100 * (200 - 4503599627370497 / 4503599627370496) / 200) = 99 \<and>
   py_round (of_int 2 + 1 / 2) = 2 + 1 \<and> py_round (- (of_int 2 + 1 / 2)) = - (2 + 1) \<and>
   length (format_6d 100) = 6"
proof -
  let ?s = "4503599627370497 / 4503599627370496 :: rat"
  have h: "(200 :: rat) \<noteq> 0" "(0 :: int) \<le> 2"
    "- 99999 \<le> (100 :: int) \<and> (100 :: int) \<le> 999999"
    by simp_all
  from speedup_field [of 200 "[(?s, ''try'')]" empty_state 0 2 100] h have
    p: "print_rows (Some 200) [(?s, ''try'')] empty_state =
        Inr (empty_state\<lparr>out := out empty_state @
          concat (map (\<lambda>(seconds, name).
            format_6d (py_round (fl (fl (100 * fl (200 - seconds)) / 200))) @ ''%  '' @
            format_6f seconds @ ''  '' @ name @ nl) [(?s, ''try'')])\<rparr>)" and
    r: "py_round (of_int 2 + 1 / 2) = 2 + 1 \<and> py_round (- (of_int 2 + 1 / 2)) = - (2 + 1)" and
    l: "length (format_6d 100) = 6"
    by blast+
  have v: "py_round (fl (fl (100 * fl (200 - ?s)) / 200)) = 100"
    using speedup_of_rounded_difference by (simp only: speedup_def)
  have "concat (map (\<lambda>(seconds, name).
            format_6d (py_round (fl (fl (100 * fl (200 - seconds)) / 200))) @ ''%  '' @
            format_6f seconds @ ''  '' @ name @ nl) [(?s, ''try'')]) =
      format_6d (py_round (fl (fl (100 * fl (200 - ?s)) / 200))) @ ''%  '' @
            format_6f ?s @ ''  '' @ ''try'' @ nl"
    by (simp only: list.map concat.simps split_conv append_Nil2)
  also have "\<dots> = ''   100%  1.000000  try'' @ nl"
    by (simp only: v format_6f_just_above_1 format_6d_100) simp
  finally have "print_rows (Some 200) [(?s, ''try'')] empty_state =
      Inr (empty_state\<lparr>out := ''   100%  1.000000  try'' @ nl\<rparr>)"
    using p by (simp add: empty_state_def)
  moreover have "py_round (100 * (200 - ?s) / 200) = 99"
    by (simp add: py_round_def floor_eq_iff)
  ultimately show ?thesis
    using r l by blast
qed

text \<open>
  C4 as stated fails: with a clock that lets every test but the first take 1001 times as
  long as the first, the speedup of the slower tests is -100000, and its field is 7
  characters wide.
\<close>

theorem speedup_field_wider_than_6:
  "out (final_state (main (paced_clock (\<lambda>j. if j mod 6 = 0 then 1 / 64 else 1001 / 64)))) =
     nl @ ''exists = False:'' @ nl @
     ''speedup   seconds  option'' @ nl @
     ''     0%  15625.000000  setdefault'' @ nl @
     ''-100000%  15640625.000000  defaultdict'' @ nl @
     ''-100000%  15640625.000000  get'' @ nl @
     ''-100000%  15640625.000000  in else'' @ nl @
     ''-100000%  15640625.000000  not in'' @ nl @
     ''-100000%  15640625.000000  try'' @ nl @
     nl @ ''exists = True:'' @ nl @
     ''speedup   seconds  option'' @ nl @
     ''     0%  15625.000000  setdefault'' @ nl @
     ''-100000%  15640625.000000  defaultdict'' @ nl @
     ''-100000%  15640625.000000  get'' @ nl @
     ''-100000%  15640625.000000  in else'' @ nl @
     ''-100000%  15640625.000000  not in'' @ nl @
     ''-100000%  15640625.000000  try'' @ nl \<and>
   speedup 15625 15640625 = - 100000 \<and>
   length (format_6d (speedup 15625 15640625)) = 7"
proof -
  let ?dur = "\<lambda>j :: nat. if j mod 6 = 0 then 1 / 64 else 1001 / 64 :: rat"
  let ?rows = "rows_text 15625
     (sort [(15625, ''setdefault''), (15640625, ''defaultdict''), (15640625, ''not in''),
            (15640625, ''in else''), (15640625, ''get''), (15640625, ''try'')])"
  have "?dur 0 \<noteq> 0" "?dur 6 \<noteq> 0" by simp_all
  from main_paced [of ?dur, OF dur_fast_first this] obtain s where
    m: "main (paced_clock ?dur) = Inr s" and
    o: "out s = nl @ ''exists = False:'' @ nl @ header @ nl @
      rows_text (1000000 * ?dur 0)
        (sort [(1000000 * ?dur 0, ''setdefault''), (1000000 * ?dur 1, ''defaultdict''),
               (1000000 * ?dur 2, ''not in''), (1000000 * ?dur 3, ''in else''),
               (1000000 * ?dur 4, ''get''), (1000000 * ?dur 5, ''try'')]) @
      nl @ ''exists = True:'' @ nl @ header @ nl @
      rows_text (1000000 * ?dur 6)
        (sort [(1000000 * ?dur 6, ''setdefault''), (1000000 * ?dur 7, ''defaultdict''),
               (1000000 * ?dur 8, ''not in''), (1000000 * ?dur 9, ''in else''),
               (1000000 * ?dur 10, ''get''), (1000000 * ?dur 11, ''try'')])"
    by blast
  have d: "1000000 * ?dur 0 = 15625" "1000000 * ?dur 1 = 15640625"
    "1000000 * ?dur 2 = 15640625" "1000000 * ?dur 3 = 15640625" "1000000 * ?dur 4 = 15640625"
    "1000000 * ?dur 5 = 15640625" "1000000 * ?dur 6 = 15625" "1000000 * ?dur 7 = 15640625"
    "1000000 * ?dur 8 = 15640625" "1000000 * ?dur 9 = 15640625" "1000000 * ?dur 10 = 15640625"
    "1000000 * ?dur 11 = 15640625"
    by simp_all
  have s: "speedup 15625 15640625 = - 100000"
    by (simp add: speedup_def fl_numeral fl_neg_numeral py_round_def floor_eq_iff)
  have "out s = nl @ ''exists = False:'' @ nl @ header @ nl @ ?rows @
      nl @ ''exists = True:'' @ nl @ header @ nl @ ?rows"
    using o by (simp only: d)
  then have "out (final_state (main (paced_clock ?dur))) =
      nl @ ''exists = False:'' @ nl @ header @ nl @ ?rows @
      nl @ ''exists = True:'' @ nl @ header @ nl @ ?rows"
    by (simp add: m final_state_def)
  then show ?thesis
    by (simp only: rows_fast_baseline) (simp add: header_def s format_6d_m100000)
qed

text \<open>
  C5. The test \<^verbatim>\<open>not in\<close> with \<^verbatim>\<open>repeat = 3\<close>, run under \<^verbatim>\<open>exists = False\<close> on the fixture.
  In each of the three rounds the working copy holds \<^verbatim>\<open>k1\<close> at the head of the round, the
  deletion removes it, and the measured statement then leaves under \<^verbatim>\<open>k1\<close> a dictionary
  that is exactly \<^verbatim>\<open>{'k2': 'v'}\<close>. After the three rounds the working copy holds that entry
  under \<^verbatim>\<open>k1\<close>, and under every other key the object \<^verbatim>\<open>d1\<close> holds there, still empty.
\<close>

theorem not_in_three_rounds:
  "\<exists>sE s0.
     start_env ''exists = False'' initial = Inr sE \<and>
     t_name (tests ! 2) = ''not in'' \<and>
     exec_src (or_str (t_init_once (tests ! 2)) defaults_init_once) sE = Inr s0 \<and>
     or_str (t_init_each (tests ! 2)) defaults_init_each = src_del \<and>
     t_measure (tests ! 2) = src_m_not_in \<and>
     (\<forall>i<3. \<exists>seconds si m sd sm a.
        run_iters clock src_del src_m_not_in i 0 s0 = Inr (seconds, si) \<and>
        var_d si = Some m \<and> m k1 \<noteq> None \<and>
        exec_src src_del si = Inr sd \<and> var_d sd = Some (m(k1 := None)) \<and>
        exec_src src_m_not_in (snd (time_time clock sd)) = Inr sm \<and>
        var_d sm = Some (m(k1 \<mapsto> a)) \<and> heap sm a = [k2 \<mapsto> v]) \<and>
     (\<exists>seconds s' m a.
        run_test clock ((tests ! 2)\<lparr>t_repeat := Some 3\<rparr>) sE = Inr (seconds, s') \<and>
        var_d s' = Some m \<and> m k1 = Some a \<and> heap s' a = [k2 \<mapsto> v] \<and>
        (\<forall>k. k \<noteq> k1 \<longrightarrow> m k = var_d1 initial k) \<and>
        (\<forall>k a'. k \<noteq> k1 \<and> m k = Some a' \<longrightarrow> heap s' a' = Map.empty))"
proof -
  let ?sE = "initial\<lparr>out := out initial @ nl @ ''exists = False'' @ '':'' @ nl,
    var_exists := Some False\<rparr>"
  let ?t = "(tests ! 2)\<lparr>t_repeat := Some 3\<rparr>"
  let ?s0 = "after_init_once ?t ?sE"
  have bt: "benchmark_test ?t"
    by (simp add: tests_nth_2 benchmark_test_def measured_srcs_def src_m_not_in_neq)
  have bt2: "benchmark_test (tests ! 2)"
    by (simp add: tests_benchmark tests_def)
  have s0: "after_init_once (tests ! 2) ?sE = ?s0"
    by (simp add: after_init_once_def tests_nth_2)
  have me: "t_measure ?t = src_m_not_in"
    by (simp add: tests_nth_2)
  have pre: "var_exists ?sE = Some False" "var_d1 ?sE k1 = Some 1" "1 < next_addr ?sE"
    by (simp_all add: initial_k1_addr initial_fields)
  have round: "\<exists>seconds si m sd sm a.
        run_iters clock src_del src_m_not_in i 0 ?s0 = Inr (seconds, si) \<and>
        var_d si = Some m \<and> m k1 \<noteq> None \<and>
        exec_src src_del si = Inr sd \<and> var_d sd = Some (m(k1 := None)) \<and>
        exec_src src_m_not_in (snd (time_time clock sd)) = Inr sm \<and>
        var_d sm = Some (m(k1 \<mapsto> a)) \<and> heap sm a = [k2 \<mapsto> v]" for i
  proof -
    from run_iters_loop_inv [OF bt pre, of clock i 0] obtain si where
      it: "run_iters clock src_del src_m_not_in i 0 ?s0 =
             Inr (acc_seconds clock i (ticks ?sE) 0, si)" and
      li: "loop_inv 1 False ?s0 si"
      unfolding me by blast
    from loop_inv_del [OF li] obtain m a where
      d: "var_d si = Some m" "m k1 = Some a"
        "exec_src src_del si = Inr (si\<lparr>var_d := Some (m(k1 := None))\<rparr>)"
      by blast
    let ?sd = "si\<lparr>var_d := Some (m(k1 := None))\<rparr>"
    let ?s2 = "snd (time_time clock ?sd)"
    have "exec_src src_m_not_in ?s2 = Inr (ins_fresh (m(k1 := None)) ?s2)"
      by (rule measured_absent)
        (simp_all add: measured_srcs_def time_time_def src_m_not_in_neq)
    moreover have "var_d (ins_fresh (m(k1 := None)) ?s2) = Some (m(k1 \<mapsto> next_addr si))"
      "heap (ins_fresh (m(k1 := None)) ?s2) (next_addr si) = [k2 \<mapsto> v]"
      by (simp_all add: ins_fresh_def time_time_def)
    ultimately show ?thesis
      using it d by (intro exI [of _ "acc_seconds clock i (ticks ?sE) 0"] exI [of _ si]
          exI [of _ m] exI [of _ ?sd] exI [of _ "ins_fresh (m(k1 := None)) ?s2"]
          exI [of _ "next_addr si"]) simp
  qed
  have final: "\<exists>seconds s' m a.
        run_test clock ?t ?sE = Inr (seconds, s') \<and>
        var_d s' = Some m \<and> m k1 = Some a \<and> heap s' a = [k2 \<mapsto> v] \<and>
        (\<forall>k. k \<noteq> k1 \<longrightarrow> m k = var_d1 initial k) \<and>
        (\<forall>k a'. k \<noteq> k1 \<and> m k = Some a' \<longrightarrow> heap s' a' = Map.empty)"
  proof -
    have r3: "rounds ?t = 3"
      by (simp add: rounds_def or_int_def)
    from run_test_spec [OF bt pre, of clock] obtain s' where
      r: "run_test clock ?t ?sE = Inr (test_seconds clock (rounds ?t) (ticks ?sE), s')" and
      li: "loop_inv 1 False ?s0 s'" and t: "ticks s' = ticks ?sE + 2 * rounds ?t"
      by blast
    have t0: "ticks ?s0 < ticks s'"
      using t r3 by (simp add: after_init_once_def)
    from li t0 obtain m a where
      f: "frame 1 ?s0 s'" and d: "var_d s' = Some m" "m k1 = Some a" and
      others: "\<forall>k. k \<noteq> k1 \<longrightarrow> m k = var_d1 ?s0 k" and h: "heap s' a = [k2 \<mapsto> v]"
      unfolding loop_inv_def by auto
    have o1: "\<forall>k. k \<noteq> k1 \<longrightarrow> m k = var_d1 initial k"
      using others by (simp add: after_init_once_def)
    have "heap s' a' = Map.empty" if "k \<noteq> k1 \<and> m k = Some a'" for k a'
    proof -
      from that o1 have "var_d1 initial k = Some a'" and nk: "k \<noteq> k1" by auto
      then have a': "a' < 1000000" and k: "k = ''k'' @ str_nat a'"
        by (auto simp: initial_key_iff)
      from k nk have "a' \<noteq> 1"
        using k1_key by auto
      with f a' show ?thesis
        by (simp add: frame_def after_init_once_def initial_fields)
    qed
    then have o2: "\<forall>k a'. k \<noteq> k1 \<and> m k = Some a' \<longrightarrow> heap s' a' = Map.empty"
      by blast
    show ?thesis
      by (intro exI [of _ "test_seconds clock (rounds ?t) (ticks ?sE)"] exI [of _ s']
          exI [of _ m] exI [of _ a] conjI) (rule r d h o1 o2)+
  qed
  have f1: "start_env ''exists = False'' initial = Inr ?sE"
    by (rule start_env_False)
  have f2: "t_name (tests ! 2) = ''not in''" and f5: "t_measure (tests ! 2) = src_m_not_in"
    by (simp_all add: tests_nth_2)
  have f3: "exec_src (or_str (t_init_once (tests ! 2)) defaults_init_once) ?sE = Inr ?s0"
    using exec_init_once [OF bt2, of ?sE] s0 by simp
  have f4: "or_str (t_init_each (tests ! 2)) defaults_init_each = src_del"
    by (rule init_each_del [OF bt2])
  have f6: "\<forall>i<3. \<exists>seconds si m sd sm a.
        run_iters clock src_del src_m_not_in i 0 ?s0 = Inr (seconds, si) \<and>
        var_d si = Some m \<and> m k1 \<noteq> None \<and>
        exec_src src_del si = Inr sd \<and> var_d sd = Some (m(k1 := None)) \<and>
        exec_src src_m_not_in (snd (time_time clock sd)) = Inr sm \<and>
        var_d sm = Some (m(k1 \<mapsto> a)) \<and> heap sm a = [k2 \<mapsto> v]"
    using round by (intro allI impI)
  show ?thesis
    by (intro exI [of _ ?sE] exI [of _ ?s0] conjI) (rule f1 f2 f3 f4 f5 f6 final)+
qed

theorem not_in_three_rounds_witness:
  "\<exists>sE s0 seconds si m sd sm a.
     start_env ''exists = False'' initial = Inr sE \<and>
     exec_src (or_str (t_init_once (tests ! 2)) defaults_init_once) sE = Inr s0 \<and>
     run_iters (\<lambda>n. of_nat n) src_del src_m_not_in 2 0 s0 = Inr (seconds, si) \<and>
     var_d si = Some m \<and> m k1 \<noteq> None \<and>
     exec_src src_del si = Inr sd \<and> var_d sd = Some (m(k1 := None)) \<and>
     exec_src src_m_not_in (snd (time_time (\<lambda>n. of_nat n) sd)) = Inr sm \<and>
     var_d sm = Some (m(k1 \<mapsto> a)) \<and> heap sm a = [k2 \<mapsto> v]"
proof -
  from not_in_three_rounds [of "\<lambda>n. of_nat n"] obtain sE s0 where
    a: "start_env ''exists = False'' initial = Inr sE" and
    b: "exec_src (or_str (t_init_once (tests ! 2)) defaults_init_once) sE = Inr s0" and
    r: "\<forall>i<3. \<exists>seconds si m sd sm a.
        run_iters (\<lambda>n. of_nat n) src_del src_m_not_in i 0 s0 = Inr (seconds, si) \<and>
        var_d si = Some m \<and> m k1 \<noteq> None \<and>
        exec_src src_del si = Inr sd \<and> var_d sd = Some (m(k1 := None)) \<and>
        exec_src src_m_not_in (snd (time_time (\<lambda>n. of_nat n) sd)) = Inr sm \<and>
        var_d sm = Some (m(k1 \<mapsto> a)) \<and> heap sm a = [k2 \<mapsto> v]"
    by (elim exE conjE)
  have "(2 :: nat) < 3" by simp
  with r obtain seconds si m sd sm a where
    "run_iters (\<lambda>n. of_nat n) src_del src_m_not_in 2 0 s0 = Inr (seconds, si) \<and>
        var_d si = Some m \<and> m k1 \<noteq> None \<and>
        exec_src src_del si = Inr sd \<and> var_d sd = Some (m(k1 := None)) \<and>
        exec_src src_m_not_in (snd (time_time (\<lambda>n. of_nat n) sd)) = Inr sm \<and>
        var_d sm = Some (m(k1 \<mapsto> a)) \<and> heap sm a = [k2 \<mapsto> v]"
    by meson
  with a b show ?thesis
    by (intro exI [of _ sE] exI [of _ s0] exI [of _ seconds] exI [of _ si] exI [of _ m]
        exI [of _ sd] exI [of _ sm] exI [of _ a]) simp
qed

text \<open>
  C6. The test \<^verbatim>\<open>setdefault\<close> under \<^verbatim>\<open>exists = True\<close>, in the state the first condition
  leaves. At the head of every round the working copy holds under \<^verbatim>\<open>k1\<close> the object that
  \<^verbatim>\<open>d1\<close> holds there (address 1); nothing is deleted; the measured statement leaves the
  working copy as it was, the same object under \<^verbatim>\<open>k1\<close>, and that object then maps
  \<^verbatim>\<open>k2\<close> to \<^verbatim>\<open>v\<close>. The dictionary the statement builds as the default is not stored.
\<close>

theorem setdefault_keeps_object:
  "run_env clock ''exists = False'' initial = Inr s1 \<longrightarrow>
   (\<exists>sE s0.
      start_env ''exists = True'' s1 = Inr sE \<and>
      t_name (tests ! 0) = ''setdefault'' \<and>
      exec_src (or_str (t_init_once (tests ! 0)) defaults_init_once) sE = Inr s0 \<and>
      or_str (t_init_each (tests ! 0)) defaults_init_each = src_del \<and>
      t_measure (tests ! 0) = src_m_setdefault \<and>
      var_d1 initial k1 = Some 1 \<and>
      (\<forall>i<1000000. \<exists>seconds si m sm.
         run_iters clock src_del src_m_setdefault i 0 s0 = Inr (seconds, si) \<and>
         var_d si = Some m \<and> m k1 = Some 1 \<and>
         exec_src src_del si = Inr si \<and>
         exec_src src_m_setdefault (snd (time_time clock si)) = Inr sm \<and>
         var_d sm = Some m \<and> heap sm 1 k2 = Some v))"
proof
  assume run: "run_env clock ''exists = False'' initial = Inr s1"
  let ?sE = "s1\<lparr>out := out s1 @ nl @ ''exists = True'' @ '':'' @ nl, var_exists := Some True\<rparr>"
  let ?t = "tests ! 0"
  let ?s0 = "after_init_once ?t ?sE"
  have bt: "benchmark_test ?t"
    by (simp add: tests_benchmark tests_def)
  have me: "t_measure ?t = src_m_setdefault"
    by (simp add: tests_nth_0)
  from run_env_False_state [OF run] have
    pre: "var_exists ?sE = Some True" "var_d1 ?sE k1 = Some 1" "1 < next_addr ?sE"
    by simp_all
  have round: "\<exists>seconds si m sm.
         run_iters clock src_del src_m_setdefault i 0 ?s0 = Inr (seconds, si) \<and>
         var_d si = Some m \<and> m k1 = Some 1 \<and>
         exec_src src_del si = Inr si \<and>
         exec_src src_m_setdefault (snd (time_time clock si)) = Inr sm \<and>
         var_d sm = Some m \<and> heap sm 1 k2 = Some v" for i
  proof -
    from run_iters_loop_inv [OF bt pre, of clock i 0] obtain si where
      it: "run_iters clock src_del src_m_setdefault i 0 ?s0 =
             Inr (acc_seconds clock i (ticks ?sE) 0, si)" and
      li: "loop_inv 1 True ?s0 si"
      unfolding me by blast
    from loop_inv_present [OF li] obtain m where
      d: "var_d si = Some m" "m k1 = Some 1" "exec_src src_del si = Inr si"
      by blast
    let ?s2 = "snd (time_time clock si)"
    let ?sm = "store_present src_m_setdefault 1 ?s2"
    have "exec_src src_m_setdefault ?s2 = Inr ?sm"
      by (rule measured_present [where m = m])
        (simp_all add: measured_srcs_def time_time_def d)
    moreover have "var_d ?sm = Some m" "heap ?sm 1 k2 = Some v"
      by (simp_all add: store_present_def inner_setitem_def alloc_def time_time_def d)
    ultimately show ?thesis
      using it d by (intro exI [of _ "acc_seconds clock i (ticks ?sE) 0"] exI [of _ si]
          exI [of _ m] exI [of _ ?sm]) simp
  qed
  have f1: "start_env ''exists = True'' s1 = Inr ?sE"
    by (rule start_env_True)
  have f2: "t_name (tests ! 0) = ''setdefault''"
    by (simp add: tests_nth_0)
  have f3: "exec_src (or_str (t_init_once (tests ! 0)) defaults_init_once) ?sE = Inr ?s0"
    by (rule exec_init_once [OF bt])
  have f4: "or_str (t_init_each (tests ! 0)) defaults_init_each = src_del"
    by (rule init_each_del [OF bt])
  have f6: "\<forall>i<1000000. \<exists>seconds si m sm.
         run_iters clock src_del src_m_setdefault i 0 ?s0 = Inr (seconds, si) \<and>
         var_d si = Some m \<and> m k1 = Some 1 \<and>
         exec_src src_del si = Inr si \<and>
         exec_src src_m_setdefault (snd (time_time clock si)) = Inr sm \<and>
         var_d sm = Some m \<and> heap sm 1 k2 = Some v"
    using round by (intro allI impI)
  show "\<exists>sE s0.
      start_env ''exists = True'' s1 = Inr sE \<and>
      t_name (tests ! 0) = ''setdefault'' \<and>
      exec_src (or_str (t_init_once (tests ! 0)) defaults_init_once) sE = Inr s0 \<and>
      or_str (t_init_each (tests ! 0)) defaults_init_each = src_del \<and>
      t_measure (tests ! 0) = src_m_setdefault \<and>
      var_d1 initial k1 = Some 1 \<and>
      (\<forall>i<1000000. \<exists>seconds si m sm.
         run_iters clock src_del src_m_setdefault i 0 s0 = Inr (seconds, si) \<and>
         var_d si = Some m \<and> m k1 = Some 1 \<and>
         exec_src src_del si = Inr si \<and>
         exec_src src_m_setdefault (snd (time_time clock si)) = Inr sm \<and>
         var_d sm = Some m \<and> heap sm 1 k2 = Some v)"
    by (intro exI [of _ ?sE] exI [of _ ?s0] conjI) (rule f1 f2 f3 f4 me initial_k1_addr f6)+
qed

theorem setdefault_keeps_object_witness:
  "\<exists>s1 sE s0 seconds si m sm.
      run_env (paced_clock (\<lambda>j. 1 / 64)) ''exists = False'' initial = Inr s1 \<and>
      start_env ''exists = True'' s1 = Inr sE \<and>
      exec_src (or_str (t_init_once (tests ! 0)) defaults_init_once) sE = Inr s0 \<and>
      run_iters (paced_clock (\<lambda>j. 1 / 64)) src_del src_m_setdefault 999999 0 s0 =
        Inr (seconds, si) \<and>
      var_d si = Some m \<and> m k1 = Some 1 \<and>
      exec_src src_del si = Inr si \<and>
      exec_src src_m_setdefault (snd (time_time (paced_clock (\<lambda>j. 1 / 64)) si)) = Inr sm \<and>
      var_d sm = Some m \<and> heap sm 1 k2 = Some v"
proof -
  let ?c = "paced_clock (\<lambda>j. 1 / 64)"
  have "test_seconds ?c 1000000 0 \<noteq> 0"
    by (simp add: paced_clock_base0 [of "\<lambda>j. 1 / 64", OF dur_const])
  with run_env_False_cases [of ?c] obtain s1 where
    run: "run_env ?c ''exists = False'' initial = Inr s1"
    by auto
  with setdefault_keeps_object [of ?c s1] obtain sE s0 where
    a: "start_env ''exists = True'' s1 = Inr sE" and
    b: "exec_src (or_str (t_init_once (tests ! 0)) defaults_init_once) sE = Inr s0" and
    r: "\<forall>i<1000000. \<exists>seconds si m sm.
         run_iters ?c src_del src_m_setdefault i 0 s0 = Inr (seconds, si) \<and>
         var_d si = Some m \<and> m k1 = Some 1 \<and>
         exec_src src_del si = Inr si \<and>
         exec_src src_m_setdefault (snd (time_time ?c si)) = Inr sm \<and>
         var_d sm = Some m \<and> heap sm 1 k2 = Some v"
    by (elim impE exE conjE)
  have "(999999 :: nat) < 1000000" by simp
  with r obtain seconds si m sm where
    "run_iters ?c src_del src_m_setdefault 999999 0 s0 = Inr (seconds, si) \<and>
         var_d si = Some m \<and> m k1 = Some 1 \<and>
         exec_src src_del si = Inr si \<and>
         exec_src src_m_setdefault (snd (time_time ?c si)) = Inr sm \<and>
         var_d sm = Some m \<and> heap sm 1 k2 = Some v"
    by meson
  with run a b show ?thesis
    by (intro exI [of _ s1] exI [of _ sE] exI [of _ s0] exI [of _ seconds] exI [of _ si]
        exI [of _ m] exI [of _ sm]) simp
qed

text \<open>
  C7. The rows of a table are printed in the order of \<^verbatim>\<open>sorted(results)\<close>: the elapsed
  seconds never decrease from one row to the next, the rows are the result entries, each
  once, and when no two entries have the same seconds the seconds increase strictly.
\<close>

theorem table_sorted_by_seconds:
  "b \<noteq> 0 \<Longrightarrow>
   print_table results (Some b) s =
     Inr (s\<lparr>out := out s @ header @ nl @
            concat (map (\<lambda>(seconds, name). format_row b seconds name @ nl) (sort results))\<rparr>) \<and>
   sorted (map fst (sort results)) \<and> mset (sort results) = mset results \<and>
   (distinct (map fst results) \<longrightarrow> sorted_wrt (<) (map fst (sort results)))"
proof (intro conjI impI)
  assume "b \<noteq> 0"
  then show "print_table results (Some b) s =
     Inr (s\<lparr>out := out s @ header @ nl @
            concat (map (\<lambda>(seconds, name). format_row b seconds name @ nl) (sort results))\<rparr>)"
    by (simp add: print_table_ok rows_text_def)
next
  show "sorted (map fst (sort results))"
    by (rule sorted_fst_sort)
next
  show "mset (sort results) = mset results"
    by simp
next
  assume "distinct (map fst results)"
  then have "distinct (map fst (sort results))"
    by (metis distinct_map distinct_sort set_sort inj_on_cong mset_sort mset_map mset_eq_imp_distinct_iff)
  with sorted_fst_sort [of results] show "sorted_wrt (<) (map fst (sort results))"
    by (simp add: strict_sorted_iff)
qed

theorem table_sorted_by_seconds_witness:
  "print_table [(2, ''setdefault''), (1, ''try''), (3 / 2, ''get'')] (Some 2) empty_state =
     Inr (empty_state\<lparr>out := out empty_state @ header @ nl @
            concat (map (\<lambda>(seconds, name). format_row 2 seconds name @ nl)
              (sort [(2, ''setdefault''), (1, ''try''), (3 / 2, ''get'')]))\<rparr>) \<and>
   sort [(2 :: rat, ''setdefault''), (1, ''try''), (3 / 2, ''get'')] =
     [(1, ''try''), (3 / 2, ''get''), (2, ''setdefault'')] \<and>
   sorted_wrt (<) (map fst (sort [(2 :: rat, ''setdefault''), (1, ''try''), (3 / 2, ''get'')]))"
proof -
  have d: "distinct (map fst [(2 :: rat, ''setdefault''), (1, ''try''), (3 / 2, ''get'')])"
    by simp
  have s: "sort [(2 :: rat, ''setdefault''), (1, ''try''), (3 / 2, ''get'')] =
     [(1, ''try''), (3 / 2, ''get''), (2, ''setdefault'')]"
    by code_simp
  from table_sorted_by_seconds [of 2 "[(2, ''setdefault''), (1, ''try''), (3 / 2, ''get'')]"
      empty_state] d s
  show ?thesis by simp
qed

text \<open>
  C8, as the script has it. Before each table the script prints an empty line and the
  condition followed by a colon. Then come the header and, when the baseline of the
  condition is not zero, one row for each of the six tests, under its name: the speedup in
  its field, \<^verbatim>\<open>%\<close>, two spaces, the seconds with 6 decimals, two spaces and the name. When
  a baseline is zero the run ends with \<^verbatim>\<open>ZeroDivisionError\<close> right after that
  condition's header.
\<close>

theorem stdout_two_labelled_tables:
  "\<exists>sA rs0 b0 sB.
     start_env ''exists = False'' initial = Inr sA \<and>
     run_tests clock tests [] None sA = Inr (rs0, Some b0, sB) \<and>
     map snd rs0 = map t_name tests \<and> length rs0 = length tests \<and> length tests = 6 \<and>
     map t_name tests =
       [''setdefault'', ''defaultdict'', ''not in'', ''in else'', ''get'', ''try''] \<and>
     (if b0 = 0
      then main clock = Inl (ZeroDivisionError, py_print header sB) \<and>
        out (py_print header sB) = nl @ ''exists = False:'' @ nl @ header @ nl
      else \<exists>sC sD rs1 b1 sE.
        run_env clock ''exists = False'' initial = Inr sC \<and>
        out sC = nl @ ''exists = False:'' @ nl @ header @ nl @
          concat (map (\<lambda>(seconds, name). format_row b0 seconds name @ nl) (sort rs0)) \<and>
        start_env ''exists = True'' sC = Inr sD \<and>
        run_tests clock tests [] None sD = Inr (rs1, Some b1, sE) \<and>
        map snd rs1 = map t_name tests \<and> length rs1 = length tests \<and>
        (if b1 = 0
         then main clock = Inl (ZeroDivisionError, py_print header sE) \<and>
           out (py_print header sE) = out sC @ nl @ ''exists = True:'' @ nl @ header @ nl
         else \<exists>sF. main clock = Inr sF \<and>
           out sF = out sC @ nl @ ''exists = True:'' @ nl @ header @ nl @
             concat (map (\<lambda>(seconds, name). format_row b1 seconds name @ nl) (sort rs1))))"
proof -
  let ?E0 = "''exists = False''" and ?E1 = "''exists = True''"
  let ?rs0 = "expected_results clock tests 0"
  let ?b0 = "test_seconds clock 1000000 0"
  have e0: "?E0 \<in> set envs" and e1: "?E1 \<in> set envs"
    by (simp_all add: envs_def)
  have pre: "var_d1 initial k1 = Some 1" "1 < next_addr initial"
    by (simp_all add: initial_k1_addr initial_fields)
  from env_run [OF e0 pre, of clock] obtain sA sB where
    a1: "start_env ?E0 initial = Inr sA" and
    a2: "run_tests clock tests [] None sA = Inr (?rs0, Some ?b0, sB)" and
    a3: "out sB = nl @ ?E0 @ '':'' @ nl" and
    a4: "var_d1 sB k1 = Some 1" "1 < next_addr sB" and a5: "ticks sB = 12000000" and
    a6: "run_env clock ?E0 initial = print_table ?rs0 (Some ?b0) sB"
    by (auto simp: initial_fields)
  have a7: "length ?rs0 = length tests"
    by (simp add: expected_tests_length length_tests)
  have a8: "map snd ?rs0 = map t_name tests"
    by (rule expected_tests_names)
  have a9: "map t_name tests =
      [''setdefault'', ''defaultdict'', ''not in'', ''in else'', ''get'', ''try'']"
    by (simp add: tests_def)
  have run0: "run_env clock ?E0 initial =
    (if ?b0 = 0 then Inl (ZeroDivisionError, py_print header sB)
     else Inr (sB\<lparr>out := out sB @ header @ nl @
       concat (map (\<lambda>(seconds, name). format_row ?b0 seconds name @ nl) (sort ?rs0))\<rparr>))"
    unfolding a6 by (rule print_table_cases [OF expected_tests_length])
  have main: "main clock =
    (case run_env clock ?E0 initial of
       Inl e \<Rightarrow> Inl e
     | Inr sC \<Rightarrow> (case run_env clock ?E1 sC of Inl e \<Rightarrow> Inl e | Inr sF \<Rightarrow> Inr sF))"
    by (simp add: main_def envs_def split: sum.splits)
  have rest: "if ?b0 = 0
      then main clock = Inl (ZeroDivisionError, py_print header sB) \<and>
        out (py_print header sB) = nl @ ''exists = False:'' @ nl @ header @ nl
      else \<exists>sC sD rs1 b1 sE.
        run_env clock ''exists = False'' initial = Inr sC \<and>
        out sC = nl @ ''exists = False:'' @ nl @ header @ nl @
          concat (map (\<lambda>(seconds, name). format_row ?b0 seconds name @ nl) (sort ?rs0)) \<and>
        start_env ''exists = True'' sC = Inr sD \<and>
        run_tests clock tests [] None sD = Inr (rs1, Some b1, sE) \<and>
        map snd rs1 = map t_name tests \<and> length rs1 = length tests \<and>
        (if b1 = 0
         then main clock = Inl (ZeroDivisionError, py_print header sE) \<and>
           out (py_print header sE) = out sC @ nl @ ''exists = True:'' @ nl @ header @ nl
         else \<exists>sF. main clock = Inr sF \<and>
           out sF = out sC @ nl @ ''exists = True:'' @ nl @ header @ nl @
             concat (map (\<lambda>(seconds, name). format_row b1 seconds name @ nl) (sort rs1)))"
  proof (cases "?b0 = 0")
    case True
    then show ?thesis
      by (simp add: main run0 a3 py_print_def)
  next
    case False
    let ?sC = "sB\<lparr>out := out sB @ header @ nl @
       concat (map (\<lambda>(seconds, name). format_row ?b0 seconds name @ nl) (sort ?rs0))\<rparr>"
    let ?rs1 = "expected_results clock tests 12000000"
    let ?b1 = "test_seconds clock 1000000 12000000"
    have c1: "run_env clock ?E0 initial = Inr ?sC"
      using False by (simp add: run0)
    have c2: "out ?sC = nl @ ''exists = False:'' @ nl @ header @ nl @
          concat (map (\<lambda>(seconds, name). format_row ?b0 seconds name @ nl) (sort ?rs0))"
      by (simp add: a3)
    have preC: "var_d1 ?sC k1 = Some 1" "1 < next_addr ?sC"
      using a4 by simp_all
    from env_run [OF e1 preC, of clock] obtain sD sE where
      d1: "start_env ?E1 ?sC = Inr sD" and
      d2: "run_tests clock tests [] None sD = Inr (?rs1, Some ?b1, sE)" and
      d3: "out sE = out ?sC @ nl @ ?E1 @ '':'' @ nl" and
      d6: "run_env clock ?E1 ?sC = print_table ?rs1 (Some ?b1) sE"
      by (auto simp: a5)
    have d7: "length ?rs1 = length tests"
      by (simp add: expected_tests_length length_tests)
    have d8: "map snd ?rs1 = map t_name tests"
      by (rule expected_tests_names)
    have run1: "run_env clock ?E1 ?sC =
      (if ?b1 = 0 then Inl (ZeroDivisionError, py_print header sE)
       else Inr (sE\<lparr>out := out sE @ header @ nl @
         concat (map (\<lambda>(seconds, name). format_row ?b1 seconds name @ nl) (sort ?rs1))\<rparr>))"
      unfolding d6 by (rule print_table_cases [OF expected_tests_length])
    have last: "if ?b1 = 0
         then main clock = Inl (ZeroDivisionError, py_print header sE) \<and>
           out (py_print header sE) = out ?sC @ nl @ ''exists = True:'' @ nl @ header @ nl
         else \<exists>sF. main clock = Inr sF \<and>
           out sF = out ?sC @ nl @ ''exists = True:'' @ nl @ header @ nl @
             concat (map (\<lambda>(seconds, name). format_row ?b1 seconds name @ nl) (sort ?rs1))"
    proof (cases "?b1 = 0")
      case True
      then show ?thesis
        by (simp add: main c1 run1 d3 py_print_def)
    next
      case False
      then show ?thesis
        by (simp add: main c1 run1 d3)
    qed
    have "\<exists>sC sD rs1 b1 sE.
        run_env clock ''exists = False'' initial = Inr sC \<and>
        out sC = nl @ ''exists = False:'' @ nl @ header @ nl @
          concat (map (\<lambda>(seconds, name). format_row ?b0 seconds name @ nl) (sort ?rs0)) \<and>
        start_env ''exists = True'' sC = Inr sD \<and>
        run_tests clock tests [] None sD = Inr (rs1, Some b1, sE) \<and>
        map snd rs1 = map t_name tests \<and> length rs1 = length tests \<and>
        (if b1 = 0
         then main clock = Inl (ZeroDivisionError, py_print header sE) \<and>
           out (py_print header sE) = out sC @ nl @ ''exists = True:'' @ nl @ header @ nl
         else \<exists>sF. main clock = Inr sF \<and>
           out sF = out sC @ nl @ ''exists = True:'' @ nl @ header @ nl @
             concat (map (\<lambda>(seconds, name). format_row b1 seconds name @ nl) (sort rs1)))"
      by (intro exI [of _ ?sC] exI [of _ sD] exI [of _ ?rs1] exI [of _ ?b1] exI [of _ sE] conjI)
        (rule c1 c2 d1 d2 d7 d8 last)+
    with False show ?thesis
      by (simp only: if_False)
  qed
  show ?thesis
    by (intro exI [of _ sA] exI [of _ ?rs0] exI [of _ ?b0] exI [of _ sB] conjI)
      (rule a1 a2 a7 a8 a9 length_tests rest)+
qed

text \<open>
  C8 as stated fails: standard output does not consist of the two tables alone. With a
  clock that lets every measured statement take 1/64 second, the output starts with an
  empty line and the line \<^verbatim>\<open>exists = False:\<close>, not with the header, and the second table is
  likewise preceded by an empty line and \<^verbatim>\<open>exists = True:\<close>.
\<close>

theorem stdout_starts_with_label:
  "out (final_state (main (paced_clock (\<lambda>j. 1 / 64)))) =
     nl @ ''exists = False:'' @ nl @
     ''speedup   seconds  option'' @ nl @
     ''     0%  15625.000000  defaultdict'' @ nl @
     ''     0%  15625.000000  get'' @ nl @
     ''     0%  15625.000000  in else'' @ nl @
     ''     0%  15625.000000  not in'' @ nl @
     ''     0%  15625.000000  setdefault'' @ nl @
     ''     0%  15625.000000  try'' @ nl @
     nl @ ''exists = True:'' @ nl @
     ''speedup   seconds  option'' @ nl @
     ''     0%  15625.000000  defaultdict'' @ nl @
     ''     0%  15625.000000  get'' @ nl @
     ''     0%  15625.000000  in else'' @ nl @
     ''     0%  15625.000000  not in'' @ nl @
     ''     0%  15625.000000  setdefault'' @ nl @
     ''     0%  15625.000000  try'' @ nl \<and>
   take (length header) (out (final_state (main (paced_clock (\<lambda>j. 1 / 64))))) \<noteq> header"
proof -
  let ?dur = "\<lambda>j :: nat. 1 / 64 :: rat"
  let ?rows = "rows_text 15625
     (sort [(15625, ''setdefault''), (15625, ''defaultdict''), (15625, ''not in''),
            (15625, ''in else''), (15625, ''get''), (15625, ''try'')])"
  have "?dur 0 \<noteq> 0" "?dur 6 \<noteq> 0" by simp_all
  from main_paced [of ?dur, OF dur_const this] obtain s where
    m: "main (paced_clock ?dur) = Inr s" and
    o: "out s = nl @ ''exists = False:'' @ nl @ header @ nl @
      rows_text (1000000 * (1 / 64))
        (sort [(1000000 * (1 / 64), ''setdefault''), (1000000 * (1 / 64), ''defaultdict''),
               (1000000 * (1 / 64), ''not in''), (1000000 * (1 / 64), ''in else''),
               (1000000 * (1 / 64), ''get''), (1000000 * (1 / 64), ''try'')]) @
      nl @ ''exists = True:'' @ nl @ header @ nl @
      rows_text (1000000 * (1 / 64))
        (sort [(1000000 * (1 / 64), ''setdefault''), (1000000 * (1 / 64), ''defaultdict''),
               (1000000 * (1 / 64), ''not in''), (1000000 * (1 / 64), ''in else''),
               (1000000 * (1 / 64), ''get''), (1000000 * (1 / 64), ''try'')])"
    by blast
  have d: "1000000 * (1 / 64) = (15625 :: rat)"
    by simp
  have "out s = nl @ ''exists = False:'' @ nl @ header @ nl @ ?rows @
      nl @ ''exists = True:'' @ nl @ header @ nl @ ?rows"
    using o by (simp only: d)
  then have e: "out (final_state (main (paced_clock ?dur))) =
      nl @ ''exists = False:'' @ nl @ header @ nl @ ?rows @
      nl @ ''exists = True:'' @ nl @ header @ nl @ ?rows"
    by (simp add: m final_state_def)
  have "take (length header) (out (final_state (main (paced_clock ?dur)))) \<noteq> header"
    unfolding e by (simp add: header_def nl_def)
  moreover from e have "out (final_state (main (paced_clock ?dur))) =
     nl @ ''exists = False:'' @ nl @
     ''speedup   seconds  option'' @ nl @
     ''     0%  15625.000000  defaultdict'' @ nl @
     ''     0%  15625.000000  get'' @ nl @
     ''     0%  15625.000000  in else'' @ nl @
     ''     0%  15625.000000  not in'' @ nl @
     ''     0%  15625.000000  setdefault'' @ nl @
     ''     0%  15625.000000  try'' @ nl @
     nl @ ''exists = True:'' @ nl @
     ''speedup   seconds  option'' @ nl @
     ''     0%  15625.000000  defaultdict'' @ nl @
     ''     0%  15625.000000  get'' @ nl @
     ''     0%  15625.000000  in else'' @ nl @
     ''     0%  15625.000000  not in'' @ nl @
     ''     0%  15625.000000  setdefault'' @ nl @
     ''     0%  15625.000000  try'' @ nl"
    by (simp only: rows_equal) (simp add: header_def)
  ultimately show ?thesis
    by (rule conjI [rotated])
qed

text \<open>
  C9. The defaults replace a falsy value, not only a missing key: a test whose
  \<^verbatim>\<open>repeat\<close> is missing or 0 runs the loop 1,000,000 times, any other \<^verbatim>\<open>repeat\<close> is
  taken as it is, and an \<^verbatim>\<open>init_once\<close> or \<^verbatim>\<open>init_each\<close> that is missing or the empty
  string is replaced by \<^verbatim>\<open>pass\<close>, which does nothing.
\<close>

theorem defaults_replace_falsy:
  "(t_repeat t = None \<or> t_repeat t = Some 0 \<longrightarrow>
      or_int (t_repeat t) defaults_repeat = 1000000 \<and>
      run_test clock t s =
        (case exec_src (or_str (t_init_once t) defaults_init_once) s of
           Inl e \<Rightarrow> Inl e
         | Inr s1 \<Rightarrow>
             run_iters clock (or_str (t_init_each t) defaults_init_each) (t_measure t)
               1000000 0 s1)) \<and>
   (\<forall>n. t_repeat t = Some n \<and> n \<noteq> 0 \<longrightarrow> or_int (t_repeat t) defaults_repeat = n) \<and>
   (t_init_once t = None \<or> t_init_once t = Some [] \<longrightarrow>
      or_str (t_init_once t) defaults_init_once = ''pass'') \<and>
   (t_init_each t = None \<or> t_init_each t = Some [] \<longrightarrow>
      or_str (t_init_each t) defaults_init_each = ''pass'') \<and>
   exec_src ''pass'' s = Inr s"
proof -
  have r: "or_int (t_repeat t) defaults_repeat = 1000000"
    if "t_repeat t = None \<or> t_repeat t = Some 0"
    using that by (auto simp: or_int_def defaults_repeat_def)
  have "run_test clock t s =
        (case exec_src (or_str (t_init_once t) defaults_init_once) s of
           Inl e \<Rightarrow> Inl e
         | Inr s1 \<Rightarrow>
             run_iters clock (or_str (t_init_each t) defaults_init_each) (t_measure t)
               1000000 0 s1)"
    if "t_repeat t = None \<or> t_repeat t = Some 0"
    by (simp add: run_test_def r [OF that] cong: sum.case_cong)
  moreover have "\<forall>n. t_repeat t = Some n \<and> n \<noteq> 0 \<longrightarrow> or_int (t_repeat t) defaults_repeat = n"
    by (simp add: or_int_def)
  moreover have "or_str (t_init_once t) defaults_init_once = ''pass''"
    if "t_init_once t = None \<or> t_init_once t = Some []"
    using that by (auto simp: or_str_def defaults_init_once_def src_pass_def)
  moreover have "or_str (t_init_each t) defaults_init_each = ''pass''"
    if "t_init_each t = None \<or> t_init_each t = Some []"
    using that by (auto simp: or_str_def defaults_init_each_def src_pass_def)
  moreover have "exec_src ''pass'' s = Inr s"
    using exec_src_pass by (simp add: src_pass_def)
  ultimately show ?thesis
    using r by blast
qed

theorem defaults_replace_falsy_witness:
  "run_test (\<lambda>n. of_nat n)
      \<lparr>t_name = ''get'', t_init_once = Some [], t_init_each = None, t_measure = src_m_get,
        t_repeat = Some 0\<rparr> initial =
     (case exec_src ''pass'' initial of
        Inl e \<Rightarrow> Inl e
      | Inr s1 \<Rightarrow> run_iters (\<lambda>n. of_nat n) ''pass'' src_m_get 1000000 0 s1) \<and>
   or_int (Some 0) defaults_repeat = 1000000 \<and>
   or_str (Some []) defaults_init_once = ''pass'' \<and>
   or_str None defaults_init_each = ''pass''"
  using defaults_replace_falsy [of
      "\<lparr>t_name = ''get'', t_init_once = Some [], t_init_each = None, t_measure = src_m_get,
        t_repeat = Some 0\<rparr>" "\<lambda>n. of_nat n" initial]
  by simp

text \<open>
  C10. Under \<^verbatim>\<open>exists = False\<close> the deletion \<^verbatim>\<open>del d[k1]\<close> never raises: \<^verbatim>\<open>d1\<close> holds
  \<^verbatim>\<open>'k1'\<close>, and for each of the six tests, run in its place after the tests before it, the
  working copy holds \<^verbatim>\<open>k1\<close> at the head of every round of the loop (after any number
  \<open>n\<close> of rounds, up to the last), so the deletion there succeeds, and the test returns.
\<close>

theorem deletion_never_fails:
  "j < length tests \<longrightarrow> n \<le> 1000000 \<longrightarrow>
   (\<exists>b sE rs base s s0 seconds s' m a.
      var_d1 initial k1 = Some b \<and>
      start_env ''exists = False'' initial = Inr sE \<and>
      run_tests clock (take j tests) [] None sE = Inr (rs, base, s) \<and>
      exec_src (or_str (t_init_once (tests ! j)) defaults_init_once) s = Inr s0 \<and>
      or_str (t_init_each (tests ! j)) defaults_init_each = src_del \<and>
      run_iters clock src_del (t_measure (tests ! j)) n 0 s0 = Inr (seconds, s') \<and>
      var_exists s' = Some False \<and> var_d s' = Some m \<and> m k1 = Some a \<and>
      exec_src src_del s' = Inr (s'\<lparr>var_d := Some (m(k1 := None))\<rparr>) \<and>
      (\<exists>r. run_test clock (tests ! j) s = Inr r))"
proof (intro impI)
  assume j: "j < length tests" and "n \<le> 1000000"
  let ?t = "tests ! j"
  from j have bt: "benchmark_test ?t"
    by (simp add: tests_benchmark)
  from initial_k1 obtain b where b: "var_d1 initial k1 = Some b" and bn: "b < next_addr initial"
    by blast
  let ?sE = "initial\<lparr>out := out initial @ nl @ ''exists = False'' @ '':'' @ nl,
    var_exists := Some False\<rparr>"
  have "var_exists ?sE = Some False" "var_d1 ?sE k1 = Some b" "b < next_addr ?sE"
    using b bn by simp_all
  from tests_prefix_spec [OF this, of clock j] obtain rs base s where
    r: "run_tests clock (take j tests) [] None ?sE = Inr (rs, base, s)" and
    e: "var_exists s = Some False" and bs: "var_d1 s k1 = Some b" "b < next_addr s"
    by blast
  from run_iters_loop_inv [OF bt e bs, of clock n 0] obtain s' where
    it: "run_iters clock src_del (t_measure ?t) n 0 (after_init_once ?t s) =
           Inr (acc_seconds clock n (ticks s) 0, s')" and
    li: "loop_inv b False (after_init_once ?t s) s'"
    by blast
  from loop_inv_del [OF li] obtain m a where
    d: "var_d s' = Some m" "m k1 = Some a" "var_exists s' = Some False"
      "exec_src src_del s' = Inr (s'\<lparr>var_d := Some (m(k1 := None))\<rparr>)"
    by blast
  from run_test_spec [OF bt e bs, of clock] have "\<exists>r. run_test clock ?t s = Inr r"
    by blast
  with b r it d show "\<exists>b sE rs base s s0 seconds s' m a.
      var_d1 initial k1 = Some b \<and>
      start_env ''exists = False'' initial = Inr sE \<and>
      run_tests clock (take j tests) [] None sE = Inr (rs, base, s) \<and>
      exec_src (or_str (t_init_once (tests ! j)) defaults_init_once) s = Inr s0 \<and>
      or_str (t_init_each (tests ! j)) defaults_init_each = src_del \<and>
      run_iters clock src_del (t_measure (tests ! j)) n 0 s0 = Inr (seconds, s') \<and>
      var_exists s' = Some False \<and> var_d s' = Some m \<and> m k1 = Some a \<and>
      exec_src src_del s' = Inr (s'\<lparr>var_d := Some (m(k1 := None))\<rparr>) \<and>
      (\<exists>r. run_test clock (tests ! j) s = Inr r)"
    using start_env_False [of initial] exec_init_once [OF bt, of s] init_each_del [OF bt]
    by (intro exI [of _ b] exI [of _ ?sE] exI [of _ rs] exI [of _ base] exI [of _ s]
        exI [of _ "after_init_once ?t s"] exI [of _ "acc_seconds clock n (ticks s) 0"]
        exI [of _ s'] exI [of _ m] exI [of _ a]) simp
qed

theorem deletion_never_fails_witness:
  "\<exists>b sE rs base s s0 seconds s' m a.
      var_d1 initial k1 = Some b \<and>
      start_env ''exists = False'' initial = Inr sE \<and>
      run_tests (\<lambda>n. of_nat n) (take 5 tests) [] None sE = Inr (rs, base, s) \<and>
      exec_src (or_str (t_init_once (tests ! 5)) defaults_init_once) s = Inr s0 \<and>
      or_str (t_init_each (tests ! 5)) defaults_init_each = src_del \<and>
      run_iters (\<lambda>n. of_nat n) src_del (t_measure (tests ! 5)) 1000000 0 s0 = Inr (seconds, s') \<and>
      var_exists s' = Some False \<and> var_d s' = Some m \<and> m k1 = Some a \<and>
      exec_src src_del s' = Inr (s'\<lparr>var_d := Some (m(k1 := None))\<rparr>) \<and>
      (\<exists>r. run_test (\<lambda>n. of_nat n) (tests ! 5) s = Inr r)"
proof -
  have "5 < length tests" by (simp add: tests_def)
  with deletion_never_fails [of 5 1000000 "\<lambda>n. of_nat n"] show ?thesis
    by simp
qed

end
